(* ===== verification/Prelude.thy ===== *)
theory Prelude
  imports Complex_Main "HOL-Library.Word" "HOL-Library.Monad_Syntax"
begin

unbundle bit_operations_syntax

text \<open>
  Shared vocabulary of the development: machine types, the wrap-around of a C \<open>int\<close>,
  checked accesses to byte buffers, decimal text, and the collections of simplification
  rules the component theories use.

  A read or a write of C memory outside the object it belongs to is undefined behaviour.
  The model makes that visible: \<open>peek\<close> and \<open>poke\<close> return \<open>None\<close> outside the buffer,
  every operation that touches a buffer is a computation in the option type, and the
  safety theorems state that the result is \<open>Some\<close>.
\<close>

named_theorems buf_simps "reads and writes of byte buffers"
named_theorems world_simps "how the operations act on the state of the world"

type_synonym byte = "8 word"
type_synonym u16 = "16 word"
type_synonym u32 = "32 word"

section \<open>C integers\<close>

text \<open>
  A C \<open>int\<close> has 32 bits. \<open>i32\<close> is the two's complement value that a conversion of a wider
  integer to \<open>int\<close> yields (implementation-defined in C, modulo \<open>2^32\<close> in gcc and clang), and
  also what an overflowing \<open>++\<close>, \<open>-\<close> or \<open>*\<close> on \<open>int\<close> computes in the code these compilers
  generate for this program; the theorems state the ranges in which no overflow happens.
\<close>

definition i32 :: "int \<Rightarrow> int" where
  "i32 x = (x + 2147483648) mod 4294967296 - 2147483648"

lemma i32_id [simp]: "- 2147483648 \<le> x \<Longrightarrow> x < 2147483648 \<Longrightarrow> i32 x = x"
  by (simp add: i32_def)

lemma i32_range: "- 2147483648 \<le> i32 x \<and> i32 x < 2147483648"
  by (simp add: i32_def)

lemma i32_idem [simp]: "i32 (i32 x) = i32 x"
  using i32_range [of x] by simp

lemma i32_plus_left: "i32 (i32 x + y) = i32 (x + y)"
  by (simp add: i32_def algebra_simps mod_simps)

text \<open>Division of \<open>int\<close> values truncates towards zero.\<close>

definition c_div :: "int \<Rightarrow> int \<Rightarrow> int" where
  "c_div a b = sgn a * sgn b * (\<bar>a\<bar> div \<bar>b\<bar>)"

lemma c_div_nonneg [simp]: "0 \<le> a \<Longrightarrow> 0 < b \<Longrightarrow> c_div a b = a div b"
  by (cases "a = 0") (simp_all add: c_div_def sgn_if)

section \<open>Byte buffers\<close>

definition peek :: "'a list \<Rightarrow> nat \<Rightarrow> 'a option" where
  "peek buf i = (if i < length buf then Some (buf ! i) else None)"

definition poke :: "'a list \<Rightarrow> nat \<Rightarrow> 'a \<Rightarrow> 'a list option" where
  "poke buf i x = (if i < length buf then Some (buf[i := x]) else None)"

lemma peek_ok [buf_simps]: "i < length buf \<Longrightarrow> peek buf i = Some (buf ! i)"
  by (simp add: peek_def)

lemma poke_ok [buf_simps]: "i < length buf \<Longrightarrow> poke buf i x = Some (buf[i := x])"
  by (simp add: poke_def)

lemma peek_Some_iff: "peek buf i = Some x \<longleftrightarrow> i < length buf \<and> x = buf ! i"
  by (auto simp: peek_def)

lemma poke_Some_iff: "poke buf i x = Some b \<longleftrightarrow> i < length buf \<and> b = buf[i := x]"
  by (auto simp: poke_def)

section \<open>Byte order\<close>

text \<open>
  The order in which the host stores the two bytes of a \<open>uint16_t\<close>. The program is written
  to run on either, so the byte order is a parameter of the model.
\<close>

datatype endian = LE | BE

fun load16 :: "endian \<Rightarrow> byte \<Rightarrow> byte \<Rightarrow> u16" where
  "load16 LE a b = ucast a + 256 * ucast b"
| "load16 BE a b = ucast b + 256 * ucast a"

declare load16.simps [simp del]

definition lo8 :: "u16 \<Rightarrow> byte" where "lo8 w = ucast w"
definition hi8 :: "u16 \<Rightarrow> byte" where "hi8 w = ucast (drop_bit 8 w)"

text \<open>The byte at offset 0 and the byte at offset 1 of a stored \<open>uint16_t\<close>.\<close>

fun store16_0 :: "endian \<Rightarrow> u16 \<Rightarrow> byte" where
  "store16_0 LE w = lo8 w"
| "store16_0 BE w = hi8 w"

fun store16_1 :: "endian \<Rightarrow> u16 \<Rightarrow> byte" where
  "store16_1 LE w = hi8 w"
| "store16_1 BE w = lo8 w"

definition bswap16 :: "u16 \<Rightarrow> u16" where
  "bswap16 w = load16 LE (hi8 w) (lo8 w)"

text \<open>\<open>htons\<close> and \<open>ntohs\<close>: the same exchange on a little-endian host, nothing on a big-endian one.\<close>

fun htons :: "endian \<Rightarrow> u16 \<Rightarrow> u16" where
  "htons LE w = bswap16 w"
| "htons BE w = w"

abbreviation ntohs :: "endian \<Rightarrow> u16 \<Rightarrow> u16" where
  "ntohs \<equiv> htons"

lemma unat_byte_lt: "unat (a :: byte) < 256"
  using unsigned_less [of a] by simp

lemma unat_u16_lt: "unat (w :: u16) < 65536"
  using unsigned_less [of w] by simp

lemma unat_byte_pair:
  "unat (ucast (a :: byte) + 256 * ucast (b :: byte) :: u16) = unat a + 256 * unat b"
proof -
  have "unat a < 256" "unat b < 256" by (rule unat_byte_lt)+
  then show ?thesis by (simp add: unat_word_ariths unsigned_ucast_eq take_bit_eq_mod)
qed

lemma unat_load16:
  "unat (load16 LE a b) = unat a + 256 * unat b"
  "unat (load16 BE a b) = unat b + 256 * unat a"
  by (simp_all add: load16.simps unat_byte_pair)

lemma unat_lo8: "unat (lo8 w) = unat w mod 256"
  by (simp add: lo8_def unsigned_ucast_eq take_bit_eq_mod)

lemma unat_hi8: "unat (hi8 w) = unat w div 256"
proof -
  have "unat w div 256 < 256" using unat_u16_lt [of w] by simp
  then show ?thesis
    by (simp add: hi8_def unsigned_ucast_eq take_bit_eq_mod unsigned_drop_bit_eq
        drop_bit_eq_div unat_div)
qed

lemma load16_hi_lo [simp]: "load16 LE (lo8 w) (hi8 w) = w" "load16 BE (hi8 w) (lo8 w) = w"
  by (rule word_unat_eq_iff [THEN iffD2], simp only: unat_load16 unat_lo8 unat_hi8, simp)+

lemma lo8_load16 [simp]: "lo8 (load16 LE a b) = a" "lo8 (load16 BE a b) = b"
  by (rule word_unat_eq_iff [THEN iffD2], simp only: unat_load16 unat_lo8,
      simp add: unat_byte_lt)+

lemma hi8_load16 [simp]: "hi8 (load16 LE a b) = b" "hi8 (load16 BE a b) = a"
  by (rule word_unat_eq_iff [THEN iffD2], simp only: unat_load16 unat_hi8,
      simp add: unat_byte_lt)+

text \<open>Storing a value and loading it back is the identity in either byte order.\<close>

lemma load_store16 [simp]: "load16 e (store16_0 e w) (store16_1 e w) = w"
  by (cases e) simp_all

lemma store_load16 [simp]: "store16_0 e (load16 e a b) = a" "store16_1 e (load16 e a b) = b"
  by (cases e; simp)+

lemma bswap16_load [simp]: "bswap16 (load16 LE a b) = load16 LE b a"
  by (simp add: bswap16_def)

lemma bswap16_idem [simp]: "bswap16 (bswap16 w) = w"
  by (simp add: bswap16_def)

lemma htons_htons [simp]: "htons e (htons e w) = w"
  by (cases e) simp_all

text \<open>\<open>htons\<close> puts the high byte first on the wire, whatever the host's byte order.\<close>

lemma store_htons:
  "store16_0 e (htons e w) = hi8 w" "store16_1 e (htons e w) = lo8 w"
  by (cases e; simp add: bswap16_def)+

section \<open>Ranges and 16-bit fields of buffers\<close>

text \<open>\<open>n\<close> bytes from an offset on; \<open>memcpy\<close> of a list of bytes to an offset.\<close>

definition read_range :: "'a list \<Rightarrow> nat \<Rightarrow> nat \<Rightarrow> 'a list option" where
  "read_range buf i n = (if i + n \<le> length buf then Some (take n (drop i buf)) else None)"

definition write_range :: "'a list \<Rightarrow> nat \<Rightarrow> 'a list \<Rightarrow> 'a list option" where
  "write_range buf i xs = (if i + length xs \<le> length buf
     then Some (take i buf @ xs @ drop (i + length xs) buf) else None)"

definition peek16 :: "endian \<Rightarrow> byte list \<Rightarrow> nat \<Rightarrow> u16 option" where
  "peek16 e buf i = (if i + 2 \<le> length buf then Some (load16 e (buf ! i) (buf ! (i + 1))) else None)"

definition poke16 :: "endian \<Rightarrow> byte list \<Rightarrow> nat \<Rightarrow> u16 \<Rightarrow> byte list option" where
  "poke16 e buf i x = (if i + 2 \<le> length buf
     then Some (buf[i := store16_0 e x, i + 1 := store16_1 e x]) else None)"

lemma peek16_ok [buf_simps]:
  "i + 2 \<le> length buf \<Longrightarrow> peek16 e buf i = Some (load16 e (buf ! i) (buf ! (i + 1)))"
  by (simp add: peek16_def)

lemma poke16_ok [buf_simps]:
  "i + 2 \<le> length buf \<Longrightarrow> poke16 e buf i x = Some (buf[i := store16_0 e x, i + 1 := store16_1 e x])"
  by (simp add: poke16_def)

lemma read_range_ok [buf_simps]: "i + n \<le> length buf \<Longrightarrow> read_range buf i n = Some (take n (drop i buf))"
  by (simp add: read_range_def)

lemma write_range_ok [buf_simps]:
  "i + length xs \<le> length buf \<Longrightarrow>
     write_range buf i xs = Some (take i buf @ xs @ drop (i + length xs) buf)"
  by (simp add: write_range_def)

text \<open>The value read from a field is the one written to it.\<close>

lemma peek16_poke16: "poke16 e buf i x = Some b \<Longrightarrow> peek16 e b i = Some x"
  by (auto simp: poke16_def peek16_def split: if_splits)

text \<open>
  A loop \<open>while (i < len) { buf[off + i] = g(i); i++; }\<close> over a buffer; \<open>g\<close> itself may be an
  out-of-bounds read.
\<close>

function fill_loop :: "(nat \<Rightarrow> 'a option) \<Rightarrow> nat \<Rightarrow> nat \<Rightarrow> nat \<Rightarrow> 'a list \<Rightarrow> 'a list option" where
  "fill_loop g off len i buf =
     (if i < len then do { x \<leftarrow> g i; b \<leftarrow> poke buf (off + i) x; fill_loop g off len (Suc i) b }
      else Some buf)"
  by pat_completeness auto
termination
  by (relation "measure (\<lambda>(g, off, len, i, buf). len - i)") auto

declare fill_loop.simps [simp del]

lemma fill_loop_eq:
  assumes "i \<le> len" "off + len \<le> length buf" "\<And>j. i \<le> j \<Longrightarrow> j < len \<Longrightarrow> g j = Some (h j)"
  shows "fill_loop g off len i buf =
    Some (take (off + i) buf @ map h [i..<len] @ drop (off + len) buf)"
  using assms
proof (induction "len - i" arbitrary: i buf)
  case 0
  then show ?case by (subst fill_loop.simps) simp
next
  case (Suc n)
  then have i: "i < len" by simp
  let ?b = "buf[off + i := h i]"
  have "fill_loop g off len i buf = fill_loop g off len (Suc i) ?b"
    using Suc.prems i by (simp add: fill_loop.simps [of g off len i] poke_def)
  also have "\<dots> = Some (take (off + Suc i) ?b @ map h [Suc i..<len] @ drop (off + len) ?b)"
    using Suc i by (intro Suc.hyps(1)) simp_all
  also have "take (off + Suc i) ?b = take (off + i) buf @ [h i]"
    using Suc.prems i by (simp add: take_Suc_conv_app_nth)
  also have "drop (off + len) ?b = drop (off + len) buf"
    using i by simp
  finally show ?case using i by (simp add: upt_conv_Cons)
qed

end
