(* ===== verification/Double.thy ===== *)
theory Double
  imports Prelude
begin

text \<open>
  The C type \<open>double\<close>: IEEE 754 binary64 with rounding to nearest, ties to even, which is
  what the program's arithmetic on milliseconds is compiled to. A finite value is the
  rational number it denotes; every operation computes the exact result and rounds it with
  \<open>fl\<close>. The two zeros are one value here: no operation of the program divides by a
  zero or prints the sign of one. The theory shows that \<open>fl\<close> is monotone, exact on the
  numbers binary64 can represent, and never rounds a nonzero difference of two doubles to
  zero; the clients only use the laws of the locale \<open>rounding\<close>.
\<close>

datatype double = Fin rat | PInf | MInf | NaN

section \<open>Rounding\<close>

function ilog2 :: "int \<Rightarrow> int" where
  "ilog2 n = (if n < 2 then 0 else 1 + ilog2 (n div 2))"
  by pat_completeness auto
termination
  by (relation "measure nat") auto

declare ilog2.simps [simp del]

text \<open>The exponent of a positive rational: the greatest \<open>k\<close> with \<open>2^k \<le> x\<close>.\<close>

definition rexp :: "rat \<Rightarrow> int" where
  "rexp x = (case quotient_of x of (a, b) \<Rightarrow>
     (let k = ilog2 a - ilog2 b in if 2 powi k \<le> x then k else k - 1))"

text \<open>Rounding to an integer, ties to even.\<close>

definition rne :: "rat \<Rightarrow> int" where
  "rne y = (let f = \<lfloor>y\<rfloor>; d = y - of_int f
            in if d < 1 / 2 then f else if 1 / 2 < d then f + 1
               else if even f then f else f + 1)"

text \<open>
  The exponent of the last place kept: 53 significant bits, never below the place of the
  least subnormal number.
\<close>

definition ulp_exp :: "rat \<Rightarrow> int" where
  "ulp_exp x = max (rexp \<bar>x\<bar> - 52) (- 1074)"

definition round53 :: "rat \<Rightarrow> rat" where
  "round53 x = (if x = 0 then 0
     else of_int (rne (x / 2 powi (ulp_exp x))) * 2 powi (ulp_exp x))"

text \<open>Overflow: the rounded value has an exponent of 1024 or more.\<close>

definition fl :: "rat \<Rightarrow> double" where
  "fl x = (let v = round53 x in
     if v = 0 \<or> rexp \<bar>v\<bar> < 1024 then Fin v else if 0 < v then PInf else MInf)"

section \<open>Comparison and arithmetic\<close>

text \<open>IEEE comparisons: false as soon as an operand is a NaN.\<close>

fun dle :: "double \<Rightarrow> double \<Rightarrow> bool" where
  "dle (Fin a) (Fin b) = (a \<le> b)"
| "dle NaN _ = False"
| "dle _ NaN = False"
| "dle MInf _ = True"
| "dle _ PInf = True"
| "dle _ _ = False"

fun dlt :: "double \<Rightarrow> double \<Rightarrow> bool" where
  "dlt (Fin a) (Fin b) = (a < b)"
| "dlt NaN _ = False"
| "dlt _ NaN = False"
| "dlt MInf y = (y \<noteq> MInf)"
| "dlt x PInf = (x \<noteq> PInf)"
| "dlt _ _ = False"

fun dneg :: "double \<Rightarrow> double" where
  "dneg (Fin a) = Fin (- a)"
| "dneg PInf = MInf"
| "dneg MInf = PInf"
| "dneg NaN = NaN"

fun dadd :: "double \<Rightarrow> double \<Rightarrow> double" where
  "dadd (Fin a) (Fin b) = fl (a + b)"
| "dadd NaN _ = NaN"
| "dadd _ NaN = NaN"
| "dadd PInf MInf = NaN"
| "dadd MInf PInf = NaN"
| "dadd PInf _ = PInf"
| "dadd _ PInf = PInf"
| "dadd MInf _ = MInf"
| "dadd _ MInf = MInf"

definition dsub :: "double \<Rightarrow> double \<Rightarrow> double" where
  "dsub x y = dadd x (dneg y)"

text \<open>The infinity with the sign of a nonzero rational; zero times an infinity is a NaN.\<close>

definition inf_sign :: "rat \<Rightarrow> double" where
  "inf_sign q = (if q = 0 then NaN else if 0 < q then PInf else MInf)"

fun dmul :: "double \<Rightarrow> double \<Rightarrow> double" where
  "dmul (Fin a) (Fin b) = fl (a * b)"
| "dmul NaN _ = NaN"
| "dmul _ NaN = NaN"
| "dmul (Fin a) PInf = inf_sign a"
| "dmul (Fin a) MInf = inf_sign (- a)"
| "dmul PInf (Fin b) = inf_sign b"
| "dmul MInf (Fin b) = inf_sign (- b)"
| "dmul PInf PInf = PInf"
| "dmul MInf MInf = PInf"
| "dmul PInf MInf = MInf"
| "dmul MInf PInf = MInf"

fun ddiv :: "double \<Rightarrow> double \<Rightarrow> double" where
  "ddiv (Fin a) (Fin b) = (if b = 0 then inf_sign a else fl (a / b))"
| "ddiv NaN _ = NaN"
| "ddiv _ NaN = NaN"
| "ddiv (Fin a) _ = Fin 0"
| "ddiv PInf (Fin b) = (if b < 0 then MInf else PInf)"
| "ddiv MInf (Fin b) = (if b < 0 then PInf else MInf)"
| "ddiv _ _ = NaN"

text \<open>Conversion from an integer type, and \<open>fmin\<close>, which ignores a NaN operand.\<close>

definition dint :: "int \<Rightarrow> double" where
  "dint k = fl (of_int k)"

fun dfmin :: "double \<Rightarrow> double \<Rightarrow> double" where
  "dfmin NaN y = y"
| "dfmin x NaN = x"
| "dfmin x y = (if dle x y then x else y)"

text \<open>
  The square root, rounded once: the integer root \<open>r\<close> of the scaled operand has more than
  54 bits, and half a unit is added when it is not exact, so that rounding \<open>r\<close> with that
  sticky half is rounding the real root.
\<close>

function isqrt :: "int \<Rightarrow> int" where
  "isqrt n = (if n \<le> 0 then 0
     else let r = 2 * isqrt (n div 4) in if (r + 1) * (r + 1) \<le> n then r + 1 else r)"
  by pat_completeness auto
termination
  by (relation "measure nat") auto

declare isqrt.simps [simp del]

fun dsqrt :: "double \<Rightarrow> double" where
  "dsqrt (Fin q) =
     (if q < 0 then NaN else if q = 0 then Fin 0
      else let s = 55 - rexp q div 2;
               y = q * 2 powi (2 * s);
               r = isqrt \<lfloor>y\<rfloor>
           in fl ((of_int r + (if of_int (r * r) = y then 0 else 1 / 2)) / 2 powi s))"
| "dsqrt PInf = PInf"
| "dsqrt MInf = NaN"
| "dsqrt NaN = NaN"

section \<open>The exponent and the grid\<close>

lemma ilog2_bounds: "1 \<le> n \<Longrightarrow> 0 \<le> ilog2 n \<and> 2 ^ nat (ilog2 n) \<le> n \<and> n < 2 * 2 ^ nat (ilog2 n)"
proof (induction n rule: ilog2.induct)
  case (1 n)
  show ?case
  proof (cases "n < 2")
    case True
    with "1.prems" show ?thesis by (simp add: ilog2.simps [of n])
  next
    case False
    with "1.IH" have IH: "0 \<le> ilog2 (n div 2)" "2 ^ nat (ilog2 (n div 2)) \<le> n div 2"
      "n div 2 < 2 * 2 ^ nat (ilog2 (n div 2))" by auto
    with False show ?thesis
      by (simp add: ilog2.simps [of n] nat_add_distrib) linarith
  qed
qed

lemma ilog2_powi:
  assumes "1 \<le> n"
  shows "2 powi (ilog2 n) \<le> (of_int n :: rat)" "(of_int n :: rat) < 2 powi (ilog2 n + 1)"
proof -
  note b = ilog2_bounds [OF assms]
  have eq: "2 powi (ilog2 n) = (of_int (2 ^ nat (ilog2 n)) :: rat)"
    using b by (simp add: power_int_def)
  show "2 powi (ilog2 n) \<le> (of_int n :: rat)"
    unfolding eq using b by linarith
  have "(of_int n :: rat) < of_int (2 * 2 ^ nat (ilog2 n))"
    using b by linarith
  then show "(of_int n :: rat) < 2 powi (ilog2 n + 1)"
    by (simp add: power_int_add eq)
qed

lemma rexp_bounds:
  assumes "0 < x"
  shows "2 powi (rexp x) \<le> x" "x < 2 powi (rexp x + 1)"
proof -
  obtain a b where q: "quotient_of x = (a, b)" by (cases "quotient_of x")
  then have x: "x = of_int a / of_int b" and b: "0 < b"
    by (simp_all add: quotient_of_div quotient_of_denom_pos)
  with assms have a: "0 < a" by (simp add: zero_less_divide_iff)
  have A: "2 powi (ilog2 a) \<le> (of_int a :: rat)" "(of_int a :: rat) < 2 powi (ilog2 a + 1)"
    and B: "2 powi (ilog2 b) \<le> (of_int b :: rat)" "(of_int b :: rat) < 2 powi (ilog2 b + 1)"
    using ilog2_powi [of a] ilog2_powi [of b] a b by simp_all
  let ?k = "ilog2 a - ilog2 b"
  have up: "x < 2 powi (?k + 1)"
  proof -
    have "x < 2 powi (ilog2 a + 1) / 2 powi (ilog2 b)"
      unfolding x using A B a b by (intro frac_less) auto
    then show ?thesis by (simp add: power_int_diff power_int_add)
  qed
  have lo: "2 powi (?k - 1) \<le> x"
  proof -
    have "2 powi (ilog2 a) / 2 powi (ilog2 b + 1) \<le> x"
      unfolding x using A B a b by (intro frac_le) auto
    then show ?thesis by (simp add: power_int_diff power_int_add)
  qed
  show "2 powi (rexp x) \<le> x" "x < 2 powi (rexp x + 1)"
    using up lo by (auto simp: rexp_def q Let_def)
qed

lemma rexp_less:
  assumes "0 < x" "x < 2 powi k"
  shows "rexp x < k"
proof -
  have "2 powi (rexp x) < (2 powi k :: rat)" using rexp_bounds(1) [of x] assms by simp
  then have "\<not> k \<le> rexp x" using power_int_increasing [of k "rexp x" "2 :: rat"] by auto
  then show ?thesis by simp
qed

lemma rexp_mono:
  assumes "0 < x" "x \<le> y"
  shows "rexp x \<le> rexp y"
proof -
  have "x < 2 powi (rexp y + 1)" using rexp_bounds(2) [of y] assms by linarith
  from rexp_less [OF assms(1) this] show ?thesis by simp
qed

section \<open>Rounding to an integer\<close>

lemma rne_int [simp]: "rne (of_int k) = k"
  by (simp add: rne_def)

lemma rne_cases: "rne y = \<lfloor>y\<rfloor> \<or> rne y = \<lfloor>y\<rfloor> + 1"
  by (simp add: rne_def Let_def)

lemma rne_le_int:
  assumes "y \<le> of_int k"
  shows "rne y \<le> k"
proof (cases "\<lfloor>y\<rfloor> = k")
  case True
  with assms have "y = of_int k" by (metis floor_le_iff order_antisym of_int_floor_le)
  then show ?thesis by simp
next
  case False
  moreover have "\<lfloor>y\<rfloor> \<le> k" using assms by (metis floor_mono floor_of_int)
  ultimately show ?thesis using rne_cases [of y] by linarith
qed

lemma rne_ge_int: "of_int k \<le> y \<Longrightarrow> k \<le> rne y"
  using rne_cases [of y] le_floor_iff [of k y] by linarith

lemma rne_mono:
  assumes "x \<le> y"
  shows "rne x \<le> rne y"
proof (cases "\<lfloor>x\<rfloor> = \<lfloor>y\<rfloor>")
  case True
  with assms show ?thesis by (auto simp: rne_def Let_def)
next
  case False
  with assms floor_mono [OF assms] have "\<lfloor>x\<rfloor> + 1 \<le> \<lfloor>y\<rfloor>" by linarith
  then show ?thesis using rne_cases [of x] rne_cases [of y] by linarith
qed

lemma rne_minus: "rne (- y) = - rne y"
proof (cases "y = of_int \<lfloor>y\<rfloor>")
  case True
  then show ?thesis by (metis of_int_minus rne_int)
next
  case False
  have "of_int \<lfloor>y\<rfloor> < y" using False of_int_floor_le [of y] by linarith
  then have f: "\<lfloor>- y\<rfloor> = - \<lfloor>y\<rfloor> - 1"
    using floor_correct [of y] by (intro floor_unique) (simp; linarith)+
  show ?thesis by (auto simp: rne_def Let_def f)
qed

section \<open>Rounding to 53 bits\<close>

abbreviation grid :: "rat \<Rightarrow> rat" where
  "grid x \<equiv> 2 powi (ulp_exp x)"

lemma grid_pos [simp]: "0 < (2 :: rat) powi e"
  by simp

lemma round53_zero [simp]: "round53 0 = 0"
  by (simp add: round53_def)

lemma round53_minus: "round53 (- x) = - round53 x"
  by (simp add: round53_def ulp_exp_def rne_minus)

lemma rne_grid_le:
  assumes "x \<le> of_int m * 2 powi e"
  shows "of_int (rne (x / 2 powi e)) * 2 powi e \<le> (of_int m * 2 powi e :: rat)"
proof -
  have "rne (x / 2 powi e) \<le> m"
    using assms by (intro rne_le_int) (simp add: divide_le_eq)
  then show ?thesis by (intro mult_right_mono) simp_all
qed

lemma rne_grid_ge:
  assumes "of_int m * 2 powi e \<le> x"
  shows "(of_int m * 2 powi e :: rat) \<le> of_int (rne (x / 2 powi e)) * 2 powi e"
proof -
  have "m \<le> rne (x / 2 powi e)"
    using assms by (intro rne_ge_int) (simp add: le_divide_eq)
  then show ?thesis by (intro mult_right_mono) simp_all
qed

text \<open>A power of two that is not below the grid is a multiple of it.\<close>

lemma powi_multiple:
  assumes "e \<le> k"
  shows "(2 :: rat) powi k = of_int (2 ^ nat (k - e)) * 2 powi e"
proof -
  have "(2 :: rat) powi k = 2 powi (k - e) * 2 powi e"
    by (simp flip: power_int_add)
  with assms show ?thesis by (simp add: power_int_def)
qed

lemma round53_mono_pos:
  assumes "0 < x" "x \<le> y"
  shows "round53 x \<le> round53 y"
proof (cases "ulp_exp x = ulp_exp y")
  case True
  have "x / grid y \<le> y / grid y" using assms by (simp add: divide_right_mono)
  then have "rne (x / grid y) \<le> rne (y / grid y)" by (rule rne_mono)
  then show ?thesis using True assms
    by (auto simp: round53_def intro: mult_right_mono)
next
  case False
  have le: "rexp x \<le> rexp y" by (rule rexp_mono [OF assms])
  with False assms have e: "ulp_exp x \<le> rexp y" "ulp_exp y \<le> rexp y" "rexp x < rexp y"
    by (auto simp: ulp_exp_def max_def split: if_splits)
  let ?P = "2 powi (rexp y) :: rat"
  have "2 powi (rexp x + 1) \<le> ?P" using e by (intro power_int_increasing) auto
  then have xP: "x \<le> ?P" using rexp_bounds(2) [OF assms(1)] by linarith
  have Py: "?P \<le> y" using rexp_bounds(1) [of y] assms by simp
  have "round53 x \<le> ?P"
    using rne_grid_le [of x "2 ^ nat (rexp y - ulp_exp x)" "ulp_exp x"] xP assms
    unfolding powi_multiple [OF e(1), symmetric] by (simp add: round53_def)
  also have "?P \<le> round53 y"
    using rne_grid_ge [of "2 ^ nat (rexp y - ulp_exp y)" "ulp_exp y" y] Py assms
    unfolding powi_multiple [OF e(2), symmetric] by (simp add: round53_def)
  finally show ?thesis .
qed

lemma round53_nonneg: "0 \<le> x \<Longrightarrow> 0 \<le> round53 x"
  using rne_grid_ge [of 0 "ulp_exp x" x] by (simp add: round53_def)

lemma round53_mono:
  assumes "x \<le> y"
  shows "round53 x \<le> round53 y"
proof -
  consider "0 < x" | "x \<le> 0" "0 \<le> y" | "y < 0" using assms by linarith
  then show ?thesis
  proof cases
    case 1
    then show ?thesis using assms by (rule round53_mono_pos)
  next
    case 2
    then show ?thesis
      using round53_nonneg [of y] round53_nonneg [of "- x"] by (simp add: round53_minus)
  next
    case 3
    then have "round53 (- y) \<le> round53 (- x)" using assms by (intro round53_mono_pos) auto
    then show ?thesis by (simp add: round53_minus)
  qed
qed

section \<open>The representable numbers\<close>

lemma round53_grid_multiple: "x = of_int k * grid x \<Longrightarrow> round53 x = x"
proof -
  assume x: "x = of_int k * grid x"
  then have "x / grid x = of_int k" by (simp add: field_simps)
  then have "rne (x / grid x) = k" by simp
  then show ?thesis using x by (simp add: round53_def)
qed

lemma powi_53: "(2 :: rat) powi (53 + e) = 2 ^ 53 * 2 powi e"
  by (simp add: power_int_add)

lemma round53_exact:
  assumes x: "x = of_int m * 2 powi e" and m: "\<bar>m\<bar> \<le> 2 ^ 53" and e: "- 1074 \<le> e"
  shows "round53 x = x"
proof (cases "x = 0")
  case False
  then have pos: "0 < \<bar>x\<bar>" by simp
  have absx: "\<bar>x\<bar> = of_int \<bar>m\<bar> * 2 powi e" by (simp add: x abs_mult)
  show ?thesis
  proof (cases "\<bar>m\<bar> = 2 ^ 53")
    case True
    then have m': "m = 2 ^ 53 \<or> m = - (2 ^ 53)" by linarith
    have ax: "\<bar>x\<bar> = 2 powi (53 + e)" by (simp add: absx True powi_53)
    have "rexp \<bar>x\<bar> \<le> 53 + e" using rexp_less [OF pos, of "54 + e"] ax
      by (simp add: power_int_strict_increasing)
    then have u: "ulp_exp x \<le> 53 + e" using e by (simp add: ulp_exp_def)
    have "x = of_int (sgn m * 2 ^ nat (53 + e - ulp_exp x)) * grid x"
      using powi_multiple [OF u] x m' by (auto simp: powi_53)
    then show ?thesis by (rule round53_grid_multiple)
  next
    case False
    have "\<bar>x\<bar> < 2 powi (53 + e)"
    proof -
      have "(of_int \<bar>m\<bar> :: rat) < of_int (2 ^ 53)" using m False by linarith
      then show ?thesis by (simp add: absx powi_53)
    qed
    from rexp_less [OF pos this] have u: "ulp_exp x \<le> e" using e by (simp add: ulp_exp_def)
    have "x = of_int (m * 2 ^ nat (e - ulp_exp x)) * grid x"
      using powi_multiple [OF u] x by simp
    then show ?thesis by (rule round53_grid_multiple)
  qed
qed simp

lemma round53_mantissa:
  assumes "0 < x"
  shows "0 \<le> rne (x / grid x)" "rne (x / grid x) \<le> 2 ^ 53"
proof -
  have "x < 2 powi (rexp x + 1)" by (rule rexp_bounds(2) [OF assms])
  also have "\<dots> \<le> 2 powi (53 + ulp_exp x)"
    using assms by (intro power_int_increasing) (simp_all add: ulp_exp_def)
  finally have "x / grid x \<le> of_int (2 ^ 53)"
    by (simp add: divide_le_eq powi_53)
  then show "rne (x / grid x) \<le> 2 ^ 53" by (rule rne_le_int)
  show "0 \<le> rne (x / grid x)" using assms by (intro rne_ge_int) simp
qed

lemma round53_rep: "\<exists>m e. round53 x = of_int m * 2 powi e \<and> \<bar>m\<bar> \<le> 2 ^ 53 \<and> - 1074 \<le> e"
proof -
  have pos: "\<exists>m. round53 x = of_int m * grid x \<and> \<bar>m\<bar> \<le> 2 ^ 53" if "0 < x" for x
    using round53_mantissa [OF that] that by (auto simp: round53_def intro!: exI)
  consider "x = 0" | "0 < x" | "0 < - x" by linarith
  then show ?thesis
  proof cases
    case 1
    then show ?thesis by (auto intro!: exI [of _ 0])
  next
    case 2
    moreover have "- 1074 \<le> ulp_exp x" by (simp add: ulp_exp_def)
    ultimately show ?thesis using pos by blast
  next
    case 3
    from pos [OF this] obtain m where
      "round53 (- x) = of_int m * grid (- x)" "\<bar>m\<bar> \<le> 2 ^ 53" by blast
    then have "round53 x = of_int (- m) * grid (- x)" "\<bar>- m\<bar> \<le> 2 ^ 53"
      by (simp_all add: round53_minus)
    moreover have "- 1074 \<le> ulp_exp (- x)" by (simp add: ulp_exp_def)
    ultimately show ?thesis by blast
  qed
qed

lemma round53_idem [simp]: "round53 (round53 x) = round53 x"
  using round53_rep [of x] round53_exact by blast

lemma round53_int:
  assumes "\<bar>k\<bar> \<le> 2 ^ 53"
  shows "round53 (of_int k) = of_int k"
  by (rule round53_exact [of _ k 0]) (use assms in auto)

lemma rexp_overflow: "0 < x \<Longrightarrow> rexp x < 1024 \<longleftrightarrow> x < 2 ^ 1024"
proof
  assume "0 < x" "rexp x < 1024"
  then have "(2 :: rat) powi (rexp x + 1) \<le> 2 powi 1024" by (intro power_int_increasing) auto
  then show "x < 2 ^ 1024"
    using rexp_bounds(2) [OF \<open>0 < x\<close>] by (simp only: power_int_numeral)
next
  assume "0 < x" "x < 2 ^ 1024"
  then show "rexp x < 1024" using rexp_less [of x 1024] by (simp only: power_int_numeral)
qed

lemma fl_alt: "fl x = (let v = round53 x in
     if 2 ^ 1024 \<le> v then PInf else if v \<le> - (2 ^ 1024) then MInf else Fin v)"
proof -
  define v B where "v = round53 x" and "B = (2 ^ 1024 :: rat)"
  have B: "0 < B" by (simp add: B_def)
  have "v \<noteq> 0 \<Longrightarrow> rexp \<bar>v\<bar> < 1024 \<longleftrightarrow> \<bar>v\<bar> < B"
    using rexp_overflow [of "\<bar>v\<bar>"] by (simp only: B_def)
  then show ?thesis using B
    unfolding fl_def Let_def v_def [symmetric] B_def [symmetric] by auto
qed

text \<open>The values of type \<open>double\<close>.\<close>

fun wf_double :: "double \<Rightarrow> bool" where
  "wf_double (Fin q) = (round53 q = q \<and> \<bar>q\<bar> < 2 ^ 1024)"
| "wf_double _ = True"

lemma fl_wf [simp]: "wf_double (fl x)"
  by (auto simp: fl_alt Let_def)

lemma fl_exact: "wf_double (Fin q) \<Longrightarrow> fl q = Fin q"
  by (auto simp: fl_alt Let_def)

lemma fl_not_NaN [simp]: "fl x \<noteq> NaN"
  by (simp add: fl_alt Let_def)

lemma fl_mono: "x \<le> y \<Longrightarrow> dle (fl x) (fl y)"
  using round53_mono [of x y] by (auto simp: fl_alt Let_def)

lemma fl_int: "\<bar>k\<bar> \<le> 2 ^ 53 \<Longrightarrow> fl (of_int k) = Fin (of_int k)"
proof -
  assume k: "\<bar>k\<bar> \<le> 2 ^ 53"
  have b: "(2 :: rat) ^ 53 < 2 ^ 1024" by (intro power_strict_increasing) auto
  from k have "\<bar>of_int k :: rat\<bar> \<le> 2 ^ 53" by (metis of_int_abs of_int_le_iff of_int_numeral of_int_power)
  then have "\<bar>of_int k :: rat\<bar> < 2 ^ 1024" using b by linarith
  then show ?thesis by (auto simp: fl_alt Let_def round53_int [OF k])
qed

text \<open>Gradual underflow: every double is a multiple of the least one.\<close>

lemma rep_multiple:
  assumes "round53 q = q"
  shows "\<exists>m. q = of_int m * 2 powi (- 1074)"
proof (cases "q = 0")
  case True
  then show ?thesis by (auto intro!: exI [of _ 0])
next
  case False
  have u: "- 1074 \<le> ulp_exp q" by (simp add: ulp_exp_def)
  define k where "k = rne (q / grid q)"
  from False assms have "q = of_int k * grid q" by (simp add: round53_def k_def)
  then have "q = of_int (k * 2 ^ nat (ulp_exp q - - 1074)) * 2 powi (- 1074)"
    unfolding powi_multiple [OF u] by (simp only: of_int_mult mult.assoc)
  then show ?thesis by blast
qed

lemma dsub_pos:
  assumes "wf_double (Fin a)" "wf_double (Fin b)" "a < b"
  shows "dlt (Fin 0) (dsub (Fin b) (Fin a))"
proof -
  obtain m n where a: "a = of_int m * 2 powi (- 1074)" and b: "b = of_int n * 2 powi (- 1074)"
    using assms rep_multiple by (metis wf_double.simps(1))
  have d: "b - a = of_int (n - m) * 2 powi (- 1074)" by (simp only: a b of_int_diff left_diff_distrib)
  moreover have "0 < b - a" using assms by simp
  ultimately have "0 < n - m" by (simp only: zero_less_mult_iff of_int_0_less_iff) auto
  then have "(1 :: rat) \<le> of_int (n - m)" by linarith
  then have "2 powi (- 1074) \<le> b - a" unfolding d using mult_right_mono [of 1 "of_int (n - m)"]
    by simp
  then have "round53 (2 powi (- 1074)) \<le> round53 (b - a)" by (rule round53_mono)
  moreover have "round53 (2 powi (- 1074)) = 2 powi (- 1074)" by (rule round53_exact [of _ 1]) auto
  ultimately have "0 < round53 (b - a)" using grid_pos [of "- 1074"] by linarith
  then show ?thesis by (auto simp: dsub_def fl_alt Let_def)
qed

section \<open>The laws the clients use\<close>

lemma dle_refl [simp]: "dle x x \<longleftrightarrow> x \<noteq> NaN"
  by (cases x) simp_all

lemma dle_trans: "dle x y \<Longrightarrow> dle y z \<Longrightarrow> dle x z"
  by (cases x; cases y; cases z) simp_all

lemma dle_PInf_iff [simp]: "dle x PInf \<longleftrightarrow> x \<noteq> NaN"
  by (cases x) simp_all

lemma dlt_dle: "dlt x y \<Longrightarrow> dle x y"
  by (cases x; cases y) simp_all

lemma dlt_not_dle: "dlt x y \<Longrightarrow> \<not> dle y x"
  by (cases x; cases y) simp_all

lemma not_dlt_dle: "x \<noteq> NaN \<Longrightarrow> y \<noteq> NaN \<Longrightarrow> \<not> dlt x y \<longleftrightarrow> dle y x"
  by (cases x; cases y) auto

lemma dlt_dle_trans: "dlt x y \<Longrightarrow> dle y z \<Longrightarrow> dlt x z"
  by (cases x; cases y; cases z) simp_all

lemma dle_dlt_trans: "dle x y \<Longrightarrow> dlt y z \<Longrightarrow> dlt x z"
  by (cases x; cases y; cases z) simp_all

text \<open>
  A correct rounding function, as the components that compute with \<open>double\<close> rely on it:
  monotone, and exact on the values of the type.
\<close>

locale rounding =
  fixes rnd :: "rat \<Rightarrow> double"
  assumes rnd_mono: "x \<le> y \<Longrightarrow> dle (rnd x) (rnd y)"
    and rnd_exact: "wf_double (Fin x) \<Longrightarrow> rnd x = Fin x"
begin

lemma rnd_between:
  assumes "wf_double (Fin k)" "wf_double (Fin l)" "k \<le> x" "x \<le> l"
  shows "\<exists>v. rnd x = Fin v \<and> k \<le> v \<and> v \<le> l"
proof -
  have "dle (Fin k) (rnd x)" "dle (rnd x) (Fin l)"
    using assms rnd_mono [of k x] rnd_mono [of x l] by (simp_all add: rnd_exact del: wf_double.simps)
  then show ?thesis by (cases "rnd x") auto
qed

lemma rnd_ge: "wf_double (Fin k) \<Longrightarrow> k \<le> x \<Longrightarrow> dle (Fin k) (rnd x)"
  using rnd_mono [of k x] by (simp add: rnd_exact del: wf_double.simps)

lemma rnd_le: "wf_double (Fin k) \<Longrightarrow> x \<le> k \<Longrightarrow> dle (rnd x) (Fin k)"
  using rnd_mono [of x k] by (simp add: rnd_exact del: wf_double.simps)

end

interpretation ieee: rounding fl
  by unfold_locales (auto simp: fl_mono fl_exact simp del: wf_double.simps)

lemma wf_int: "\<bar>k\<bar> \<le> 2 ^ 53 \<Longrightarrow> wf_double (Fin (of_int k))"
  using fl_wf [of "of_int k"] by (simp add: fl_int)

lemma wf_pow2: "n < 1024 \<Longrightarrow> wf_double (Fin (2 ^ n))" "n < 1024 \<Longrightarrow> wf_double (Fin (- (2 ^ n)))"
proof -
  assume n: "n < 1024"
  then have "(2 :: rat) ^ n < 2 ^ 1024" by (intro power_strict_increasing) auto
  moreover have "round53 (2 ^ n) = 2 ^ n"
    by (rule round53_exact [of _ 1 "int n"]) (simp_all add: power_int_def)
  ultimately show "wf_double (Fin (2 ^ n))" "wf_double (Fin (- (2 ^ n)))"
    by (simp_all only: wf_double.simps round53_minus abs_minus_cancel abs_power2) (simp_all add: abs_of_pos)
qed

lemma wf_zero [simp]: "wf_double (Fin 0)"
  by simp

lemma dint_exact: "\<bar>k\<bar> \<le> 2 ^ 53 \<Longrightarrow> dint k = Fin (of_int k)"
  by (simp add: dint_def fl_int)

lemma wf_inf_sign [simp]: "wf_double (inf_sign a)"
  by (simp add: inf_sign_def)

text \<open>Every operation yields a value of the type.\<close>

lemma wf_ops [simp]:
  "wf_double (dadd x y)" "wf_double (dmul x y)" "wf_double (dint k)"
  by (cases x; cases y; simp del: wf_double.simps add: dint_def; simp)+

lemma wf_dsub [simp]: "wf_double (dsub x y)"
  by (simp add: dsub_def)

lemma wf_ddiv [simp]: "wf_double (ddiv x y)"
  by (cases x; cases y) (simp_all del: wf_double.simps(1) add: wf_zero)

end
