(* ===== verification/Text.thy ===== *)
theory Text
  imports Double
begin

text \<open>
  The text the program prints. C strings are lists of characters without the final NUL.
  The conversions of \<open>printf\<close> that the program uses are functions here: \<open>%d\<close>, \<open>%u\<close>, \<open>%zd\<close> and
  \<open>%zu\<close> are \<open>dec\<close>, \<open>%04x\<close> is \<open>hex4\<close>, \<open>%.3f\<close> is \<open>fmt_f3\<close> (which, as in glibc, prints the exact
  value rounded to nearest, ties to even), and \<open>inet_ntop\<close> on an IPv4 address is
  \<open>dotted_quad\<close>.
\<close>

definition digit_char :: "int \<Rightarrow> char" where
  "digit_char d = char_of (48 + d)"

function digits10 :: "int \<Rightarrow> string" where
  "digits10 n = (if n < 10 then [digit_char n] else digits10 (n div 10) @ [digit_char (n mod 10)])"
  by pat_completeness auto
termination
  by (relation "measure nat") auto

declare digits10.simps [simp del]

definition dec :: "int \<Rightarrow> string" where
  "dec n = (if n < 0 then CHR ''-'' # digits10 (- n) else digits10 n)"

definition hex_digit :: "int \<Rightarrow> char" where
  "hex_digit d = (if d < 10 then char_of (48 + d) else char_of (87 + d))"

text \<open>\<open>%04x\<close> of a 16-bit value.\<close>

definition hex4 :: "u16 \<Rightarrow> string" where
  "hex4 w = (let n = uint w in
     [hex_digit (n div 4096), hex_digit (n div 256 mod 16),
      hex_digit (n div 16 mod 16), hex_digit (n mod 16)])"

definition pad3 :: "int \<Rightarrow> string" where
  "pad3 n = [digit_char (n div 100), digit_char (n div 10 mod 10), digit_char (n mod 10)]"

fun fmt_f3 :: "double \<Rightarrow> string" where
  "fmt_f3 (Fin q) = (let n = rne (\<bar>q\<bar> * 1000) in
     (if q < 0 then ''-'' else '''') @ dec (n div 1000) @ ''.'' @ pad3 (n mod 1000))"
| "fmt_f3 PInf = ''inf''"
| "fmt_f3 MInf = ''-inf''"
| "fmt_f3 NaN = ''nan''"

text \<open>An IPv4 address is its four bytes in network order.\<close>

type_synonym ipv4 = "byte \<times> byte \<times> byte \<times> byte"

fun dotted_quad :: "ipv4 \<Rightarrow> string" where
  "dotted_quad (a, b, c, d) =
     dec (uint a) @ ''.'' @ dec (uint b) @ ''.'' @ dec (uint c) @ ''.'' @ dec (uint d)"

lemma digit_char_code: "0 \<le> d \<Longrightarrow> d \<le> 9 \<Longrightarrow> of_char (digit_char d) = (48 + d :: int)"
  by (simp add: digit_char_def)

section \<open>Reading decimal text back\<close>

definition undec :: "string \<Rightarrow> int" where
  "undec s = foldl (\<lambda>acc c. 10 * acc + (of_char c - 48)) 0 s"

definition is_digit :: "char \<Rightarrow> bool" where
  "is_digit c = (let k = of_char c :: int in 48 \<le> k \<and> k \<le> 57)"

lemma undec_snoc: "undec (s @ [c]) = 10 * undec s + (of_char c - 48)"
  by (simp add: undec_def)

lemma is_digit_char: "0 \<le> d \<Longrightarrow> d \<le> 9 \<Longrightarrow> is_digit (digit_char d)"
  by (simp add: is_digit_def digit_char_code Let_def)

lemma digits10_digits: "0 \<le> n \<Longrightarrow> \<forall>c \<in> set (digits10 n). is_digit c"
proof (induction n rule: digits10.induct)
  case (1 n)
  then show ?case by (subst digits10.simps) (auto simp: is_digit_char)
qed

lemma undec_digits10: "0 \<le> n \<Longrightarrow> undec (digits10 n) = n"
proof (induction n rule: digits10.induct)
  case (1 n)
  show ?case
  proof (cases "n < 10")
    case True
    with "1.prems" show ?thesis
      by (simp add: digits10.simps [of n] undec_def digit_char_code)
  next
    case False
    then have "undec (digits10 (n div 10)) = n div 10" using "1.IH" by simp
    with False show ?thesis
      by (simp add: digits10.simps [of n] undec_snoc digit_char_code)
  qed
qed

lemma undec_dec: "0 \<le> n \<Longrightarrow> undec (dec n) = n"
  by (simp add: dec_def undec_digits10)

lemma dec_inj: "0 \<le> m \<Longrightarrow> 0 \<le> n \<Longrightarrow> dec m = dec n \<longleftrightarrow> m = n"
  by (metis undec_dec)

lemma digits10_nonempty [simp]: "digits10 n \<noteq> []"
  by (subst digits10.simps) simp

lemma dec_digits: "0 \<le> n \<Longrightarrow> c \<in> set (dec n) \<Longrightarrow> is_digit c"
  using digits10_digits [of n] by (simp add: dec_def)

text \<open>A number up to the next dot determines itself and what follows the dot.\<close>

lemma dec_dot_inj:
  assumes "dec m @ ''.'' @ s = dec n @ ''.'' @ t" "0 \<le> m" "0 \<le> n"
  shows "m = n \<and> s = t"
proof -
  have nd: "\<not> is_digit (CHR ''.'')" by (simp add: is_digit_def)
  have *: "takeWhile is_digit (dec k @ ''.'' @ u) = dec k" if "0 \<le> k" for k u
    using dec_digits [OF that] nd by (subst takeWhile_append2) auto
  from assms * have "dec m = dec n" by metis
  then show ?thesis using assms dec_inj by auto
qed

lemma dotted_quad_inj: "dotted_quad x = dotted_quad y \<Longrightarrow> x = y"
proof -
  assume eq: "dotted_quad x = dotted_quad y"
  obtain a b c d where x: "x = (a, b, c, d)" by (cases x)
  obtain a' b' c' d' where y: "y = (a', b', c', d')" by (cases y)
  have 1: "uint a = uint a' \<and> dec (uint b) @ ''.'' @ dec (uint c) @ ''.'' @ dec (uint d)
     = dec (uint b') @ ''.'' @ dec (uint c') @ ''.'' @ dec (uint d')"
    using eq by (intro dec_dot_inj) (simp_all add: x y)
  then have 2: "uint b = uint b' \<and> dec (uint c) @ ''.'' @ dec (uint d)
     = dec (uint c') @ ''.'' @ dec (uint d')"
    by (intro dec_dot_inj) simp_all
  then have 3: "uint c = uint c' \<and> dec (uint d) = dec (uint d')"
    by (intro dec_dot_inj) simp_all
  then have "uint d = uint d'" by (simp add: dec_inj)
  with 1 2 3 show ?thesis by (auto simp: x y intro: word_uint_eqI)
qed

end
