(* ===== verification/Libc_Num.thy ===== *)
theory Libc_Num
  imports Text
begin

text \<open>
  The number parsers of the C library as the command line uses them: \<open>strtol\<close> with bases 10
  and 16 and \<open>strtod\<close>, in the C locale, as specified by ISO C (7.22.1) with glibc's choices
  where the standard leaves one (a range error on underflow exactly when the tiny result is
  inexact). Each returns the value, the unconverted rest of the string (what \<open>endptr\<close>
  points at; the whole string when nothing was converted) and whether \<open>errno\<close> was set to
  \<open>ERANGE\<close>.
\<close>

definition LONG_MAX :: int where "LONG_MAX = 9223372036854775807"
definition LONG_MIN :: int where "LONG_MIN = - 9223372036854775808"

definition c_isspace :: "char \<Rightarrow> bool" where
  "c_isspace c = (let k = of_char c :: int in k = 32 \<or> (9 \<le> k \<and> k \<le> 13))"

definition c_tolower :: "char \<Rightarrow> char" where
  "c_tolower c = (let k = of_char c :: int in if 65 \<le> k \<and> k \<le> 90 then char_of (k + 32) else c)"

fun digit_val :: "char \<Rightarrow> int option" where
  "digit_val c = (let k = of_char (c_tolower c) :: int in
     if 48 \<le> k \<and> k \<le> 57 then Some (k - 48)
     else if 97 \<le> k \<and> k \<le> 122 then Some (k - 87) else None)"

definition is_base_digit :: "int \<Rightarrow> char \<Rightarrow> bool" where
  "is_base_digit b c = (case digit_val c of None \<Rightarrow> False | Some v \<Rightarrow> v < b)"

abbreviation c_isxdigit :: "char \<Rightarrow> bool" where
  "c_isxdigit \<equiv> is_base_digit 16"

definition digits_value :: "int \<Rightarrow> string \<Rightarrow> int" where
  "digits_value b ds =
     foldl (\<lambda>acc c. b * acc + (case digit_val c of None \<Rightarrow> 0 | Some v \<Rightarrow> v)) 0 ds"

fun strip_sign :: "string \<Rightarrow> bool \<times> string" where
  "strip_sign (c # s) = (if c = CHR ''-'' then (True, s) else if c = CHR ''+'' then (False, s)
     else (False, c # s))"
| "strip_sign [] = (False, [])"

fun hex_prefix :: "string \<Rightarrow> bool" where
  "hex_prefix (z # x # s) = (z = CHR ''0'' \<and> c_tolower x = CHR ''x'')"
| "hex_prefix _ = False"

definition starts_hex :: "string \<Rightarrow> bool" where
  "starts_hex s = (case s of [] \<Rightarrow> False | c # _ \<Rightarrow> c_isxdigit c)"

definition strtol :: "string \<Rightarrow> int \<Rightarrow> int \<times> string \<times> bool" where
  "strtol s b =
     (let (neg, s1) = strip_sign (dropWhile c_isspace s);
          s2 = (if b = 16 \<and> hex_prefix s1 \<and> starts_hex (drop 2 s1) then drop 2 s1 else s1);
          ds = takeWhile (is_base_digit b) s2;
          rest = dropWhile (is_base_digit b) s2;
          v = (if neg then - digits_value b ds else digits_value b ds)
      in if ds = [] then (0, s, False)
         else if LONG_MAX < v then (LONG_MAX, rest, True)
         else if v < LONG_MIN then (LONG_MIN, rest, True)
         else (v, rest, False))"

section \<open>\<open>strtod\<close>\<close>

text \<open>Rounding with unbounded exponent, to tell whether a result is below the normal range.\<close>

definition round53_unbounded :: "rat \<Rightarrow> rat" where
  "round53_unbounded x = (let g = 2 powi (rexp \<bar>x\<bar> - 52) in of_int (rne (x / g)) * g)"

definition range_error :: "rat \<Rightarrow> bool" where
  "range_error x = (x \<noteq> 0 \<and>
     (case fl x of Fin v \<Rightarrow> v \<noteq> x \<and> rexp \<bar>round53_unbounded x\<bar> < - 1022 | _ \<Rightarrow> True))"

text \<open>The optional exponent of a floating constant: its value and what follows it.\<close>

definition parse_exponent :: "char \<Rightarrow> string \<Rightarrow> int \<times> string" where
  "parse_exponent mark s = (case s of [] \<Rightarrow> (0, s) | c # s1 \<Rightarrow>
     if c_tolower c \<noteq> mark then (0, s)
     else (let (neg, s2) = strip_sign s1; ds = takeWhile is_digit s2; v = digits_value 10 ds
           in if ds = [] then (0, s) else (if neg then - v else v, dropWhile is_digit s2)))"

text \<open>Digits, an optional point and more digits: the digits, how many follow the point, the rest.\<close>

definition parse_mantissa :: "int \<Rightarrow> string \<Rightarrow> string \<times> nat \<times> string" where
  "parse_mantissa b s =
     (let ip = takeWhile (is_base_digit b) s; r = dropWhile (is_base_digit b) s
      in case r of [] \<Rightarrow> (ip, 0, r) | c # r1 \<Rightarrow>
           if c \<noteq> CHR ''.'' then (ip, 0, r)
           else (let fp = takeWhile (is_base_digit b) r1
                 in if ip = [] \<and> fp = [] then ([], 0, s)
                    else (ip @ fp, length fp, dropWhile (is_base_digit b) r1)))"

definition nan_tail :: "string \<Rightarrow> string" where
  "nan_tail s = (case s of [] \<Rightarrow> s | c # s1 \<Rightarrow>
     if c \<noteq> CHR ''('' then s
     else (case dropWhile (\<lambda>c. digit_val c \<noteq> None \<or> c = CHR ''_'') s1 of
             [] \<Rightarrow> s | d # s2 \<Rightarrow> if d = CHR '')'' then s2 else s))"

definition strtod :: "string \<Rightarrow> double \<times> string \<times> bool" where
  "strtod s =
     (let (neg, s1) = strip_sign (dropWhile c_isspace s);
          low = map c_tolower s1;
          sg = (\<lambda>x. if neg then - x else x :: rat)
      in if take 8 low = ''infinity'' then (if neg then MInf else PInf, drop 8 s1, False)
         else if take 3 low = ''inf'' then (if neg then MInf else PInf, drop 3 s1, False)
         else if take 3 low = ''nan'' then (NaN, nan_tail (drop 3 s1), False)
         else (let (hds, hn, hr) = parse_mantissa 16 (drop 2 s1) in
           if hex_prefix s1 \<and> hds \<noteq> []
           then (let (e, r) = parse_exponent (CHR ''p'') hr;
                     x = sg (of_int (digits_value 16 hds) * 2 powi (e - 4 * int hn))
                 in (fl x, r, range_error x))
           else (let (ds, n, r0) = parse_mantissa 10 s1 in
             if ds = [] then (Fin 0, s, False)
             else (let (e, r) = parse_exponent (CHR ''e'') r0;
                       x = sg (of_int (digits_value 10 ds) * 10 powi (e - int n))
                   in (fl x, r, range_error x)))))"

section \<open>\<open>strtol\<close> reads decimal text back\<close>

lemma digit_val_digit: "is_digit c \<Longrightarrow> digit_val c = Some (of_char c - 48)"
  by (auto simp: is_digit_def Let_def c_tolower_def)

lemma base_digit_10: "is_base_digit 10 c \<longleftrightarrow> is_digit c"
  by (auto simp: is_base_digit_def is_digit_def Let_def c_tolower_def split: if_splits)

lemma digits_value_undec: "\<forall>c \<in> set ds. is_digit c \<Longrightarrow> digits_value 10 ds = undec ds"
  by (induction ds rule: rev_induct)
    (auto simp: digits_value_def undec_def digit_val_digit simp del: digit_val.simps)

lemma is_digit_not_special: "is_digit c \<Longrightarrow> \<not> c_isspace c \<and> c \<noteq> CHR ''-'' \<and> c \<noteq> CHR ''+''"
  by (auto simp: is_digit_def c_isspace_def Let_def)

lemma strtol_dec:
  assumes "LONG_MIN \<le> n" "n \<le> LONG_MAX"
  shows "strtol (dec n) 10 = (n, [], False)"
proof -
  define m where "m = \<bar>n\<bar>"
  then have m: "0 \<le> m" "n = (if n < 0 then - m else m)" by auto
  have dig: "\<forall>c \<in> set (digits10 m). is_digit c" using m by (intro digits10_digits)
  then have tw: "takeWhile (is_base_digit 10) (digits10 m) = digits10 m"
    "dropWhile (is_base_digit 10) (digits10 m) = []"
    unfolding takeWhile_eq_all_conv dropWhile_eq_Nil_conv by (auto simp: base_digit_10)
  have v: "digits_value 10 (digits10 m) = m"
    using m by (simp add: digits_value_undec [OF dig] undec_digits10)
  have hd: "is_digit (hd (digits10 m))" using dig digits10_nonempty [of m] by (meson hd_in_set)
  have ss: "strip_sign (dropWhile c_isspace (dec n)) = (n < 0, digits10 m)"
  proof -
    have d: "dec n = (if n < 0 then CHR ''-'' # digits10 m else digits10 m)"
      by (simp add: dec_def m_def)
    have m1: "\<not> c_isspace (CHR ''-'')" by (simp add: c_isspace_def)
    obtain c s where cs: "digits10 m = c # s" using digits10_nonempty [of m] by (cases "digits10 m") auto
    show ?thesis using is_digit_not_special [OF hd] m1 by (simp add: d cs)
  qed
  show ?thesis
    using assms m(2) unfolding strtol_def ss by (simp add: tw v Let_def split: if_splits)
qed

end
