(* ===== verification/Ping_Types.thy ===== *)
theory Ping_Types
  imports Libc_Num
begin

text \<open>
  The vocabulary of the program (\<open>include/ping_types.h\<close>, \<open>t_sched\<close> of
  \<open>include/ping_core.h\<close>) and the state the program runs in: the operating system as a
  script of answers, and the visible effects as a list of events.

  A C flag is a \<open>bool\<close>, an \<open>int\<close> value an \<open>int\<close>, a buffer a list of bytes, a pointer that can
  be \<open>NULL\<close> an option. A \<open>t_icmp_hdr\<close> has no record of its own: the program only ever
  overlays it on a byte buffer, so its fields are the offsets below.
\<close>

section \<open>Tunables\<close>

definition PING_PAYLOAD_SIZE :: nat where "PING_PAYLOAD_SIZE = 56"
definition PING_INTERVAL_SEC :: double where "PING_INTERVAL_SEC = Fin 1"
definition PING_FLOOD_INTERVAL_MS :: double where "PING_FLOOD_INTERVAL_MS = Fin 10"
definition PING_TS_RING :: nat where "PING_TS_RING = 65536"
definition PING_POLL_MAX_MS :: double where "PING_POLL_MAX_MS = Fin 3600000"
definition PING_RECVBUF_MIN :: nat where "PING_RECVBUF_MIN = 1024"
definition PING_RECVBUF_SLACK :: nat where "PING_RECVBUF_SLACK = 128"
definition PING_PATTERN_MAX :: nat where "PING_PATTERN_MAX = 16"

lemmas tunables = PING_PAYLOAD_SIZE_def PING_INTERVAL_SEC_def PING_FLOOD_INTERVAL_MS_def
  PING_TS_RING_def PING_POLL_MAX_MS_def PING_RECVBUF_MIN_def PING_RECVBUF_SLACK_def
  PING_PATTERN_MAX_def

section \<open>Wire format\<close>

text \<open>The offsets of the members of \<open>t_icmp_hdr\<close>, and its size.\<close>

definition hdr_type :: nat where "hdr_type = 0"
definition hdr_code :: nat where "hdr_code = 1"
definition hdr_checksum :: nat where "hdr_checksum = 2"
definition hdr_id :: nat where "hdr_id = 4"
definition hdr_sequence :: nat where "hdr_sequence = 6"
definition sizeof_icmp_hdr :: nat where "sizeof_icmp_hdr = 8"

lemmas icmp_layout = hdr_type_def hdr_code_def hdr_checksum_def hdr_id_def hdr_sequence_def
  sizeof_icmp_hdr_def

section \<open>Runtime state\<close>

record timespec =
  tv_sec :: int
  tv_nsec :: int

record t_ping_stats =
  n_sent :: int
  n_recv :: int
  sum_rtt :: double
  sum_sq :: double
  rtt_min :: double
  rtt_max :: double

record t_flags =
  flood :: bool
  bsd_flood :: bool
  has_preload :: bool
  preload :: int
  has_interval :: bool
  interval :: double
  has_ttl :: bool
  ttl :: int
  exit_on_reply :: bool
  quiet_errors :: bool
  quiet :: bool
  bypass_routing :: bool
  has_pattern :: bool
  pattern :: "byte list"
  pattern_len :: int
  has_source_addr :: bool
  source_addr :: string
  has_packet_size :: bool
  packet_size :: int
  has_multicast_ttl :: bool
  multicast_ttl :: int
  has_timeout :: bool
  timeout :: int
  verbose :: bool
  host :: string

text \<open>
  \<open>ctx->send_ts\<close> is an array of \<open>PING_TS_RING\<close> slots; the model is a function on the index,
  read and written only at indices below the size (\<open>ring_get\<close>, \<open>ring_put\<close> of the send
  path).
\<close>

record t_ping_ctx =
  flags :: t_flags
  dst :: ipv4
  ipstr :: string
  ctx_id :: u16
  pkt :: "byte list option"
  payload_len :: nat
  send_ts :: "(nat \<Rightarrow> timespec) option"
  recvbuf :: "byte list option"
  recvbuf_len :: nat

record t_sched =
  s_interval :: double
  deadline :: double
  last_send :: double
  seq :: u16

text \<open>Zeroed structs, as \<open>memset\<close> and \<open>calloc\<close> leave them.\<close>

definition zero_ts :: timespec where
  "zero_ts = \<lparr>tv_sec = 0, tv_nsec = 0\<rparr>"

definition zero_stats :: t_ping_stats where
  "zero_stats = \<lparr>n_sent = 0, n_recv = 0, sum_rtt = Fin 0, sum_sq = Fin 0,
     rtt_min = Fin 0, rtt_max = Fin 0\<rparr>"

definition zero_flags :: t_flags where
  "zero_flags = \<lparr>flood = False, bsd_flood = False, has_preload = False, preload = 0,
     has_interval = False, interval = Fin 0, has_ttl = False, ttl = 0,
     exit_on_reply = False, quiet_errors = False, quiet = False, bypass_routing = False,
     has_pattern = False, pattern = replicate 16 0, pattern_len = 0,
     has_source_addr = False, source_addr = [], has_packet_size = False, packet_size = 0,
     has_multicast_ttl = False, multicast_ttl = 0, has_timeout = False, timeout = 0,
     verbose = False, host = []\<rparr>"

definition zero_ctx :: t_ping_ctx where
  "zero_ctx = \<lparr>flags = zero_flags, dst = (0, 0, 0, 0), ipstr = [], ctx_id = 0, pkt = None,
     payload_len = 0, send_ts = None, recvbuf = None, recvbuf_len = 0\<rparr>"

section \<open>The operating system\<close>

text \<open>
  The kernel and the resolver are not part of the program: their answers are parameters.
  Calls the program repeats are numbered, and the answer to the k-th one is a function of
  k, so every interleaving of clock readings, arriving packets and signals is some
  \<open>os\<close>. \<open>os_sigint k\<close> says that SIGINT was delivered before the k-th test of the stop flag
  and after the one before it. \<open>os_posixly_correct\<close> says whether the environment sets
  \<open>POSIXLY_CORRECT\<close>.
\<close>

datatype errno = EAGAIN | EWOULDBLOCK | EINTR | EOTHER string

datatype poll_result = PollError errno | PollTimeout | PollReadable

datatype recv_result = RecvError errno | RecvData "byte list"

datatype gai_result = GaiError string | GaiOk ipv4

datatype sockopt = IP_TTL int | IP_MULTICAST_TTL int | SO_DONTROUTE int

record os =
  os_endian :: endian
  os_clock :: "nat \<Rightarrow> timespec"
  os_sigint :: "nat \<Rightarrow> bool"
  os_poll :: "nat \<Rightarrow> poll_result"
  os_recv :: "nat \<Rightarrow> recv_result"
  os_send :: "nat \<Rightarrow> errno option"
  os_getaddrinfo :: "string \<Rightarrow> gai_result"
  os_geteuid :: int
  os_posixly_correct :: bool
  os_getpid :: int
  os_socket :: "errno option"
  os_setsockopt :: "sockopt \<Rightarrow> errno option"
  os_bind :: "ipv4 \<Rightarrow> errno option"
  os_sigaction :: "errno option"
  os_malloc :: "nat \<Rightarrow> byte list option"
  os_calloc :: bool

text \<open>
  What an observer of the process sees. \<open>Perror\<close> is a \<open>perror\<close> call: the prefix and the
  error whose text follows it.
\<close>

datatype event =
    Stdout string
  | Stderr string
  | Perror string errno
  | Sendto "byte list" ipv4
  | Sendto6 "byte list" "byte list"
  | Setsockopt sockopt
  | Bind ipv4
  | Close

text \<open>The process: how many calls of each kind were made, the stop flag, the events so far.\<close>

record world =
  env :: os
  k_clock :: nat
  k_sigint :: nat
  k_poll :: nat
  k_recv :: nat
  k_send :: nat
  g_stop :: bool
  events :: "event list"

definition boot :: "os \<Rightarrow> world" where
  "boot e = \<lparr>env = e, k_clock = 0, k_sigint = 0, k_poll = 0, k_recv = 0, k_send = 0,
     g_stop = False, events = []\<rparr>"

definition emit :: "event \<Rightarrow> world \<Rightarrow> world" where
  "emit ev w = w\<lparr>events := events w @ [ev]\<rparr>"

definition clock_gettime :: "world \<Rightarrow> timespec \<times> world" where
  "clock_gettime w = (os_clock (env w) (k_clock w), w\<lparr>k_clock := k_clock w + 1\<rparr>)"

abbreviation host_endian :: "world \<Rightarrow> endian" where
  "host_endian w \<equiv> os_endian (env w)"

lemma emit_simps [simp]:
  "env (emit ev w) = env w" "k_clock (emit ev w) = k_clock w" "k_sigint (emit ev w) = k_sigint w"
  "k_poll (emit ev w) = k_poll w" "k_recv (emit ev w) = k_recv w" "k_send (emit ev w) = k_send w"
  "g_stop (emit ev w) = g_stop w" "events (emit ev w) = events w @ [ev]"
  by (simp_all add: emit_def)

text \<open>Two states of the process that differ at most in what was printed.\<close>

definition same_kernel :: "world \<Rightarrow> world \<Rightarrow> bool" where
  "same_kernel w w' \<longleftrightarrow> w'\<lparr>events := []\<rparr> = w\<lparr>events := []\<rparr>"

lemma same_kernel_refl [simp]: "same_kernel w w"
  by (simp add: same_kernel_def)

lemma same_kernel_trans: "same_kernel u v \<Longrightarrow> same_kernel v w \<Longrightarrow> same_kernel u w"
  by (simp add: same_kernel_def)

lemma same_kernel_emit [simp]: "same_kernel w (emit ev w') = same_kernel w w'"
  "same_kernel (emit ev w) w' = same_kernel w w'"
  by (simp_all add: same_kernel_def emit_def)

lemma same_kernelD:
  "same_kernel w w' \<Longrightarrow> env w' = env w" "same_kernel w w' \<Longrightarrow> k_clock w' = k_clock w"
  "same_kernel w w' \<Longrightarrow> k_sigint w' = k_sigint w" "same_kernel w w' \<Longrightarrow> k_poll w' = k_poll w"
  "same_kernel w w' \<Longrightarrow> k_recv w' = k_recv w" "same_kernel w w' \<Longrightarrow> k_send w' = k_send w"
  "same_kernel w w' \<Longrightarrow> g_stop w' = g_stop w"
  by (cases w; cases w'; simp add: same_kernel_def)+

end
