(* ===== verification/Ping_Time.thy ===== *)
theory Ping_Time
  imports Ping_Types
begin

text \<open>
  \<open>src/utils/ping_time.c\<close> and \<open>ping_error.c\<close>: the clock helpers and the fatal exit. The
  theory shows that a reading of a monotonic clock stays monotonic through the conversion
  to \<open>double\<close>, that an elapsed time has the sign of the order of its readings, and that the
  timeout handed to \<open>poll\<close> is always a valid, never premature-zero wait.
\<close>

section \<open>Operations\<close>

definition timespec_ns :: "timespec \<Rightarrow> int" where
  "timespec_ns t = tv_sec t * 1000000000 + tv_nsec t"

definition elapsed_ms :: "timespec \<Rightarrow> timespec \<Rightarrow> double" where
  "elapsed_ms start finish =
     (let start_ns = timespec_ns start; end_ns = timespec_ns finish
      in ddiv (dint (end_ns - start_ns)) (Fin 1000000))"

definition ts_ms :: "timespec \<Rightarrow> double" where
  "ts_ms t = dadd (dmul (dint (tv_sec t)) (Fin 1000)) (ddiv (dint (tv_nsec t)) (Fin 1000000))"

definition now_ms :: "world \<Rightarrow> double \<times> world" where
  "now_ms w = (let (t, w') = clock_gettime w in (ts_ms t, w'))"

text \<open>
  The conversion of a \<open>double\<close> to \<open>int\<close>: truncation, undefined (\<open>None\<close>) when the value does
  not fit. \<open>dceil\<close> is the C function \<open>ceil\<close>.
\<close>

fun dceil :: "double \<Rightarrow> double" where
  "dceil (Fin q) = Fin (of_int \<lceil>q\<rceil>)"
| "dceil x = x"

fun int_of_double :: "double \<Rightarrow> int option" where
  "int_of_double (Fin q) =
     (let k = (if 0 \<le> q then \<lfloor>q\<rfloor> else \<lceil>q\<rceil>)
      in if - 2147483648 \<le> k \<and> k < 2147483648 then Some k else None)"
| "int_of_double _ = None"

definition ms_until :: "double \<Rightarrow> double \<Rightarrow> int option" where
  "ms_until target now =
     (let d = dsub target now in
      if dlt d (Fin 0) then Some 0
      else if dlt PING_POLL_MAX_MS d then int_of_double PING_POLL_MAX_MS
      else int_of_double (dceil d))"

text \<open>\<open>fatal_error\<close>: the message on file descriptor 2 and exit status 1.\<close>

definition fatal_error :: "string \<Rightarrow> world \<Rightarrow> int \<times> world" where
  "fatal_error msg w = (1, emit (Stderr (msg @ [CHR 0x0A])) w)"

section \<open>Elapsed time\<close>

text \<open>A reading of the clock: what the kernel guarantees of a \<open>timespec\<close>.\<close>

definition valid_ts :: "timespec \<Rightarrow> bool" where
  "valid_ts t \<longleftrightarrow> 0 \<le> tv_sec t \<and> tv_sec t < 8589934592 \<and> 0 \<le> tv_nsec t \<and> tv_nsec t < 1000000000"

definition ts_le :: "timespec \<Rightarrow> timespec \<Rightarrow> bool" where
  "ts_le a b \<longleftrightarrow> timespec_ns a \<le> timespec_ns b"

lemma valid_ts_ns: "valid_ts t \<Longrightarrow> 0 \<le> timespec_ns t \<and> timespec_ns t < 2 ^ 63"
  by (simp add: valid_ts_def timespec_ns_def)

lemma dint_mono: "a \<le> b \<Longrightarrow> dle (dint a) (dint b)"
  by (simp add: dint_def fl_mono)

lemma dint_63: "\<bar>k\<bar> \<le> 2 ^ 63 \<Longrightarrow> \<exists>v. dint k = Fin v \<and> - (2 ^ 63) \<le> v \<and> v \<le> 2 ^ 63"
proof -
  assume "\<bar>k\<bar> \<le> 2 ^ 63"
  then have "- (2 ^ 63) \<le> k" "k \<le> 2 ^ 63" by linarith+
  then have "(of_int (- (2 ^ 63)) :: rat) \<le> of_int k" "(of_int k :: rat) \<le> of_int (2 ^ 63)"
    by (simp_all only: of_int_le_iff)
  then have b: "- (2 ^ 63) \<le> (of_int k :: rat)" "(of_int k :: rat) \<le> 2 ^ 63" by simp_all
  show ?thesis unfolding dint_def by (rule ieee.rnd_between [OF wf_pow2(2) wf_pow2(1) b]) simp_all
qed

lemma elapsed_finite:
  assumes "\<bar>timespec_ns b - timespec_ns a\<bar> \<le> 2 ^ 63"
  shows "\<exists>v. elapsed_ms a b = Fin v \<and> \<bar>v\<bar> \<le> 2 ^ 63"
proof -
  obtain v where v: "dint (timespec_ns b - timespec_ns a) = Fin v" "- (2 ^ 63) \<le> v" "v \<le> 2 ^ 63"
    using dint_63 [OF assms] by blast
  have b: "- (2 ^ 63) \<le> v / 1000000" "v / 1000000 \<le> 2 ^ 63" using v by simp_all
  obtain u where "fl (v / 1000000) = Fin u" "- (2 ^ 63) \<le> u" "u \<le> 2 ^ 63"
    using ieee.rnd_between [OF wf_pow2(2) wf_pow2(1) b] by auto
  then show ?thesis by (auto simp: elapsed_ms_def Let_def v(1))
qed

lemma fl_div_mono: "dle (Fin a) (Fin b) \<Longrightarrow> 0 < c \<Longrightarrow> dle (ddiv (Fin a) (Fin c)) (ddiv (Fin b) (Fin c))"
  by (simp add: fl_mono divide_right_mono)

text \<open>A later end reading gives a longer time, in \<open>double\<close> arithmetic.\<close>

lemma elapsed_mono:
  assumes "timespec_ns b \<le> timespec_ns c"
    and "\<bar>timespec_ns b - timespec_ns a\<bar> \<le> 2 ^ 63" "\<bar>timespec_ns c - timespec_ns a\<bar> \<le> 2 ^ 63"
  shows "dle (elapsed_ms a b) (elapsed_ms a c)"
proof -
  obtain u v where uv: "dint (timespec_ns b - timespec_ns a) = Fin u"
      "dint (timespec_ns c - timespec_ns a) = Fin v"
    using dint_63 assms by meson
  have "dle (Fin u) (Fin v)"
    using dint_mono [of "timespec_ns b - timespec_ns a" "timespec_ns c - timespec_ns a"] assms uv
    by simp
  then show ?thesis unfolding elapsed_ms_def Let_def uv by (rule fl_div_mono) simp
qed

lemma elapsed_self [simp]: "elapsed_ms t t = Fin 0"
  by (simp add: elapsed_ms_def dint_def fl_def)

lemma elapsed_nonneg:
  assumes "valid_ts a" "valid_ts b" "ts_le a b"
  shows "dle (Fin 0) (elapsed_ms a b)"
  using elapsed_mono [of a b a] assms valid_ts_ns [of a] valid_ts_ns [of b]
  by (simp add: ts_le_def)

section \<open>The clock in milliseconds\<close>

lemma nsec_ms:
  assumes "0 \<le> n" "n < 1000000000"
  shows "\<exists>r. ddiv (dint n) (Fin 1000000) = Fin r \<and> 0 \<le> r \<and> r \<le> 1000"
proof -
  have e: "dint n = Fin (of_int n)" using assms by (intro dint_exact) simp
  have b: "(of_int 0 :: rat) \<le> of_int n / 1000000" "(of_int n :: rat) / 1000000 \<le> of_int 1000"
    using assms by (simp_all add: divide_le_eq)
  show ?thesis
    using ieee.rnd_between [OF wf_int wf_int b] by (simp add: e)
qed

lemma ts_ms_eq:
  assumes "valid_ts t"
  shows "\<exists>r. ddiv (dint (tv_nsec t)) (Fin 1000000) = Fin r \<and> 0 \<le> r \<and> r \<le> 1000 \<and>
     ts_ms t = fl (of_int (tv_sec t * 1000) + r)"
proof -
  have sec: "dint (tv_sec t) = Fin (of_int (tv_sec t))"
    using assms by (intro dint_exact) (simp add: valid_ts_def)
  have "fl (of_int (tv_sec t * 1000)) = Fin (of_int (tv_sec t * 1000))"
    using assms by (intro fl_int) (simp add: valid_ts_def)
  then have ms: "dmul (dint (tv_sec t)) (Fin 1000) = Fin (of_int (tv_sec t * 1000))"
    by (simp add: sec)
  obtain r where r: "ddiv (dint (tv_nsec t)) (Fin 1000000) = Fin r" "0 \<le> r" "r \<le> 1000"
    using nsec_ms [of "tv_nsec t"] assms by (auto simp: valid_ts_def)
  then show ?thesis unfolding ts_ms_def ms by auto
qed

lemma ts_ms_finite:
  assumes "valid_ts t"
  shows "\<exists>v. ts_ms t = Fin v \<and> 0 \<le> v \<and> v \<le> 2 ^ 43"
proof -
  obtain r where r: "0 \<le> r" "r \<le> 1000" "ts_ms t = fl (of_int (tv_sec t * 1000) + r)"
    using ts_ms_eq [OF assms] by blast
  have "tv_sec t * 1000 \<le> 8589934591000" "0 \<le> tv_sec t * 1000"
    using assms by (auto simp: valid_ts_def)
  then have "(of_int (tv_sec t * 1000) :: rat) \<le> of_int 8589934591000"
    "(of_int 0 :: rat) \<le> of_int (tv_sec t * 1000)" by (simp_all only: of_int_le_iff)
  then have b: "of_int 0 \<le> of_int (tv_sec t * 1000) + r"
    "of_int (tv_sec t * 1000) + r \<le> of_int (2 ^ 43)" using r by simp_all
  show ?thesis unfolding r(3) using ieee.rnd_between [OF wf_int wf_int b] by simp
qed

lemma ts_le_cases:
  assumes "valid_ts a" "valid_ts b" "ts_le a b"
  shows "tv_sec a < tv_sec b \<or> tv_sec a = tv_sec b \<and> tv_nsec a \<le> tv_nsec b"
  using assms by (auto simp: valid_ts_def ts_le_def timespec_ns_def)

text \<open>The millisecond reading the schedule is computed from never runs backwards: for two
  valid readings of the monotonic clock in order, the doubles \<open>now_ms\<close> computes are in order,
  despite the two roundings.\<close>

theorem now_ms_monotone:
  assumes "valid_ts a" "valid_ts b" "ts_le a b"
  shows "dle (ts_ms a) (ts_ms b)"
proof -
  obtain r where r: "ddiv (dint (tv_nsec a)) (Fin 1000000) = Fin r" "r \<le> 1000"
    "ts_ms a = fl (of_int (tv_sec a * 1000) + r)" using ts_ms_eq [OF assms(1)] by blast
  obtain s where s: "ddiv (dint (tv_nsec b)) (Fin 1000000) = Fin s" "0 \<le> s"
    "ts_ms b = fl (of_int (tv_sec b * 1000) + s)" using ts_ms_eq [OF assms(2)] by blast
  have exact: "dint (tv_nsec a) = Fin (of_int (tv_nsec a))" "dint (tv_nsec b) = Fin (of_int (tv_nsec b))"
    using assms by (auto intro!: dint_exact simp: valid_ts_def)
  have "of_int (tv_sec a * 1000) + r \<le> of_int (tv_sec b * 1000) + s"
  proof (cases "tv_sec a = tv_sec b")
    case True
    then have "dle (dint (tv_nsec a)) (dint (tv_nsec b))"
      using ts_le_cases [OF assms] by (intro dint_mono) auto
    then have "dle (Fin r) (Fin s)" 
      using fl_div_mono [of "of_int (tv_nsec a)" "of_int (tv_nsec b)" 1000000] exact r(1) s(1) by simp
    with True show ?thesis by simp
  next
    case False
    then have "tv_sec a * 1000 + 1000 \<le> tv_sec b * 1000" using ts_le_cases [OF assms] by auto
    then have "(of_int (tv_sec a * 1000 + 1000) :: rat) \<le> of_int (tv_sec b * 1000)"
      by (simp only: of_int_le_iff)
    then show ?thesis using r s by simp
  qed
  then show ?thesis unfolding r(3) s(3) by (rule fl_mono)
qed

theorem now_ms_monotone_witness:
  "dle (ts_ms \<lparr>tv_sec = 1, tv_nsec = 999999999\<rparr>) (ts_ms \<lparr>tv_sec = 2, tv_nsec = 0\<rparr>)"
  by (rule now_ms_monotone) (simp_all add: valid_ts_def ts_le_def timespec_ns_def)

section \<open>The poll timeout\<close>

lemma dceil_range:
  assumes "0 \<le> q" "q \<le> 3600000"
  shows "int_of_double (dceil (Fin q)) = Some \<lceil>q\<rceil>" "0 \<le> \<lceil>q\<rceil>" "\<lceil>q\<rceil> \<le> 3600000"
proof -
  have r: "0 \<le> \<lceil>q\<rceil>" "\<lceil>q\<rceil> \<le> 3600000" using assms by (simp_all add: ceiling_le_iff)
  then show "0 \<le> \<lceil>q\<rceil>" "\<lceil>q\<rceil> \<le> 3600000" "int_of_double (dceil (Fin q)) = Some \<lceil>q\<rceil>"
    by (simp_all add: Let_def)
qed

lemma ms_until_cases:
  assumes "dsub target now \<noteq> NaN"
  shows "ms_until target now = Some 0 \<and> dlt (dsub target now) (Fin 0)
    \<or> ms_until target now = Some 3600000 \<and> dlt (Fin 3600000) (dsub target now)
    \<or> (\<exists>q. dsub target now = Fin q \<and> 0 \<le> q \<and> q \<le> 3600000 \<and> ms_until target now = Some \<lceil>q\<rceil>)"
proof -
  have M: "int_of_double (Fin 3600000) = Some 3600000" by (simp add: Let_def)
  show ?thesis
  proof (cases "dsub target now")
    case (Fin q)
    then show ?thesis using dceil_range [of q]
      by (auto simp: ms_until_def Let_def PING_POLL_MAX_MS_def M simp del: int_of_double.simps dceil.simps)
  qed (use assms M in \<open>auto simp: ms_until_def Let_def PING_POLL_MAX_MS_def simp del: int_of_double.simps\<close>)
qed

lemma dsub_not_NaN: "target \<noteq> NaN \<Longrightarrow> dsub target (Fin n) \<noteq> NaN"
  by (cases target) (simp_all add: dsub_def)

lemma ms_until_total:
  assumes "target \<noteq> NaN"
  shows "\<exists>k. ms_until target (Fin n) = Some k \<and> 0 \<le> k \<and> k \<le> 3600000"
  using ms_until_cases [OF dsub_not_NaN [OF assms, of n]]
  by (elim disjE exE conjE) (simp_all add: dceil_range(2,3))

text \<open>\<open>ms_until\<close> is total on the targets the loop computes: for a target that is not a NaN
  (the absent deadline, infinity, included) and a finite current instant, the cast to \<open>int\<close> is
  defined and the timeout lies between 0 and one hour, so it is never the negative value
  \<open>poll\<close> reads as forever.\<close>

theorem ms_until_bounds:
  assumes "target \<noteq> NaN"
  shows "\<exists>k. ms_until target (Fin n) = Some k \<and> 0 \<le> k \<and> k \<le> 3600000"
  by (rule ms_until_total [OF assms])

theorem ms_until_bounds_witness: "\<exists>k. ms_until PInf (Fin 5) = Some k \<and> 0 \<le> k \<and> k \<le> 3600000"
  by (rule ms_until_bounds) simp

lemma ceil_pos: "0 < q \<Longrightarrow> \<lceil>q\<rceil> \<noteq> 0" for q :: rat
  using zero_less_ceiling [of q] by linarith

text \<open>The loop never spins: \<open>ms_until\<close> returns 0 exactly when the target has been reached.
  In particular a target that lies ahead by less than a millisecond, however small the
  remainder, gives a wait of at least one.\<close>

theorem ms_until_zero_iff:
  assumes "wf_double target" "target \<noteq> NaN" "wf_double (Fin n)"
  shows "ms_until target (Fin n) = Some 0 \<longleftrightarrow> dle target (Fin n)"
proof (cases "dle target (Fin n)")
  case True
  have "dle (dsub target (Fin n)) (Fin 0)"
  proof (cases target)
    case (Fin t)
    then show ?thesis using True fl_mono [of "t - n" 0] by (simp add: dsub_def fl_exact)
  qed (use True in \<open>simp_all add: dsub_def\<close>)
  then show ?thesis
    using ms_until_cases [OF dsub_not_NaN [OF assms(2), of n]] True
    by (auto dest: dlt_not_dle dlt_dle_trans)
next
  case False
  have "dlt (Fin 0) (dsub target (Fin n))"
  proof (cases target)
    case (Fin t)
    then show ?thesis using False assms dsub_pos [of n t] by simp
  qed (use False assms in \<open>simp_all add: dsub_def\<close>)
  then show ?thesis
    using ms_until_cases [OF dsub_not_NaN [OF assms(2), of n]] False ceil_pos
    by (auto dest: dlt_not_dle dlt_dle)
qed

theorem ms_until_zero_iff_witness:
  "ms_until (Fin (1 / 4)) (Fin 0) = Some 0 \<longleftrightarrow> dle (Fin (1 / 4)) (Fin 0)"
proof (rule ms_until_zero_iff)
  have "wf_double (fl (1 / 4))" by (rule fl_wf)
  moreover have "fl (1 / 4) = Fin (1 / 4)" by code_simp
  ultimately show "wf_double (Fin (1 / 4))" by simp
qed simp_all

end
