(* ===== verification/Ping_Checksum.thy ===== *)
theory Ping_Checksum
  imports Ping_Time
begin

text \<open>
  \<open>src/net/ping_checksum.c\<close>: the Internet checksum, in the 32-bit arithmetic of the code and
  for either byte order of the host. The abstract value is the one's complement sum of the
  16-bit words, a number in \<open>[0, 65535]\<close> congruent to the plain sum modulo 65535; from it
  follow the claims of the comments (byte-order independence) and what the receive path
  relies on (every corruption of a single byte changes the checksum).
\<close>

section \<open>Operations\<close>

text \<open>
  The two summing loops: \<open>memcpy\<close> of two bytes into \<open>word\<close>, and of the odd last byte into the
  first byte of a zeroed \<open>word\<close>.
\<close>

fun sum_words :: "endian \<Rightarrow> byte list \<Rightarrow> u32 \<Rightarrow> u32" where
  "sum_words e (a # b # p) s = sum_words e p (s + ucast (load16 e a b))"
| "sum_words e [a] s = s + ucast (load16 e a 0)"
| "sum_words e [] s = s"

lemma unat_fold_step:
  "unat ((s AND 0xFFFF) + drop_bit 16 s :: u32) = unat s mod 65536 + unat s div 65536"
proof -
  have "unat s < 4294967296" using unsigned_less [of s] by simp
  then have "unat s div 65536 < 65536" by (simp add: less_mult_imp_div_less)
  moreover have "unat (s AND 0xFFFF) = unat s mod 65536"
  proof -
    have "s AND 0xFFFF = take_bit 16 s" by (simp add: take_bit_eq_mask mask_eq_exp_minus_1)
    then show ?thesis by (simp add: take_bit_eq_mod unat_mod)
  qed
  moreover have "unat (drop_bit 16 s) = unat s div 65536"
    by (simp add: unsigned_drop_bit_eq drop_bit_eq_div unat_div)
  moreover have "unat s mod 65536 < 65536" by simp
  ultimately show ?thesis by (simp add: unat_word_ariths)
qed

text \<open>The folding loop. Each pass makes the sum smaller, so it ends.\<close>

function fold_carry :: "u32 \<Rightarrow> u32" where
  "fold_carry s = (if drop_bit 16 s \<noteq> 0 then fold_carry ((s AND 0xFFFF) + drop_bit 16 s) else s)"
  by pat_completeness auto
termination
proof (relation "measure unat")
  fix s :: u32
  assume "drop_bit 16 s \<noteq> 0"
  moreover have "unat (drop_bit 16 s) = unat s div 65536"
    by (simp add: unsigned_drop_bit_eq drop_bit_eq_div unat_div)
  ultimately have "unat s div 65536 \<noteq> 0" by (metis unat_eq_zero)
  then show "((s AND 0xFFFF) + drop_bit 16 s, s) \<in> measure unat"
    unfolding in_measure unat_fold_step using div_mult_mod_eq [of "unat s" 65536] by linarith
qed simp

declare fold_carry.simps [simp del]

definition ft_checksum :: "endian \<Rightarrow> byte list \<Rightarrow> u16" where
  "ft_checksum e buf = ucast (NOT (fold_carry (sum_words e buf 0)))"

section \<open>The abstract value\<close>

text \<open>The plain sum of the words, and the one's complement sum it folds to.\<close>

fun wsum :: "endian \<Rightarrow> byte list \<Rightarrow> nat" where
  "wsum e (a # b # p) = unat (load16 e a b) + wsum e p"
| "wsum e [a] = unat (load16 e a 0)"
| "wsum e [] = 0"

definition oc :: "nat \<Rightarrow> nat" where
  "oc n = (if n = 0 then 0 else Suc ((n - 1) mod 65535))"

lemma oc_le: "oc n \<le> 65535"
  by (simp add: oc_def Suc_le_eq)

lemma oc_small [simp]: "n \<le> 65535 \<Longrightarrow> oc n = n"
  by (auto simp: oc_def)

lemma oc_mod: "oc n mod 65535 = n mod 65535"
proof (cases n)
  case (Suc m)
  have "Suc (m mod 65535) mod 65535 = Suc m mod 65535" by (simp add: mod_Suc_eq)
  then show ?thesis by (simp add: oc_def Suc)
qed (simp add: oc_def)

lemma oc_eq_iff: "oc m = oc n \<longleftrightarrow> (m = 0 \<longleftrightarrow> n = 0) \<and> m mod 65535 = n mod 65535"
proof
  assume "oc m = oc n"
  then show "(m = 0 \<longleftrightarrow> n = 0) \<and> m mod 65535 = n mod 65535"
    using oc_mod [of m] oc_mod [of n] by (auto simp: oc_def split: if_splits)
next
  assume *: "(m = 0 \<longleftrightarrow> n = 0) \<and> m mod 65535 = n mod 65535"
  show "oc m = oc n"
  proof (cases "m = 0")
    case False
    then have pos: "1 \<le> oc m" "1 \<le> oc n" using * by (auto simp: oc_def)
    have "oc m mod 65535 = oc n mod 65535" using * by (simp add: oc_mod)
    moreover have "oc k mod 65535 = (if oc k = 65535 then 0 else oc k)" for k
      using oc_le [of k] by auto
    ultimately show ?thesis using pos by (auto split: if_splits)
  qed (use * in \<open>simp add: oc_def\<close>)
qed

text \<open>
  A 32-bit sum does not overflow while the message has at most 131074 bytes, which is more
  than an IP datagram can hold.
\<close>

lemma sum_words_unat:
  assumes "unat s + 65535 * ((length p + 1) div 2) < 2 ^ 32"
  shows "unat (sum_words e p s) = unat s + wsum e p"
  using assms
proof (induction e p s rule: sum_words.induct)
  case (1 e a b p s)
  have w: "unat (load16 e a b) < 65536" by (rule unat_u16_lt)
  have u: "unat (ucast (load16 e a b) :: u32) = unat (load16 e a b)"
    using w by (simp add: unsigned_ucast_eq take_bit_eq_mod)
  have "unat (s + ucast (load16 e a b)) = unat s + unat (load16 e a b)"
    using "1.prems" w by (simp add: unat_word_ariths u)
  then show ?case using "1.prems" w by (subst sum_words.simps, subst "1.IH") auto
next
  case (2 e a s)
  have w: "unat (load16 e a 0) < 65536" by (rule unat_u16_lt)
  have u: "unat (ucast (load16 e a 0) :: u32) = unat (load16 e a 0)"
    using w by (simp add: unsigned_ucast_eq take_bit_eq_mod)
  show ?case using "2.prems" w by (simp add: unat_word_ariths u)
qed simp

lemma fold_carry_unat: "unat (fold_carry s) = oc (unat s)"
proof (induction s rule: fold_carry.induct)
  case (1 s)
  have d: "unat (drop_bit 16 s) = unat s div 65536"
    by (simp add: unsigned_drop_bit_eq drop_bit_eq_div unat_div)
  show ?case
  proof (cases "drop_bit 16 s = 0")
    case True
    with d have "unat s div 65536 = 0" by simp
    then have "unat s \<le> 65535" by (simp add: div_eq_0_iff)
    with True show ?thesis by (simp add: fold_carry.simps [of s])
  next
    case False
    then have pos: "unat s div 65536 \<noteq> 0" using d by (metis unat_eq_zero)
    have n: "unat s = 65536 * (unat s div 65536) + unat s mod 65536" by simp
    have "oc (unat s mod 65536 + unat s div 65536) = oc (unat s)"
    proof -
      have "unat s = (unat s mod 65536 + unat s div 65536) + 65535 * (unat s div 65536)"
        using n by linarith
      then have "unat s mod 65535 = (unat s mod 65536 + unat s div 65536) mod 65535"
        by (metis mod_mult_self2)
      then show ?thesis using pos by (auto simp: oc_eq_iff)
    qed
    with False "1.IH" show ?thesis
      by (simp add: fold_carry.simps [of s] unat_fold_step)
  qed
qed

lemma unat_not_u16: "unat (NOT (x :: u16)) = 65535 - unat x"
proof -
  have "NOT x = - 1 - x" by (simp add: not_eq_complement)
  moreover have "unat (- 1 - x) = unat (- 1 :: u16) - unat x"
    by (rule unat_sub) simp
  ultimately show ?thesis by (simp add: unsigned_minus_1_eq_mask mask_eq_exp_minus_1)
qed

lemma unat_ft_checksum:
  assumes "length buf \<le> 131074"
  shows "unat (ft_checksum e buf) = 65535 - oc (wsum e buf)"
proof -
  have "(length buf + 1) div 2 \<le> 65537" using assms by linarith
  then have "unat (sum_words e buf 0) = wsum e buf" by (subst sum_words_unat) simp_all
  then have f: "unat (fold_carry (sum_words e buf 0)) = oc (wsum e buf)"
    by (simp add: fold_carry_unat)
  have "unat (ucast (fold_carry (sum_words e buf 0)) :: u16) = oc (wsum e buf)"
    using oc_le [of "wsum e buf"] by (simp add: unsigned_ucast_eq take_bit_eq_mod f)
  moreover have "ucast (NOT (fold_carry (sum_words e buf 0)))
      = NOT (ucast (fold_carry (sum_words e buf 0)) :: u16)"
    by (rule bit_word_eqI) (simp add: bit_simps)
  ultimately show ?thesis by (simp add: ft_checksum_def unat_not_u16)
qed

text \<open>C12. \<open>ft_checksum\<close> computes the RFC 1071 checksum: for every message whose length a 32-bit
  sum can take, the complement of the one's complement sum of its 16-bit words (the odd last
  byte padded with a zero byte).\<close>

theorem ft_checksum_spec:
  assumes "length buf \<le> 131074"
  shows "unat (ft_checksum e buf) = 65535 - oc (wsum e buf)"
  by (rule unat_ft_checksum [OF assms])

theorem ft_checksum_spec_witness:
  "unat (ft_checksum LE [8, 0, 0, 0, 1, 2, 3]) = 65535 - oc (wsum LE [8, 0, 0, 0, 1, 2, 3])"
  by (rule ft_checksum_spec) simp

section \<open>The sum as a weighted sum of bytes\<close>

fun weight :: "endian \<Rightarrow> nat \<Rightarrow> nat" where
  "weight LE i = (if even i then 1 else 256)"
| "weight BE i = (if even i then 256 else 1)"

lemma weight_shift [simp]: "weight e (Suc (Suc i)) = weight e i"
  by (cases e) simp_all

lemma unat_load16_weight: "unat (load16 e a b) = weight e 0 * unat a + weight e 1 * unat b"
  by (cases e) (simp_all add: unat_load16)

lemma wsum_update:
  "i < length p \<Longrightarrow> wsum e (p[i := x]) + weight e i * unat (p ! i) = wsum e p + weight e i * unat x"
proof (induction e p arbitrary: i rule: wsum.induct)
  case (1 e a b p)
  consider "i = 0" | "i = 1" | j where "i = Suc (Suc j)"
    by (metis One_nat_def old.nat.exhaust)
  then show ?case
  proof cases
    case (3 j)
    then show ?thesis using 1 by simp
  qed (simp_all add: unat_load16_weight)
qed (auto simp: unat_load16_weight less_Suc_eq)

lemma wsum_zero_iff: "wsum e p = 0 \<longleftrightarrow> (\<forall>i < length p. p ! i = 0)"
proof (induction e p rule: wsum.induct)
  case (1 e a b p)
  have "wsum e (a # b # p) = 0 \<longleftrightarrow> a = 0 \<and> b = 0 \<and> wsum e p = 0"
    by (cases e) (auto simp: unat_load16 unat_eq_zero)
  then show ?case using 1 by (auto simp: nth_Cons split: nat.splits)
next
  case (2 e a)
  show ?case by (cases e) (simp_all add: unat_load16 unat_eq_zero)
qed simp

section \<open>Byte-order independence\<close>

lemma wsum_BE: "\<exists>k. 256 * wsum LE p = wsum BE p + 65535 * k"
proof (induction LE p rule: wsum.induct)
  case (1 a b p)
  then obtain k where "256 * wsum LE p = wsum BE p + 65535 * k" by blast
  then have "256 * wsum LE (a # b # p) = wsum BE (a # b # p) + 65535 * (unat b + k)"
    by (simp add: unat_load16)
  then show ?case by blast
next
  case (2 a)
  then show ?case by (simp add: unat_load16)
qed simp

lemma unat_bswap16: "unat (bswap16 w) = unat w div 256 + 256 * (unat w mod 256)"
  by (simp add: bswap16_def unat_load16 unat_hi8 unat_lo8)

lemma swap_complement:
  fixes n :: nat
  assumes "n \<le> 65535"
  shows "(65535 - n) div 256 + 256 * ((65535 - n) mod 256) = 65535 - (n div 256 + 256 * (n mod 256))"
proof -
  define h l where "h = n div 256" and "l = n mod 256"
  have n: "n = 256 * h + l" by (simp add: h_def l_def)
  have b: "l \<le> 255" "h \<le> 255" using assms by (simp_all add: h_def l_def)
  have "65535 - n = (255 - l) + 256 * (255 - h)" using n b by linarith
  moreover have "255 - l < 256" by simp
  ultimately have "(65535 - n) div 256 = 255 - h" "(65535 - n) mod 256 = 255 - l"
    by simp_all
  then show ?thesis using b by (simp flip: h_def l_def)
qed

lemma oc_BE: "oc (wsum BE p) = oc (wsum LE p) div 256 + 256 * (oc (wsum LE p) mod 256)"
proof -
  define L where "L = oc (wsum LE p)"
  define S where "S = L div 256 + 256 * (L mod 256)"
  obtain k where k: "256 * wsum LE p = wsum BE p + 65535 * k" using wsum_BE by blast
  have "L = 256 * (L div 256) + L mod 256" by simp
  then have "256 * L = S + 65535 * (L div 256)" unfolding S_def by linarith
  then have "S mod 65535 = (256 * L) mod 65535" by simp
  also have "\<dots> = (256 * wsum LE p) mod 65535" by (metis L_def mod_mult_right_eq oc_mod)
  also have "\<dots> = wsum BE p mod 65535" by (simp add: k)
  finally have "S mod 65535 = wsum BE p mod 65535" .
  moreover have "S = 0 \<longleftrightarrow> wsum BE p = 0"
  proof -
    have "S = 0 \<longleftrightarrow> L = 0" by (auto simp: S_def)
    also have "\<dots> \<longleftrightarrow> wsum LE p = 0" by (simp add: L_def oc_def)
    finally show ?thesis by (simp add: wsum_zero_iff)
  qed
  ultimately have "oc (wsum BE p) = oc S" by (simp add: oc_eq_iff)
  also have "\<dots> = S"
  proof -
    have "L \<le> 65535" by (simp add: L_def oc_le)
    then have "L div 256 \<le> 255" "L mod 256 \<le> 255" by linarith+
    then have "S \<le> 65535" by (simp add: S_def)
    then show ?thesis by simp
  qed
  finally show ?thesis by (simp add: S_def L_def)
qed

lemma ft_checksum_host_bytes:
  assumes "length buf \<le> 131074"
  shows "store16_0 LE (ft_checksum LE buf) = store16_0 BE (ft_checksum BE buf) \<and>
    store16_1 LE (ft_checksum LE buf) = store16_1 BE (ft_checksum BE buf)"
proof -
  have l: "oc (wsum LE buf) \<le> 65535" by (rule oc_le)
  have "unat (bswap16 (ft_checksum LE buf)) = unat (ft_checksum BE buf)"
    using l unfolding unat_bswap16 unat_ft_checksum [OF assms] oc_BE by (rule swap_complement)
  then have "ft_checksum BE buf = bswap16 (ft_checksum LE buf)" by (simp add: word_unat_eq_iff)
  then show ?thesis by (simp add: bswap16_def)
qed

text \<open>The sum is byte-order agnostic, as the comment in the code says: a big-endian host
  computes the byte-swapped value, so the two bytes that end up in the header of the packet
  are the same on either host.\<close>

theorem ft_checksum_byte_order:
  assumes "length buf \<le> 131074"
  shows "store16_0 LE (ft_checksum LE buf) = store16_0 BE (ft_checksum BE buf) \<and>
    store16_1 LE (ft_checksum LE buf) = store16_1 BE (ft_checksum BE buf)"
  by (rule ft_checksum_host_bytes [OF assms])

theorem ft_checksum_byte_order_witness:
  "store16_0 LE (ft_checksum LE [1, 2, 3]) = store16_0 BE (ft_checksum BE [1, 2, 3]) \<and>
    store16_1 LE (ft_checksum LE [1, 2, 3]) = store16_1 BE (ft_checksum BE [1, 2, 3])"
  by (rule ft_checksum_byte_order) simp

section \<open>Error detection\<close>

text \<open>
  What the receive path needs of a checksum: changing one byte of the message changes it.
  From that law alone, recomputing the checksum over the message with its checksum field
  zeroed and comparing with the field (\<open>field_ok\<close>) rejects every message with one corrupted
  byte, inside the field or outside.
\<close>

definition clear_field :: "byte list \<Rightarrow> byte list" where
  "clear_field m = m[hdr_checksum := 0, hdr_checksum + 1 := 0]"

definition field :: "endian \<Rightarrow> byte list \<Rightarrow> u16" where
  "field e m = load16 e (m ! hdr_checksum) (m ! (hdr_checksum + 1))"

locale error_detecting =
  fixes ck :: "byte list \<Rightarrow> u16" and bound :: nat
  assumes ck_update: "length m \<le> bound \<Longrightarrow> i < length m \<Longrightarrow> x \<noteq> m ! i \<Longrightarrow> ck (m[i := x]) \<noteq> ck m"
begin

lemma detects:
  assumes len: "length m \<le> bound" "8 \<le> length m" and i: "i < length m" "x \<noteq> m ! i"
    and ok: "ck (clear_field m) = field e m"
  shows "ck (clear_field (m[i := x])) \<noteq> field e (m[i := x])"
proof (cases "i = 2 \<or> i = 3")
  case True
  then have "clear_field (m[i := x]) = clear_field m"
    by (auto simp: clear_field_def icmp_layout list_update_swap)
  moreover have "field e (m[i := x]) \<noteq> field e m"
  proof
    assume "field e (m[i := x]) = field e m"
    then have "store16_0 e (field e (m[i := x])) = store16_0 e (field e m)"
      "store16_1 e (field e (m[i := x])) = store16_1 e (field e m)" by simp_all
    then show False using True i by (auto simp: field_def icmp_layout)
  qed
  ultimately show ?thesis using ok by simp
next
  case False
  then have f: "field e (m[i := x]) = field e m" by (simp add: field_def icmp_layout)
  have "clear_field (m[i := x]) = (clear_field m)[i := x]"
    using False by (simp add: clear_field_def icmp_layout list_update_swap)
  moreover have "ck ((clear_field m)[i := x]) \<noteq> ck (clear_field m)"
    using len i False by (intro ck_update) (simp_all add: clear_field_def icmp_layout)
  ultimately show ?thesis using ok f by simp
qed

end

lemma ft_checksum_update:
  assumes "length m \<le> 131074" "i < length m" "x \<noteq> m ! i"
  shows "ft_checksum e (m[i := x]) \<noteq> ft_checksum e m"
proof
  assume "ft_checksum e (m[i := x]) = ft_checksum e m"
  then have "65535 - oc (wsum e (m[i := x])) = 65535 - oc (wsum e m)"
    using unat_ft_checksum [of m e] unat_ft_checksum [of "m[i := x]" e] assms by simp
  then have "oc (wsum e (m[i := x])) = oc (wsum e m)"
    using oc_le [of "wsum e m"] oc_le [of "wsum e (m[i := x])"] by linarith
  then have m: "wsum e (m[i := x]) mod 65535 = wsum e m mod 65535" by (simp add: oc_eq_iff)
  note u = wsum_update [OF assms(2), of e x]
  have "(weight e i * unat (m ! i)) mod 65535 = (weight e i * unat x) mod 65535"
  proof -
    have "(wsum e m + weight e i * unat (m ! i)) mod 65535 = (wsum e m + weight e i * unat x) mod 65535"
      using m u by (metis mod_add_left_eq)
    then show ?thesis by (simp add: nat_mod_eq_iff)
  qed
  moreover have "weight e i = 1 \<or> weight e i = 256" by (cases e) simp_all
  moreover have "unat x < 256" "unat (m ! i) < 256" by (rule unat_byte_lt)+
  ultimately have "unat (m ! i) = unat x" by auto
  then show False using assms by (metis word_unat_eq_iff)
qed

interpretation cks: error_detecting "ft_checksum e" 131074 for e
  by unfold_locales (rule ft_checksum_update)

end
