(* ===== verification/Ping_Output.thy ===== *)
theory Ping_Output
  imports Ping_Time
begin

text \<open>
  \<open>src/output\<close>: every line the program prints (\<open>ping_print_packet.c\<close>, \<open>ping_print_report.c\<close>,
  \<open>ping_print_usage.c\<close>), and the descriptions of ICMP errors (\<open>icmp_error_desc\<close> of
  \<open>src/net/ping_icmp_error.c\<close>). Each function appends the text it prints to the events of the
  world. The theory bounds the loss percentage, shows which counts make its arithmetic
  overflow, and shows that the deviation is never computed from a negative variance.
\<close>

abbreviation nl :: string where "nl \<equiv> [CHR 0x0A]"

section \<open>The per-packet lines\<close>

definition print_reply :: "int \<Rightarrow> string \<Rightarrow> u16 \<Rightarrow> byte \<Rightarrow> double \<Rightarrow> world \<Rightarrow> world" where
  "print_reply icmp_bytes src sq ip_ttl rtt w =
     emit (Stdout (dec icmp_bytes @ '' bytes from '' @ src @ '': icmp_seq='' @ dec (uint sq)
       @ '' ttl='' @ dec (uint ip_ttl) @ '' time='' @ fmt_f3 rtt @ '' ms'' @ nl)) w"

definition icmp_error_desc :: "byte \<Rightarrow> byte \<Rightarrow> string" where
  "icmp_error_desc ty code =
     (if ty = 3 then
        (if code = 0 then ''Destination Network Unreachable''
         else if code = 1 then ''Destination Host Unreachable''
         else if code = 2 then ''Destination Protocol Unreachable''
         else if code = 3 then ''Destination Port Unreachable''
         else if code = 4 then ''Frag needed and DF set''
         else if code = 13 then ''Communication Administratively Prohibited''
         else ''Destination Unreachable'')
      else if ty = 4 then ''Source Quench''
      else if ty = 5 then ''Redirect''
      else if ty = 11 then
        (if code = 0 then ''Time to live exceeded'' else ''Frag reassembly time exceeded'')
      else ''Parameter problem'')"

definition print_icmp_error :: "string \<Rightarrow> u16 \<Rightarrow> byte \<Rightarrow> byte \<Rightarrow> world \<Rightarrow> world" where
  "print_icmp_error src sq ty code w =
     emit (Stdout (''From '' @ src @ '' icmp_seq='' @ dec (uint sq) @ '' ''
       @ icmp_error_desc ty code @ nl)) w"

definition print_flood_send :: "world \<Rightarrow> world" where
  "print_flood_send w = emit (Stdout ''.'') w"

definition print_flood_recv :: "world \<Rightarrow> world" where
  "print_flood_recv w = emit (Stdout [CHR 0x08]) w"

definition print_checksum_mismatch :: "string \<Rightarrow> world \<Rightarrow> world" where
  "print_checksum_mismatch src w = emit (Stderr (''checksum mismatch from '' @ src @ nl)) w"

section \<open>The banner and the summary\<close>

definition print_ping_banner :: "t_ping_ctx \<Rightarrow> world \<Rightarrow> world" where
  "print_ping_banner ctx w =
     emit (Stdout (''PING '' @ host (flags ctx) @ '' ('' @ ipstr ctx @ ''): ''
       @ dec (int (payload_len ctx)) @ '' data bytes''
       @ (if verbose (flags ctx)
          then (let i = ntohs (host_endian w) (ctx_id ctx)
                in '', id 0x'' @ hex4 i @ '' = '' @ dec (uint i))
          else [])
       @ nl)) w"

definition loss_percent :: "t_ping_stats \<Rightarrow> int" where
  "loss_percent st =
     (if n_sent st \<le> 0 then 0
      else c_div (i32 (i32 (n_sent st - n_recv st) * 100)) (n_sent st))"

definition print_counts :: "t_ping_stats \<Rightarrow> world \<Rightarrow> world" where
  "print_counts st w =
     emit (Stdout (dec (n_sent st) @ '' packets transmitted, '' @ dec (n_recv st)
       @ '' packets received, ''
       @ (if n_sent st > 0 \<and> n_recv st > n_sent st
          then ''-- somebody is printing forged packets!''
          else dec (loss_percent st) @ ''% packet loss'')
       @ nl)) w"

text \<open>The mean, and the variance after the clamp, as \<open>print_stats\<close> computes them.\<close>

definition rtt_mean :: "t_ping_stats \<Rightarrow> double" where
  "rtt_mean st = ddiv (sum_rtt st) (dint (n_recv st))"

definition rtt_variance :: "t_ping_stats \<Rightarrow> double" where
  "rtt_variance st =
     (let mean = rtt_mean st;
          variance = dsub (ddiv (sum_sq st) (dint (n_recv st))) (dmul mean mean)
      in if dlt variance (Fin 0) then Fin 0 else variance)"

definition print_stats :: "string \<Rightarrow> t_ping_stats \<Rightarrow> world \<Rightarrow> world" where
  "print_stats hst st w =
     (let w1 = emit (Stdout (''--- '' @ hst @ '' ping statistics ---'' @ nl)) w;
          w2 = print_counts st w1
      in if n_recv st = 0 then w2
         else emit (Stdout (''round-trip min/avg/max/stddev = '' @ fmt_f3 (rtt_min st) @ ''/''
                @ fmt_f3 (rtt_mean st) @ ''/'' @ fmt_f3 (rtt_max st) @ ''/''
                @ fmt_f3 (dsqrt (rtt_variance st)) @ '' ms'' @ nl)) w2)"

section \<open>The help text\<close>

definition usage_text :: "string list" where
  "usage_text =
     [''Usage: ft_ping [OPTION...] HOST'' @ nl,
      ''Send ICMP ECHO_REQUEST packets to a network host.'' @ nl @ nl,
      ''  -f             flood ping (root only)'' @ nl,
      ''  -l PRELOAD     send PRELOAD packets as fast as possible first (root only)'' @ nl,
      ''  -i WAIT        seconds between packets (default 1, fractional allowed)'' @ nl,
      ''  -m TTL         set the IP Time To Live for outgoing packets'' @ nl,
      ''  -o             exit successfully after the first reply'' @ nl,
      ''  -p PATTERN     up to 16 pad bytes, as hex digits (e.g. -p ff)'' @ nl,
      ''  -Q             do not show ICMP errors caused by our own packets'' @ nl,
      ''  -q             quiet: only the banner and the summary'' @ nl,
      ''  -r             bypass the routing table'' @ nl,
      ''  -S SRC_ADDR    use SRC_ADDR as the source address'' @ nl,
      ''  -s PACKETSIZE  data bytes to send (default 56, max 65507)'' @ nl,
      ''  -T TTL         set the IP Time To Live for multicast packets'' @ nl,
      ''  -t TIMEOUT     exit after TIMEOUT seconds regardless'' @ nl,
      ''  -v             verbose: also report ICMP errors caused by other processes'' @ nl,
      ''  -?, --help     give this help list'' @ nl @ nl,
      ''  --bsd-flood    with -f, also send a packet on every reply.'' @ nl,
      ''                 Off by default: inetutils-2.0 paces flood by'' @ nl,
      ''                 its 10ms timer alone, and that is the'' @ nl,
      ''                 behaviour this program matches. Turn this on'' @ nl,
      ''                 for the BSD/macOS behaviour, where the rate is'' @ nl,
      ''                 bound by the round-trip time instead.'' @ nl @ nl,
      ''A raw socket is required, so ft_ping must run as root or with cap_net_raw.'' @ nl]"

definition print_usage :: "world \<Rightarrow> world" where
  "print_usage w = foldl (\<lambda>w s. emit (Stdout s) w) w usage_text"

lemma print_usage_events [simp]: "events (print_usage w) = events w @ map Stdout usage_text"
proof -
  have "events (foldl (\<lambda>w s. emit (Stdout s) w) w ts) = events w @ map Stdout ts" for ts
    by (induction ts arbitrary: w) simp_all
  then show ?thesis by (simp add: print_usage_def)
qed

lemma same_kernel_print_usage [simp]: "same_kernel v (print_usage w) = same_kernel v w"
proof -
  have "same_kernel v (foldl (\<lambda>w s. emit (Stdout s) w) w ts) = same_kernel v w" for ts
    by (induction ts arbitrary: w) simp_all
  then show ?thesis by (simp add: print_usage_def)
qed

definition print_usage_hint :: "world \<Rightarrow> world" where
  "print_usage_hint w = emit (Stderr (''Try '' @ [CHR 0x27] @ ''ft_ping -?'' @ [CHR 0x27]
     @ '' for more information.'' @ nl)) w"

lemmas print_defs = print_reply_def print_icmp_error_def print_flood_send_def
  print_flood_recv_def print_checksum_mismatch_def print_ping_banner_def print_counts_def
  print_usage_hint_def

section \<open>The summary is right\<close>

text \<open>The range of counters in which the percentage is computed without overflow.\<close>

definition counts_ok :: "t_ping_stats \<Rightarrow> bool" where
  "counts_ok st \<longleftrightarrow> 0 \<le> n_recv st \<and> n_recv st \<le> n_sent st \<and> n_sent st < 2147483648 \<and>
     (n_sent st - n_recv st) * 100 < 2147483648"

lemma loss_percent_eq:
  "counts_ok st \<Longrightarrow> 0 < n_sent st \<Longrightarrow>
     loss_percent st = (n_sent st - n_recv st) * 100 div n_sent st"
  by (simp add: counts_ok_def loss_percent_def)

text \<open>The loss percentage is the exact percentage truncated, as in the reference: for counters
  of an honest run with fewer than 21474837 packets lost, it lies between 0 and 100, and it is
  the greatest whole percentage that does not exceed the share of lost packets.\<close>

theorem loss_percent_truncates:
  assumes "counts_ok st" "0 < n_sent st"
  shows "0 \<le> loss_percent st \<and> loss_percent st \<le> 100 \<and>
    loss_percent st * n_sent st \<le> (n_sent st - n_recv st) * 100 \<and>
    (n_sent st - n_recv st) * 100 < (loss_percent st + 1) * n_sent st"
proof -
  define s l where "s = n_sent st" and "l = (s - n_recv st) * 100"
  have s: "0 < s" "0 \<le> l" "l \<le> 100 * s" using assms by (auto simp: s_def l_def counts_ok_def)
  have e: "loss_percent st = l div s" using loss_percent_eq [OF assms] by (simp add: s_def l_def)
  have "l div s \<le> 100 * s div s" using s by (intro zdiv_mono1) auto
  then have "0 \<le> l div s" "l div s \<le> 100" using s by (auto simp: pos_imp_zdiv_nonneg_iff)
  moreover have "l div s * s \<le> l" "l < l div s * s + s"
  proof -
    have "l = l div s * s + l mod s" "0 \<le> l mod s" "l mod s < s" using s by simp_all
    then show "l div s * s \<le> l" "l < l div s * s + s" by linarith+
  qed
  moreover have "(n_sent st - n_recv st) * 100 = l" by (simp add: l_def s_def)
  ultimately show ?thesis unfolding e by (simp add: distrib_right flip: s_def)
qed

theorem loss_percent_truncates_witness:
  "loss_percent (zero_stats\<lparr>n_sent := 3, n_recv := 1\<rparr>) = 66 \<and>
   0 \<le> loss_percent (zero_stats\<lparr>n_sent := 3, n_recv := 1\<rparr>)"
  using loss_percent_truncates [of "zero_stats\<lparr>n_sent := 3, n_recv := 1\<rparr>"]
  by (simp add: counts_ok_def zero_stats_def loss_percent_def)

text \<open>Outside that range the multiplication overflows: with 21474837 packets sent and none
  received (under three days of \<open>-f\<close>), the summary reports a loss of -99 percent instead of
  100.\<close>

theorem loss_percent_overflow:
  "loss_percent (zero_stats\<lparr>n_sent := 21474837, n_recv := 0\<rparr>) = - 99"
  by (simp add: loss_percent_def zero_stats_def i32_def c_div_def)

text \<open>Total loss prints exactly the header and a line saying 100 percent: no round-trip line
  and no division by the zero count of replies. The same holds when nothing was sent, with
  0 percent.\<close>

theorem print_stats_no_replies:
  assumes "n_recv st = 0" "0 \<le> n_sent st" "n_sent st * 100 < 2147483648"
  shows "events (print_stats hst st w) = events w @
    [Stdout (''--- '' @ hst @ '' ping statistics ---'' @ nl),
     Stdout (dec (n_sent st) @ '' packets transmitted, 0 packets received, ''
       @ (if n_sent st = 0 then ''0'' else ''100'') @ ''% packet loss'' @ nl)]"
proof -
  have z: "dec 0 = ''0''" "dec 100 = ''100''" by code_simp+
  have "loss_percent st = (if n_sent st = 0 then 0 else 100)"
  proof (cases "n_sent st = 0")
    case False
    with assms have "counts_ok st" "0 < n_sent st" by (auto simp: counts_ok_def)
    from loss_percent_eq [OF this] assms(1) False show ?thesis by simp
  qed (simp add: loss_percent_def)
  then show ?thesis using assms by (simp add: print_stats_def print_counts_def z Let_def)
qed

theorem print_stats_no_replies_witness:
  "events (print_stats ''h'' (zero_stats\<lparr>n_sent := 4\<rparr>) (boot undefined)) =
    [Stdout (''--- h ping statistics ---'' @ nl),
     Stdout (''4 packets transmitted, 0 packets received, 100% packet loss'' @ nl)]"
proof -
  have "dec 4 = ''4''" by code_simp
  then show ?thesis
    using print_stats_no_replies [of "zero_stats\<lparr>n_sent := 4\<rparr>" "''h''" "boot undefined"]
    by (simp add: zero_stats_def boot_def)
qed

text \<open>More replies than probes is reported as forged traffic and never as a negative
  percentage.\<close>

theorem print_counts_forged:
  assumes "0 < n_sent st" "n_sent st < n_recv st"
  shows "events (print_counts st w) = events w @
    [Stdout (dec (n_sent st) @ '' packets transmitted, '' @ dec (n_recv st)
       @ '' packets received, -- somebody is printing forged packets!'' @ nl)]"
  using assms by (simp add: print_counts_def)

theorem print_counts_forged_witness:
  "events (print_counts (zero_stats\<lparr>n_sent := 2, n_recv := 3\<rparr>) (boot undefined)) =
    [Stdout (dec 2 @ '' packets transmitted, '' @ dec 3
       @ '' packets received, -- somebody is printing forged packets!'' @ nl)]"
  using print_counts_forged [of "zero_stats\<lparr>n_sent := 2, n_recv := 3\<rparr>" "boot undefined"]
  by (simp add: zero_stats_def boot_def)

section \<open>The deviation is a number\<close>

lemma dlt_zero_cases: "x \<noteq> NaN \<Longrightarrow> dlt x (Fin 0) \<or> dle (Fin 0) x"
  by (cases x) auto

lemma dsqrt_not_NaN: "dle (Fin 0) x \<Longrightarrow> dsqrt x \<noteq> NaN"
  by (cases x) (auto simp: Let_def)

lemma fmt_f3_nan: "fmt_f3 x = ''nan'' \<Longrightarrow> x = NaN"
proof (cases x)
  case (Fin q)
  assume nan: "fmt_f3 x = ''nan''"
  have "CHR ''.'' \<in> set (fmt_f3 x)" by (simp add: Fin Let_def)
  then show ?thesis using nan by simp
qed simp_all

lemma finite_quotient:
  assumes "wf_double (Fin q)" "1 \<le> k"
  shows "\<exists>v. fl (q / of_int k) = Fin v"
proof -
  have k: "(1 :: rat) \<le> of_int k" using assms by linarith
  have neg: "wf_double (Fin (- q))" using assms by (simp add: round53_minus)
  show ?thesis
  proof (cases "0 \<le> q")
    case True
    then have "0 \<le> q / of_int k" "q / of_int k \<le> q" using k by (auto simp: divide_le_eq mult_le_cancel_left1)
    from ieee.rnd_between [OF wf_zero assms(1) this] show ?thesis by blast
  next
    case False
    then have "q \<le> q / of_int k" "q / of_int k \<le> 0"
      using k by (auto simp: le_divide_eq divide_le_0_iff mult_le_cancel_left1)
    from ieee.rnd_between [OF assms(1) wf_zero this] show ?thesis by blast
  qed
qed

text \<open>C19. The summary never prints a deviation that is not a number: for every accumulated pair
  of finite sums and any positive count of replies, the clamped variance is at least 0, so its
  square root is defined, whatever the rounding of the two quotients does.\<close>

theorem stddev_defined:
  assumes "wf_double (Fin s)" "wf_double (Fin q)" "sum_rtt st = Fin s" "sum_sq st = Fin q"
    and "1 \<le> n_recv st" "n_recv st < 2147483648"
  shows "dle (Fin 0) (rtt_variance st) \<and> fmt_f3 (dsqrt (rtt_variance st)) \<noteq> ''nan''"
proof -
  have n: "dint (n_recv st) = Fin (of_int (n_recv st))" "of_int (n_recv st) \<noteq> (0 :: rat)"
    using assms by (auto intro!: dint_exact)
  obtain a where a: "rtt_mean st = Fin a"
    using finite_quotient [OF assms(1) assms(5)] n assms(3) by (auto simp: rtt_mean_def)
  obtain b where b: "ddiv (sum_sq st) (dint (n_recv st)) = Fin b"
    using finite_quotient [OF assms(2) assms(5)] n assms(4) by auto
  have m: "dneg (fl (a * a)) \<noteq> NaN" by (cases "fl (a * a)") (use fl_not_NaN [of "a * a"] in auto)
  have "dsub (Fin b) (dmul (Fin a) (Fin a)) \<noteq> NaN"
    using m by (cases "dneg (fl (a * a))") (simp_all add: dsub_def)
  then have "dle (Fin 0) (rtt_variance st)"
    using dlt_zero_cases unfolding rtt_variance_def Let_def a b by (auto simp del: dmul.simps)
  then show ?thesis using dsqrt_not_NaN fmt_f3_nan by blast
qed

theorem stddev_defined_witness:
  "fmt_f3 (dsqrt (rtt_variance (zero_stats\<lparr>n_recv := 2, sum_rtt := Fin 2, sum_sq := Fin 2\<rparr>))) \<noteq> ''nan''"
proof -
  have "wf_double (Fin (of_int 2))" by (rule wf_int) simp
  then show ?thesis
    using stddev_defined [of 2 2 "zero_stats\<lparr>n_recv := 2, sum_rtt := Fin 2, sum_sq := Fin 2\<rparr>"]
    by (simp add: zero_stats_def del: wf_double.simps)
qed

end
