(* ===== verification/Ping_Signal.thy ===== *)
theory Ping_Signal
  imports Ping_Types
begin

text \<open>
  \<open>src/core/ping_signal.c\<close>: the stop flag. The handler runs at any moment between two tests of
  the flag, and its only effect is to set it, so the k-th test sees the flag set if it was
  already, or if the operating system delivered SIGINT since the test before (\<open>os_sigint k\<close>).
\<close>

definition on_sigint :: "world \<Rightarrow> world" where
  "on_sigint w = w\<lparr>g_stop := True\<rparr>"

definition signal_install :: "world \<Rightarrow> int \<times> world" where
  "signal_install w = (case os_sigaction (env w) of
     Some err \<Rightarrow> (- 1, emit (Perror ''sigaction'' err) w)
   | None \<Rightarrow> (0, w))"

definition ping_should_stop :: "world \<Rightarrow> bool \<times> world" where
  "ping_should_stop w =
     (let w1 = (if os_sigint (env w) (k_sigint w) then on_sigint w else w);
          w2 = w1\<lparr>k_sigint := k_sigint w1 + 1\<rparr>
      in (g_stop w2, w2))"

definition ping_request_stop :: "world \<Rightarrow> world" where
  "ping_request_stop w = w\<lparr>g_stop := True\<rparr>"

lemma stop_tests:
  "fst (ping_should_stop w) \<longleftrightarrow> g_stop w \<or> os_sigint (env w) (k_sigint w)"
  "g_stop (snd (ping_should_stop w)) = fst (ping_should_stop w)"
  "fst (ping_should_stop (ping_request_stop w))"
  by (simp_all add: ping_should_stop_def ping_request_stop_def on_sigint_def Let_def)

text \<open>A stop request is never lost: once the flag is set, by SIGINT or by the send path, every
  later test sees it, and the test that follows a delivery of SIGINT sees that delivery.\<close>

theorem stop_is_sticky:
  "(fst (ping_should_stop w) \<longleftrightarrow> g_stop w \<or> os_sigint (env w) (k_sigint w)) \<and>
   g_stop (snd (ping_should_stop w)) = fst (ping_should_stop w) \<and>
   fst (ping_should_stop (snd (ping_should_stop (ping_request_stop w))))"
  by (simp add: ping_should_stop_def ping_request_stop_def on_sigint_def Let_def)

lemma should_stop_frame [simp]:
  "env (snd (ping_should_stop w)) = env w" "k_clock (snd (ping_should_stop w)) = k_clock w"
  "k_poll (snd (ping_should_stop w)) = k_poll w" "k_recv (snd (ping_should_stop w)) = k_recv w"
  "k_send (snd (ping_should_stop w)) = k_send w" "events (snd (ping_should_stop w)) = events w"
  "k_sigint (snd (ping_should_stop w)) = k_sigint w + 1"
  by (simp_all add: ping_should_stop_def on_sigint_def Let_def)

lemma request_stop_frame [simp]:
  "env (ping_request_stop w) = env w" "k_clock (ping_request_stop w) = k_clock w"
  "k_poll (ping_request_stop w) = k_poll w" "k_recv (ping_request_stop w) = k_recv w"
  "k_send (ping_request_stop w) = k_send w" "events (ping_request_stop w) = events w"
  "k_sigint (ping_request_stop w) = k_sigint w" "g_stop (ping_request_stop w)"
  by (simp_all add: ping_request_stop_def)

end
