(* ===== verification/Samples.thy ===== *)
theory Samples
  imports Ping_Types
begin

text \<open>
  Concrete inputs for the witnesses: an operating system whose clock advances by one second
  at each reading and which accepts everything, and a small context as \<open>ctx_init\<close> would
  build it for \<open>-s 4\<close>.
\<close>

definition sample_os :: os where
  "sample_os = \<lparr>os_endian = LE, os_clock = (\<lambda>k. \<lparr>tv_sec = 100 + int k, tv_nsec = 0\<rparr>),
     os_sigint = (\<lambda>_. False), os_poll = (\<lambda>_. PollTimeout), os_recv = (\<lambda>_. RecvError EAGAIN),
     os_send = (\<lambda>_. None), os_getaddrinfo = (\<lambda>_. GaiOk (127, 0, 0, 1)), os_geteuid = 0, os_posixly_correct = False,
     os_getpid = 4660, os_socket = None, os_setsockopt = (\<lambda>_. None), os_bind = (\<lambda>_. None),
     os_sigaction = None, os_malloc = (\<lambda>n. Some (replicate n 0)), os_calloc = True\<rparr>"

definition sample_ctx :: t_ping_ctx where
  "sample_ctx = zero_ctx\<lparr>dst := (127, 0, 0, 1), ipstr := ''127.0.0.1'', ctx_id := 0x3412,
     pkt := Some (replicate 12 0xAA), payload_len := 4, send_ts := Some (\<lambda>_. zero_ts),
     recvbuf := Some (replicate 1024 0), recvbuf_len := 1024\<rparr>"

definition sample_pattern_ctx :: t_ping_ctx where
  "sample_pattern_ctx = sample_ctx\<lparr>flags := zero_flags\<lparr>has_pattern := True,
     pattern := [0xDE, 0xAD] @ replicate 14 0, pattern_len := 2\<rparr>\<rparr>"

lemma boot_simps [simp]:
  "env (boot e) = e" "k_clock (boot e) = 0" "k_sigint (boot e) = 0" "k_poll (boot e) = 0"
  "k_recv (boot e) = 0" "k_send (boot e) = 0" "g_stop (boot e) = False" "events (boot e) = []"
  by (simp_all add: boot_def)

end
