(* ===== verification/Ping_Send.thy ===== *)
theory Ping_Send
  imports Ping_Checksum Ping_Output Ping_Signal Samples
begin

text \<open>
  \<open>src/net/ping_send.c\<close>: building and transmitting one echo request. The operations write the
  packet buffer byte by byte with checked writes, so that a result \<open>Some\<close> means no access
  outside it. The main theorem says what is on the wire: the abstract packet \<open>echo_request\<close>,
  whatever the buffer held before.
\<close>

section \<open>The timestamp ring\<close>

definition ring_get :: "t_ping_ctx \<Rightarrow> nat \<Rightarrow> timespec option" where
  "ring_get ctx i = (case send_ts ctx of None \<Rightarrow> None
     | Some r \<Rightarrow> if i < PING_TS_RING then Some (r i) else None)"

definition ring_put :: "t_ping_ctx \<Rightarrow> nat \<Rightarrow> timespec \<Rightarrow> t_ping_ctx option" where
  "ring_put ctx i t = (case send_ts ctx of None \<Rightarrow> None
     | Some r \<Rightarrow> if i < PING_TS_RING then Some (ctx\<lparr>send_ts := Some (r(i := t))\<rparr>) else None)"

definition ring_slot :: "u16 \<Rightarrow> nat" where
  "ring_slot sq = unat sq mod PING_TS_RING"

text \<open>\<open>struct timespec\<close> in memory: two 64-bit integers in host order.\<close>

definition sizeof_timespec :: nat where "sizeof_timespec = 16"

definition int64_bytes :: "endian \<Rightarrow> int \<Rightarrow> byte list" where
  "int64_bytes e n = (let le = map (\<lambda>k. word_of_int (n div 256 ^ k)) [0..<8]
     in case e of LE \<Rightarrow> le | BE \<Rightarrow> rev le)"

definition timespec_bytes :: "endian \<Rightarrow> timespec \<Rightarrow> byte list" where
  "timespec_bytes e t = int64_bytes e (tv_sec t) @ int64_bytes e (tv_nsec t)"

section \<open>Filling the payload\<close>

text \<open>
  The index \<open>i % (size_t)pattern_len\<close>: undefined for a zero length, and the conversion to
  \<open>size_t\<close> is modulo \<open>2^64\<close>.
\<close>

definition pattern_byte :: "t_flags \<Rightarrow> nat \<Rightarrow> byte option" where
  "pattern_byte f i = (let m = nat (pattern_len f mod 18446744073709551616)
     in if m = 0 then None else peek (pattern f) (i mod m))"

definition fill_pattern :: "t_ping_ctx \<Rightarrow> byte list \<Rightarrow> byte list option" where
  "fill_pattern ctx p =
     fill_loop (pattern_byte (flags ctx)) sizeof_icmp_hdr (payload_len ctx) 0 p"

definition fill_default :: "t_ping_ctx \<Rightarrow> u16 \<Rightarrow> world \<Rightarrow> byte list \<Rightarrow> byte list option" where
  "fill_default ctx sq w p =
     (if sizeof_timespec \<le> payload_len ctx
      then do {
        t \<leftarrow> ring_get ctx (ring_slot sq);
        p1 \<leftarrow> write_range p sizeof_icmp_hdr (timespec_bytes (host_endian w) t);
        fill_loop (\<lambda>i. Some (of_nat i)) sizeof_icmp_hdr (payload_len ctx) sizeof_timespec p1
      }
      else fill_loop (\<lambda>i. Some (of_nat i)) sizeof_icmp_hdr (payload_len ctx) 0 p)"

definition fill_payload :: "t_ping_ctx \<Rightarrow> u16 \<Rightarrow> world \<Rightarrow> (t_ping_ctx \<times> world) option" where
  "fill_payload ctx sq w = (let (t, w1) = clock_gettime w in
     do {
       ctx1 \<leftarrow> ring_put ctx (ring_slot sq) t;
       p \<leftarrow> pkt ctx1;
       p1 \<leftarrow> (if has_pattern (flags ctx1) then fill_pattern ctx1 p
              else fill_default ctx1 sq w1 p);
       Some (ctx1\<lparr>pkt := Some p1\<rparr>, w1)
     })"

section \<open>Sending\<close>

text \<open>The system call: the kernel takes the bytes and puts them on the wire, or refuses.\<close>

definition sendto :: "byte list \<Rightarrow> ipv4 \<Rightarrow> world \<Rightarrow> errno option \<times> world" where
  "sendto bytes to w =
     (let w1 = w\<lparr>k_send := k_send w + 1\<rparr>
      in case os_send (env w) (k_send w) of
           None \<Rightarrow> (None, emit (Sendto bytes to) w1)
         | Some err \<Rightarrow> (Some err, w1))"

definition send_one ::
  "t_ping_ctx \<Rightarrow> u16 \<Rightarrow> t_ping_stats \<Rightarrow> world \<Rightarrow>
     (int \<times> t_ping_ctx \<times> t_ping_stats \<times> world) option" where
  "send_one ctx sq st w =
     (let e = host_endian w; pktlen = sizeof_icmp_hdr + payload_len ctx in
      do {
        p0 \<leftarrow> pkt ctx;
        p1 \<leftarrow> poke p0 hdr_type 8;
        p2 \<leftarrow> poke p1 hdr_code 0;
        p3 \<leftarrow> poke16 e p2 hdr_id (ctx_id ctx);
        p4 \<leftarrow> poke16 e p3 hdr_sequence (htons e sq);
        (ctx1, w1) \<leftarrow> fill_payload (ctx\<lparr>pkt := Some p4\<rparr>) sq w;
        p5 \<leftarrow> pkt ctx1;
        p6 \<leftarrow> poke16 e p5 hdr_checksum 0;
        covered \<leftarrow> read_range p6 0 pktlen;
        p7 \<leftarrow> poke16 e p6 hdr_checksum (ft_checksum e covered);
        bytes \<leftarrow> read_range p7 0 pktlen;
        (let ctx2 = ctx1\<lparr>pkt := Some p7\<rparr>; (res, w2) = sendto bytes (dst ctx) w1
         in case res of
              Some err \<Rightarrow> Some (- 1, ctx2, st, emit (Perror ''Send'' err) w2)
            | None \<Rightarrow>
                (let st' = st\<lparr>n_sent := i32 (n_sent st + 1)\<rparr>;
                     w3 = (if flood (flags ctx) \<and> \<not> quiet (flags ctx)
                           then print_flood_send w2 else w2)
                 in Some (0, ctx2, st', w3)))
      })"

section \<open>The well-formed context\<close>

text \<open>
  What \<open>ctx_init\<close> establishes and the run keeps: the three buffers are allocated with the
  sizes the length fields say, and a pattern has a length its array can serve.
\<close>

definition wf_flags :: "t_flags \<Rightarrow> bool" where
  "wf_flags f \<longleftrightarrow> length (pattern f) = PING_PATTERN_MAX \<and>
     (has_pattern f \<longrightarrow> 1 \<le> pattern_len f \<and> pattern_len f \<le> int PING_PATTERN_MAX)"

definition wf_ctx :: "t_ping_ctx \<Rightarrow> bool" where
  "wf_ctx ctx \<longleftrightarrow> wf_flags (flags ctx) \<and> payload_len ctx \<le> 65507 \<and>
     (\<exists>p. pkt ctx = Some p \<and> length p = sizeof_icmp_hdr + payload_len ctx) \<and>
     send_ts ctx \<noteq> None \<and>
     (\<exists>b. recvbuf ctx = Some b \<and> length b = recvbuf_len ctx)"

section \<open>The abstract packet\<close>

definition payload_spec :: "t_ping_ctx \<Rightarrow> endian \<Rightarrow> timespec \<Rightarrow> byte list" where
  "payload_spec ctx e t =
     (let n = payload_len ctx; f = flags ctx in
      if has_pattern f then map (\<lambda>i. pattern f ! (i mod nat (pattern_len f))) [0..<n]
      else if sizeof_timespec \<le> n then timespec_bytes e t @ map of_nat [sizeof_timespec..<n]
      else map of_nat [0..<n])"

definition echo_request :: "t_ping_ctx \<Rightarrow> endian \<Rightarrow> u16 \<Rightarrow> timespec \<Rightarrow> byte list" where
  "echo_request ctx e sq t =
     (let body = (\<lambda>c0 c1. [8, 0, c0, c1, store16_0 e (ctx_id ctx), store16_1 e (ctx_id ctx),
                            hi8 sq, lo8 sq] @ payload_spec ctx e t);
          ck = ft_checksum e (body 0 0)
      in body (store16_0 e ck) (store16_1 e ck))"

lemma length_timespec_bytes [simp]: "length (timespec_bytes e t) = 16"
  by (cases e) (simp_all add: timespec_bytes_def int64_bytes_def)

lemma length_payload_spec [simp]: "length (payload_spec ctx e t) = payload_len ctx"
  by (simp add: payload_spec_def Let_def sizeof_timespec_def)

lemma ring_slot_lt [simp]: "ring_slot sq < PING_TS_RING"
  by (simp add: ring_slot_def PING_TS_RING_def)

lemma pattern_byte_ok:
  assumes "wf_flags f" "has_pattern f"
  shows "pattern_byte f i = Some (pattern f ! (i mod nat (pattern_len f)))"
proof -
  have b: "1 \<le> pattern_len f" "pattern_len f \<le> 16" "length (pattern f) = 16"
    using assms by (auto simp: wf_flags_def PING_PATTERN_MAX_def)
  then have m: "nat (pattern_len f mod 18446744073709551616) = nat (pattern_len f)" by simp
  have "i mod nat (pattern_len f) < nat (pattern_len f)" using b by simp
  then have "i mod nat (pattern_len f) < 16" using b by linarith
  then show ?thesis using b by (simp add: pattern_byte_def m peek_def Let_def)
qed

lemma fill_pattern_eq:
  assumes "wf_flags (flags ctx)" "has_pattern (flags ctx)" "length p = 8 + payload_len ctx"
  shows "fill_pattern ctx p = Some (take 8 p @ payload_spec ctx e t)"
  using assms
  by (simp add: fill_pattern_def fill_loop_eq [OF _ _ pattern_byte_ok [OF assms(1,2)]]
      sizeof_icmp_hdr_def payload_spec_def Let_def)

lemma fill_default_eq:
  assumes "length p = 8 + payload_len ctx" "\<not> has_pattern (flags ctx)"
    and "ring_get ctx (ring_slot sq) = Some t"
  shows "fill_default ctx sq w p = Some (take 8 p @ payload_spec ctx (host_endian w) t)"
proof (cases "16 \<le> payload_len ctx")
  case True
  let ?tb = "timespec_bytes (host_endian w) t" and ?n = "payload_len ctx"
  let ?p1 = "take 8 p @ ?tb @ drop 24 p"
  have w: "write_range p 8 ?tb = Some ?p1" using assms True by (simp add: write_range_def)
  have l: "length ?p1 = 8 + ?n" using assms True by simp
  have "fill_loop (\<lambda>i. Some (of_nat i)) 8 ?n 16 ?p1
      = Some (take (8 + 16) ?p1 @ map of_nat [16..<?n] @ drop (8 + ?n) ?p1)"
    by (rule fill_loop_eq) (use True l in simp_all)
  moreover have "take (8 + 16) ?p1 = take 8 p @ ?tb" "drop (8 + ?n) ?p1 = []"
    using assms True l by simp_all
  ultimately show ?thesis using True assms
    by (simp add: fill_default_def sizeof_icmp_hdr_def sizeof_timespec_def w payload_spec_def Let_def)
next
  case False
  have "fill_loop (\<lambda>i. Some (of_nat i)) 8 (payload_len ctx) 0 p
      = Some (take (8 + 0) p @ map of_nat [0..<payload_len ctx] @ drop (8 + payload_len ctx) p)"
    by (rule fill_loop_eq) (use assms in simp_all)
  then show ?thesis using False assms
    by (simp add: fill_default_def sizeof_icmp_hdr_def sizeof_timespec_def payload_spec_def Let_def)
qed

lemma fill_payload_eq:
  assumes "wf_flags (flags ctx)" "pkt ctx = Some p" "length p = 8 + payload_len ctx"
    and "send_ts ctx = Some r"
  shows "fill_payload ctx sq w =
    (let t = os_clock (env w) (k_clock w) in
     Some (ctx\<lparr>send_ts := Some (r(ring_slot sq := t)),
             pkt := Some (take 8 p @ payload_spec ctx (host_endian w) t)\<rparr>,
           w\<lparr>k_clock := k_clock w + 1\<rparr>))"
proof -
  define t where "t = os_clock (env w) (k_clock w)"
  define ctx1 where "ctx1 = ctx\<lparr>send_ts := Some (r(ring_slot sq := t))\<rparr>"
  define w1 where "w1 = w\<lparr>k_clock := k_clock w + 1\<rparr>"
  have same: "payload_spec ctx1 e t' = payload_spec ctx e t'" for e t'
    by (simp add: payload_spec_def ctx1_def)
  have put: "ring_put ctx (ring_slot sq) t = Some ctx1"
    using assms by (simp add: ring_put_def ctx1_def)
  have get: "ring_get ctx1 (ring_slot sq) = Some t" by (simp add: ring_get_def ctx1_def)
  have "(if has_pattern (flags ctx1) then fill_pattern ctx1 p else fill_default ctx1 sq w1 p)
      = Some (take 8 p @ payload_spec ctx (host_endian w) t)"
    using fill_pattern_eq [of ctx1 p "host_endian w" t] fill_default_eq [OF _ _ get, of p w1] assms
    by (simp add: same) (simp add: ctx1_def w1_def)
  moreover have "pkt ctx1 = Some p" using assms by (simp add: ctx1_def)
  ultimately have "fill_payload ctx sq w =
      Some (ctx1\<lparr>pkt := Some (take 8 p @ payload_spec ctx (host_endian w) t)\<rparr>, w1)"
    unfolding fill_payload_def clock_gettime_def t_def [symmetric] w1_def [symmetric] Let_def
    by (simp only: prod.case put Option.bind.simps)
  then show ?thesis by (simp add: ctx1_def w1_def t_def Let_def)
qed

lemma eight_bytes:
  assumes "8 \<le> length p"
  obtains a0 a1 a2 a3 a4 a5 a6 a7 q where "p = [a0, a1, a2, a3, a4, a5, a6, a7] @ q"
proof -
  have "take 8 p = map (\<lambda>i. p ! i) [0..<8]" using assms by (intro nth_equalityI) simp_all
  then have "take 8 p = [p ! 0, p ! 1, p ! 2, p ! 3, p ! 4, p ! 5, p ! 6, p ! 7]"
    by (simp add: upt_conv_Cons numeral_eq_Suc)
  then have "p = [p ! 0, p ! 1, p ! 2, p ! 3, p ! 4, p ! 5, p ! 6, p ! 7] @ drop 8 p"
    by (metis append_take_drop_id)
  then show ?thesis by (rule that)
qed

text \<open>What sending does to the world when the kernel accepts, and when it refuses.\<close>

definition after_send :: "t_ping_ctx \<Rightarrow> byte list \<Rightarrow> world \<Rightarrow> world" where
  "after_send ctx packet w =
     w\<lparr>k_clock := k_clock w + 1, k_send := k_send w + 1,
       events := events w @ (case os_send (env w) (k_send w) of
           None \<Rightarrow> Sendto packet (dst ctx)
                     # (if flood (flags ctx) \<and> \<not> quiet (flags ctx) then [Stdout ''.''] else [])
         | Some err \<Rightarrow> [Perror ''Send'' err])\<rparr>"

lemma send_one_eq:
  assumes wf: "wf_ctx ctx" and r: "send_ts ctx = Some r"
  shows "let t = os_clock (env w) (k_clock w);
             packet = echo_request ctx (host_endian w) sq t
    in send_one ctx sq st w =
    Some (if os_send (env w) (k_send w) = None then 0 else - 1,
          ctx\<lparr>send_ts := Some (r(ring_slot sq := t)), pkt := Some packet\<rparr>,
          if os_send (env w) (k_send w) = None then st\<lparr>n_sent := i32 (n_sent st + 1)\<rparr> else st,
          after_send ctx packet w)"
proof -
  let ?e = "host_endian w" and ?n = "payload_len ctx"
  define t where "t = os_clock (env w) (k_clock w)"
  define packet where "packet = echo_request ctx ?e sq t"
  obtain p where p: "pkt ctx = Some p" "length p = 8 + ?n"
    using wf by (auto simp: wf_ctx_def sizeof_icmp_hdr_def)
  have wff: "wf_flags (flags ctx)" using wf by (simp add: wf_ctx_def)
  obtain a0 a1 a2 a3 a4 a5 a6 a7 q where
    q: "p = [a0, a1, a2, a3, a4, a5, a6, a7] @ q" "length q = ?n"
    by (rule eight_bytes [of p]) (use p in auto)
  define i0 i1 where "i0 = store16_0 ?e (ctx_id ctx)" and "i1 = store16_1 ?e (ctx_id ctx)"
  define body where "body = (\<lambda>c0 c1. [8, 0, c0, c1, i0, i1, hi8 sq, lo8 sq] @ payload_spec ctx ?e t)"
  define ck where "ck = ft_checksum ?e (body 0 0)"
  have packet: "packet = body (store16_0 ?e ck) (store16_1 ?e ck)"
    by (simp add: packet_def echo_request_def body_def ck_def i0_def i1_def Let_def)
  have len: "length (body x y) = 8 + ?n" for x y by (simp add: body_def)
  define p4 where "p4 = [8, 0, a2, a3, i0, i1, hi8 sq, lo8 sq] @ q"
  define ctx1 where "ctx1 = ctx\<lparr>send_ts := Some (r(ring_slot sq := t))\<rparr>"
  have fp: "fill_payload (ctx\<lparr>pkt := Some p4\<rparr>) sq w =
      Some (ctx1\<lparr>pkt := Some (body a2 a3)\<rparr>, w\<lparr>k_clock := k_clock w + 1\<rparr>)"
  proof -
    have "payload_spec (ctx\<lparr>pkt := Some p4\<rparr>) ?e t = payload_spec ctx ?e t"
      by (simp add: payload_spec_def)
    then show ?thesis
      using fill_payload_eq [of "ctx\<lparr>pkt := Some p4\<rparr>" p4 r sq w] wff r q(2)
      by (simp add: p4_def body_def ctx1_def t_def Let_def)
  qed
  have hdr: "do { p1 \<leftarrow> poke p hdr_type 8; p2 \<leftarrow> poke p1 hdr_code 0;
                  p3 \<leftarrow> poke16 ?e p2 hdr_id (ctx_id ctx);
                  p4 \<leftarrow> poke16 ?e p3 hdr_sequence (htons ?e sq); f p4 } = f p4" for f :: "_ \<Rightarrow> 'b option"
    by (simp add: q p4_def poke_def poke16_def icmp_layout store_htons i0_def i1_def)
  have c1: "poke16 ?e (body a2 a3) hdr_checksum 0 = Some (body 0 0)"
    by (cases ?e) (simp_all add: poke16_def body_def icmp_layout lo8_def hi8_def)
  have c2: "read_range (body x y) 0 (sizeof_icmp_hdr + ?n) = Some (body x y)" for x y
    by (simp add: read_range_def len sizeof_icmp_hdr_def)
  have c3: "poke16 ?e (body 0 0) hdr_checksum ck = Some packet"
    by (simp add: packet poke16_def body_def icmp_layout)
  have c4: "read_range packet 0 (sizeof_icmp_hdr + ?n) = Some packet"
    unfolding packet by (rule c2)
  show ?thesis
    unfolding t_def [symmetric] packet_def [symmetric] send_one_def Let_def p(1) Option.bind.simps hdr fp prod.case
    by (cases "os_send (env w) (k_send w)")
      (simp_all add: c1 c2 c3 c4 ck_def [symmetric] sendto_def after_send_def emit_def
        print_flood_send_def Let_def ctx1_def)
qed

lemma wf_sample [simp]: "wf_ctx sample_ctx" "wf_ctx sample_pattern_ctx"
  by (simp_all add: wf_ctx_def wf_flags_def sample_ctx_def sample_pattern_ctx_def zero_ctx_def
      zero_flags_def PING_PATTERN_MAX_def sizeof_icmp_hdr_def)

text \<open>C11. \<open>send_one\<close> is memory-safe and its packet depends on nothing but the probe: for every
  well-formed context it completes without an access outside the buffers, and hands the
  kernel exactly the RFC 792 echo request of the abstract description (type 8, code 0, the
  identifier, the sequence number in network order, the pattern or timestamp payload, the
  checksum of all of it), however the buffer was filled before. The counter goes up exactly
  when the kernel accepted the packet, and the send time is stored in the slot of its
  sequence number.\<close>

theorem send_one_spec:
  assumes wf: "wf_ctx ctx" and r: "send_ts ctx = Some r"
  shows "let t = os_clock (env w) (k_clock w);
             packet = echo_request ctx (host_endian w) sq t
    in send_one ctx sq st w =
    Some (if os_send (env w) (k_send w) = None then 0 else - 1,
          ctx\<lparr>send_ts := Some (r(ring_slot sq := t)), pkt := Some packet\<rparr>,
          if os_send (env w) (k_send w) = None then st\<lparr>n_sent := i32 (n_sent st + 1)\<rparr> else st,
          after_send ctx packet w)"
  by (rule send_one_eq [OF assms])

theorem send_one_spec_witness:
  "\<exists>c st w. send_one sample_ctx 7 zero_stats (boot sample_os) = Some (0, c, st, w) \<and>
     n_sent st = 1 \<and> pkt c = Some (echo_request sample_ctx LE 7 \<lparr>tv_sec = 100, tv_nsec = 0\<rparr>)"
proof -
  have r: "send_ts sample_ctx = Some (\<lambda>_. zero_ts)" by (simp add: sample_ctx_def)
  show ?thesis
    using send_one_spec [OF wf_sample(1) r, of "boot sample_os" 7 zero_stats]
    by (simp add: Let_def sample_os_def zero_stats_def)
qed

lemma wf_ctx_ring: "wf_ctx ctx \<Longrightarrow> \<exists>r. send_ts ctx = Some r"
  by (auto simp: wf_ctx_def)

text \<open>Sending keeps the context well formed, and touches only the ring and the packet buffer.\<close>

lemma length_echo_request [simp]: "length (echo_request ctx e sq t) = 8 + payload_len ctx"
  by (simp add: echo_request_def Let_def)

lemma wf_ctx_after_send [simp]:
  "wf_ctx ctx \<Longrightarrow> wf_ctx (ctx\<lparr>send_ts := Some r, pkt := Some (echo_request ctx e sq t)\<rparr>)"
  by (auto simp: wf_ctx_def sizeof_icmp_hdr_def)

text \<open>The wire format does not depend on the host: a little-endian and a big-endian machine,
  each with its own representation of the identifier, put the same bytes of a \<open>-p\<close> probe on
  the wire.\<close>

theorem echo_request_host_independent:
  assumes "has_pattern (flags ctx)" "payload_len ctx \<le> 65507"
  shows "echo_request (ctx\<lparr>ctx_id := htons LE i\<rparr>) LE sq t
    = echo_request (ctx\<lparr>ctx_id := htons BE i\<rparr>) BE sq t"
proof -
  define m where "m = [8, 0, 0, 0, hi8 i, lo8 i, hi8 sq, lo8 sq] @ payload_spec ctx LE t"
  have p: "payload_spec (ctx\<lparr>ctx_id := j\<rparr>) e t = payload_spec ctx LE t" for j e
    using assms by (simp add: payload_spec_def Let_def)
  have "length m \<le> 131074" using assms by (simp add: m_def)
  from ft_checksum_host_bytes [OF this] show ?thesis
    by (simp add: echo_request_def Let_def p store_htons del: htons.simps store16_0.simps
        store16_1.simps flip: m_def)
      (simp add: m_def)
qed

theorem echo_request_host_independent_witness:
  "echo_request (sample_pattern_ctx\<lparr>ctx_id := htons LE 7\<rparr>) LE 1 zero_ts
    = echo_request (sample_pattern_ctx\<lparr>ctx_id := htons BE 7\<rparr>) BE 1 zero_ts"
  by (rule echo_request_host_independent)
    (simp_all add: sample_pattern_ctx_def sample_ctx_def zero_flags_def)

section \<open>How long a timestamp survives\<close>

text \<open>
  The receive path reads the ring through two laws only: a slot holds what was last put into
  it, and a put changes no other slot.
\<close>

fun put_all :: "('c \<Rightarrow> nat \<Rightarrow> 't \<Rightarrow> 'c option) \<Rightarrow> 'c \<Rightarrow> (nat \<times> 't) list \<Rightarrow> 'c option" where
  "put_all put c [] = Some c"
| "put_all put c ((i, t) # ps) = do { c' \<leftarrow> put c i t; put_all put c' ps }"

locale slot_store =
  fixes get :: "'c \<Rightarrow> nat \<Rightarrow> 't option" and put :: "'c \<Rightarrow> nat \<Rightarrow> 't \<Rightarrow> 'c option"
  assumes get_same: "put c i t = Some c' \<Longrightarrow> get c' i = Some t"
    and get_other: "put c i t = Some c' \<Longrightarrow> j \<noteq> i \<Longrightarrow> get c' j = get c j"
begin

lemma get_untouched:
  "put_all put c ps = Some c' \<Longrightarrow> i \<notin> fst ` set ps \<Longrightarrow> get c' i = get c i"
proof (induction ps arbitrary: c)
  case (Cons p ps)
  obtain j t where p: "p = (j, t)" by (cases p)
  with Cons.prems obtain d where d: "put c j t = Some d" "put_all put d ps = Some c'"
    by (auto split: Option.bind_splits)
  then have "get c' i = get d i" using Cons p by auto
  also have "\<dots> = get c i" using d(1) Cons.prems p by (intro get_other) auto
  finally show ?case .
qed simp

lemma get_last:
  assumes "put_all put c (ps @ (i, t) # qs) = Some c'" "i \<notin> fst ` set qs"
  shows "get c' i = Some t"
  using assms
proof (induction ps arbitrary: c)
  case Nil
  then obtain d where d: "put c i t = Some d" "put_all put d qs = Some c'"
    by (auto split: Option.bind_splits)
  then show ?case using get_untouched [OF d(2)] get_same [OF d(1)] Nil by simp
next
  case (Cons p ps)
  then show ?case by (cases p) (auto split: Option.bind_splits)
qed

end

interpretation ring: slot_store ring_get ring_put
  by unfold_locales (auto simp: ring_get_def ring_put_def split: option.splits if_splits)

text \<open>The puts of \<open>n\<close> consecutive probes, the first with sequence number \<open>sq\<close>.\<close>

definition probe_puts :: "u16 \<Rightarrow> (nat \<Rightarrow> timespec) \<Rightarrow> nat \<Rightarrow> (nat \<times> timespec) list" where
  "probe_puts sq ts n = map (\<lambda>k. (ring_slot (sq + of_nat k), ts k)) [0..<n]"

lemma ring_slot_inj: "ring_slot a = ring_slot b \<longleftrightarrow> a = b"
  using unat_u16_lt [of a] unat_u16_lt [of b]
  by (simp add: ring_slot_def PING_TS_RING_def word_unat_eq_iff)

lemma ring_slot_distinct:
  assumes "j < k" "k < j + 65536"
  shows "ring_slot (sq + of_nat k) \<noteq> ring_slot (sq + of_nat j)"
proof
  assume "ring_slot (sq + of_nat k) = ring_slot (sq + of_nat j)"
  then have "(of_nat k :: u16) = of_nat j" by (simp add: ring_slot_inj)
  then have "(of_nat (k - j) :: u16) = 0" using assms by (simp add: of_nat_diff)
  then have "65536 dvd k - j" by (simp add: word_of_nat_eq_0_iff)
  then show False using assms by (auto dest: dvd_imp_le)
qed

lemma probe_puts_split:
  assumes "j < n"
  shows "probe_puts sq ts n = probe_puts sq ts j @ (ring_slot (sq + of_nat j), ts j)
    # map (\<lambda>k. (ring_slot (sq + of_nat k), ts k)) [Suc j..<n]"
proof -
  have "[0..<n] = [0..<j] @ j # [Suc j..<n]"
    using assms by (metis append_Cons append_Nil less_imp_le_nat upt_add_eq_append upt_conv_Cons
        le0 le_add_diff_inverse)
  then show ?thesis by (simp add: probe_puts_def)
qed

text \<open>C36. A reply is timed against its own probe as long as no more than 65535 probes were sent
  after it: the ring still holds the send time of probe \<open>j\<close> after any \<open>n\<close> consecutive probes,
  across the wrap-around of the 16-bit sequence number, when \<open>n\<close> is at most \<open>j + 65536\<close>.\<close>

theorem timestamp_survives:
  assumes "put_all ring_put ctx (probe_puts sq ts n) = Some ctx'"
    and "j < n" "n \<le> j + 65536"
  shows "ring_get ctx' (ring_slot (sq + of_nat j)) = Some (ts j)"
  using assms(1) unfolding probe_puts_split [OF assms(2)]
proof (rule ring.get_last)
  show "ring_slot (sq + of_nat j)
      \<notin> fst ` set (map (\<lambda>k. (ring_slot (sq + of_nat k), ts k)) [Suc j..<n])"
  proof
    assume "ring_slot (sq + of_nat j)
      \<in> fst ` set (map (\<lambda>k. (ring_slot (sq + of_nat k), ts k)) [Suc j..<n])"
    then obtain k where k: "Suc j \<le> k" "k < n"
      "ring_slot (sq + of_nat k) = ring_slot (sq + of_nat j)" by auto
    show False using ring_slot_distinct [of j k sq] k assms(3) by simp
  qed
qed

theorem timestamp_survives_witness:
  "\<exists>c. put_all ring_put sample_ctx (probe_puts 65535 (\<lambda>k. \<lparr>tv_sec = int k, tv_nsec = 0\<rparr>) 2) = Some c \<and>
     ring_get c (ring_slot 65535) = Some \<lparr>tv_sec = 0, tv_nsec = 0\<rparr>"
proof -
  let ?p = "probe_puts 65535 (\<lambda>k. \<lparr>tv_sec = int k, tv_nsec = 0\<rparr>) 2"
  obtain c where c: "put_all ring_put sample_ctx ?p = Some c"
    by (simp add: probe_puts_def ring_put_def sample_ctx_def upt_conv_Cons numeral_2_eq_2)
  show ?thesis using timestamp_survives [OF c, of 0] c by simp
qed

text \<open>One probe more and the slot is reused: the reply to probe \<open>j\<close> is then timed against
  probe \<open>j + 65536\<close>, which carries the same sequence number.\<close>

theorem timestamp_overwritten:
  assumes "put_all ring_put ctx (probe_puts sq ts (j + 65537)) = Some ctx'"
  shows "ring_get ctx' (ring_slot (sq + of_nat j)) = Some (ts (j + 65536))"
proof -
  have w: "(of_nat (j + 65536) :: u16) = of_nat j" by simp
  have "put_all ring_put ctx (probe_puts sq ts (j + 65536)
      @ (ring_slot (sq + of_nat (j + 65536)), ts (j + 65536)) # []) = Some ctx'"
    using assms probe_puts_split [of "j + 65536" "j + 65537" sq ts] by simp
  from ring.get_last [OF this] show ?thesis unfolding w by simp
qed

lemma put_all_ring: "send_ts c \<noteq> None \<Longrightarrow> \<forall>(i, t) \<in> set ps. i < PING_TS_RING \<Longrightarrow>
  \<exists>c'. put_all ring_put c ps = Some c'"
proof (induction ps arbitrary: c)
  case (Cons p ps)
  obtain i t where p: "p = (i, t)" by (cases p)
  obtain d where d: "ring_put c i t = Some d" "send_ts d \<noteq> None"
    using Cons.prems p by (auto simp: ring_put_def)
  then show ?case using Cons.IH [OF d(2)] Cons.prems p by auto
qed simp

theorem timestamp_overwritten_witness:
  "\<exists>c. put_all ring_put sample_ctx (probe_puts 0 (\<lambda>k. \<lparr>tv_sec = int k, tv_nsec = 0\<rparr>) (3 + 65537)) = Some c \<and>
     ring_get c (ring_slot (0 + of_nat 3)) = Some \<lparr>tv_sec = int (3 + 65536), tv_nsec = 0\<rparr>"
proof -
  let ?p = "probe_puts 0 (\<lambda>k. \<lparr>tv_sec = int k, tv_nsec = 0\<rparr>) (3 + 65537)"
  have "\<exists>c. put_all ring_put sample_ctx ?p = Some c"
    by (rule put_all_ring) (auto simp: sample_ctx_def probe_puts_def)
  then obtain c where c: "put_all ring_put sample_ctx ?p = Some c" by blast
  show ?thesis using timestamp_overwritten [OF c] c by blast
qed

end
