(* ===== verification/Ping_Icmp_Error.thy ===== *)
theory Ping_Icmp_Error
  imports Ping_Send
begin

text \<open>
  \<open>src/net/ping_icmp_error.c\<close>: ICMP packets that are not echo replies. Pointers into the
  receive buffer are offsets; \<open>n\<close> is the number of bytes the datagram delivered, and a read at
  or past \<open>n\<close> is \<open>None\<close>, even where the buffer is longer: the bytes there are left over from
  an earlier datagram.
\<close>

section \<open>Reading a received datagram\<close>

definition rd8 :: "byte list \<Rightarrow> nat \<Rightarrow> nat \<Rightarrow> byte option" where
  "rd8 buf n i = (if i < n then peek buf i else None)"

definition rd16 :: "endian \<Rightarrow> byte list \<Rightarrow> nat \<Rightarrow> nat \<Rightarrow> u16 option" where
  "rd16 e buf n i = (if i + 2 \<le> n then peek16 e buf i else None)"

definition rd_addr :: "byte list \<Rightarrow> nat \<Rightarrow> nat \<Rightarrow> ipv4 option" where
  "rd_addr buf n i = do { a \<leftarrow> rd8 buf n i; b \<leftarrow> rd8 buf n (i + 1);
     c \<leftarrow> rd8 buf n (i + 2); d \<leftarrow> rd8 buf n (i + 3); Some (a, b, c, d) }"

text \<open>The members of \<open>struct ip\<close> the program reads: \<open>ip_hl\<close> is the low half of the first byte.\<close>

definition sizeof_ip :: nat where "sizeof_ip = 20"
definition ip_ttl_off :: nat where "ip_ttl_off = 8"
definition ip_src_off :: nat where "ip_src_off = 12"

definition ip_hl :: "byte \<Rightarrow> nat" where
  "ip_hl b = unat (b AND 15)"

lemmas ip_layout = sizeof_ip_def ip_ttl_off_def ip_src_off_def

section \<open>Operations\<close>

definition is_icmp_error_type :: "byte \<Rightarrow> bool" where
  "is_icmp_error_type ty \<longleftrightarrow> ty = 3 \<or> ty = 4 \<or> ty = 5 \<or> ty = 11 \<or> ty = 12"

text \<open>The inner \<open>None\<close> is the \<open>NULL\<close> pointer.\<close>

definition quoted_probe :: "byte list \<Rightarrow> nat \<Rightarrow> nat \<Rightarrow> nat \<Rightarrow> nat option option" where
  "quoted_probe buf reply ihl n =
     (let quote_off = ihl + sizeof_icmp_hdr in
      if n < quote_off + sizeof_ip then Some None
      else do {
        let inner_ip = reply + sizeof_icmp_hdr;
        b \<leftarrow> rd8 buf n inner_ip;
        let inner_ihl = ip_hl b * 4;
        (if inner_ihl < sizeof_ip then Some None
         else if n < quote_off + inner_ihl + sizeof_icmp_hdr then Some None
         else Some (Some (inner_ip + inner_ihl)))
      })"

definition handle_icmp_error ::
  "t_ping_ctx \<Rightarrow> byte list \<Rightarrow> nat \<Rightarrow> nat \<Rightarrow> nat \<Rightarrow> nat \<Rightarrow> world \<Rightarrow> world option" where
  "handle_icmp_error ctx buf ip ihl reply n w = do {
     ty \<leftarrow> rd8 buf n (reply + hdr_type);
     (if \<not> is_icmp_error_type ty then Some w
      else do {
        q \<leftarrow> quoted_probe buf reply ihl n;
        (case q of
           None \<Rightarrow> Some w
         | Some inner_icmp \<Rightarrow> do {
             inner_id \<leftarrow> rd16 (host_endian w) buf n (inner_icmp + hdr_id);
             (if inner_id \<noteq> ctx_id ctx \<and> \<not> verbose (flags ctx) then Some w
              else if quiet (flags ctx) \<or> quiet_errors (flags ctx) then Some w
              else do {
                src \<leftarrow> rd_addr buf n (ip + ip_src_off);
                sq \<leftarrow> rd16 (host_endian w) buf n (inner_icmp + hdr_sequence);
                code \<leftarrow> rd8 buf n (reply + hdr_code);
                Some (print_icmp_error (dotted_quad src) (ntohs (host_endian w) sq) ty code w)
              })
           })
      })
   }"

section \<open>Only the datagram matters\<close>

lemma rd8_append [simp]: "rd8 (dg @ rest) (length dg) i = rd8 dg (length dg) i"
  by (simp add: rd8_def peek_def nth_append)

lemma rd16_append [simp]: "rd16 e (dg @ rest) (length dg) i = rd16 e dg (length dg) i"
  by (simp add: rd16_def peek16_def nth_append)

lemma rd_addr_append [simp]: "rd_addr (dg @ rest) (length dg) i = rd_addr dg (length dg) i"
  by (simp add: rd_addr_def)

lemma quoted_probe_append [simp]:
  "quoted_probe (dg @ rest) reply ihl (length dg) = quoted_probe dg reply ihl (length dg)"
  unfolding quoted_probe_def rd8_append ..

lemma handle_icmp_error_append [simp]:
  "handle_icmp_error ctx (dg @ rest) ip ihl reply (length dg) w
    = handle_icmp_error ctx dg ip ihl reply (length dg) w"
  unfolding handle_icmp_error_def rd8_append rd16_append rd_addr_append quoted_probe_append ..

lemma rd8_ok [buf_simps]: "i < length dg \<Longrightarrow> rd8 dg (length dg) i = Some (dg ! i)"
  by (simp add: rd8_def peek_def)

lemma rd16_ok [buf_simps]:
  "i + 2 \<le> length dg \<Longrightarrow> rd16 e dg (length dg) i = Some (load16 e (dg ! i) (dg ! (i + 1)))"
  by (simp add: rd16_def peek16_def)

lemma rd_addr_ok [buf_simps]:
  "i + 4 \<le> length dg \<Longrightarrow>
     rd_addr dg (length dg) i = Some (dg ! i, dg ! (i + 1), dg ! (i + 2), dg ! (i + 3))"
  by (simp add: rd_addr_def rd8_def peek_def)

text \<open>\<open>ntohs\<close> of a field is its value in network order.\<close>

lemma htons_load16: "htons e (load16 e a b) = load16 BE a b"
proof -
  have "load16 LE b a = load16 BE a b" by (simp add: load16.simps)
  then show ?thesis by (cases e) simp_all
qed

section \<open>What a quoted probe is\<close>

text \<open>
  The specification of the walk: the error, whose own IP header has \<open>ihl\<close> bytes, quotes an IP
  header of a sane length followed by at least the 8 bytes of an ICMP header; the result is
  where that header starts.
\<close>

definition quote_at :: "byte list \<Rightarrow> nat \<Rightarrow> nat option" where
  "quote_at dg ihl =
     (let q = ihl + 8; inner = 4 * unat (dg ! q AND 15) in
      if q + 20 \<le> length dg \<and> 20 \<le> inner \<and> q + inner + 8 \<le> length dg
      then Some (q + inner) else None)"

lemma quoted_probe_spec:
  assumes "ihl + 8 \<le> length dg"
  shows "quoted_probe dg ihl ihl (length dg) = Some (quote_at dg ihl)"
  using assms
  by (auto simp: quoted_probe_def quote_at_def ip_hl_def Let_def rd8_def peek_def ip_layout
      icmp_layout mult.commute not_less)

lemma quote_at_bounds: "quote_at dg ihl = Some q \<Longrightarrow> q + 8 \<le> length dg \<and> ihl + 28 \<le> q"
  by (auto simp: quote_at_def Let_def split: if_splits)

text \<open>The same effect as a function of the datagram, for the receive path.\<close>

definition icmp_error_report :: "t_ping_ctx \<Rightarrow> byte list \<Rightarrow> nat \<Rightarrow> world \<Rightarrow> world" where
  "icmp_error_report ctx dg ihl w =
    (case quote_at dg ihl of
       Some q \<Rightarrow>
         if is_icmp_error_type (dg ! ihl)
           \<and> (load16 (host_endian w) (dg ! (q + 4)) (dg ! (q + 5)) = ctx_id ctx \<or> verbose (flags ctx))
           \<and> \<not> quiet (flags ctx) \<and> \<not> quiet_errors (flags ctx)
         then print_icmp_error (dotted_quad (dg ! 12, dg ! 13, dg ! 14, dg ! 15))
                (load16 BE (dg ! (q + 6)) (dg ! (q + 7))) (dg ! ihl) (dg ! (ihl + 1)) w
         else w
     | None \<Rightarrow> w)"

lemma handle_icmp_error_report:
  assumes "20 \<le> ihl" "ihl + 8 \<le> length dg"
  shows "handle_icmp_error ctx dg 0 ihl ihl (length dg) w = Some (icmp_error_report ctx dg ihl w)"
proof (cases "quote_at dg ihl")
  case None
  with assms show ?thesis
    by (auto simp: handle_icmp_error_def icmp_error_report_def icmp_layout buf_simps quoted_probe_spec)
next
  case (Some q)
  with assms quote_at_bounds [OF Some] show ?thesis
    by (auto simp: handle_icmp_error_def icmp_error_report_def icmp_layout ip_layout buf_simps
        quoted_probe_spec htons_load16 add.commute eval_nat_numeral)
qed

lemma icmp_error_report_frame [simp]:
  "env (icmp_error_report ctx dg ihl w) = env w" "k_clock (icmp_error_report ctx dg ihl w) = k_clock w"
  "k_recv (icmp_error_report ctx dg ihl w) = k_recv w" "k_send (icmp_error_report ctx dg ihl w) = k_send w"
  "k_poll (icmp_error_report ctx dg ihl w) = k_poll w"
  "k_sigint (icmp_error_report ctx dg ihl w) = k_sigint w"
  "g_stop (icmp_error_report ctx dg ihl w) = g_stop w"
  by (auto simp: icmp_error_report_def print_icmp_error_def split: option.splits)

text \<open>C13. The error path is memory-safe and never counts: for every datagram with a complete ICMP
  header it reads only bytes that arrived, and it prints one line exactly when the packet is
  one of the five error types, quotes a complete probe that is ours (or \<open>-v\<close> is given) and
  neither \<open>-q\<close> nor \<open>-Q\<close> is set. The line carries the sequence number of the quoted probe.
  Two sentences of the documentation say something else: \<open>-v\<close> is to list every ICMP message
  received other than echo replies, but a message of another type, or an error that quotes less
  than a complete probe, is never listed; \<open>-Q\<close> is to hide errors about our own packets, but it
  hides the errors about packets of other processes too, also when \<open>-v\<close> asks for them.\<close>

theorem handle_icmp_error_spec:
  assumes "20 \<le> ihl" "ihl + 8 \<le> length dg"
  shows "handle_icmp_error ctx dg 0 ihl ihl (length dg) w =
    Some (case quote_at dg ihl of
       Some q \<Rightarrow>
         if is_icmp_error_type (dg ! ihl)
           \<and> (load16 (host_endian w) (dg ! (q + 4)) (dg ! (q + 5)) = ctx_id ctx \<or> verbose (flags ctx))
           \<and> \<not> quiet (flags ctx) \<and> \<not> quiet_errors (flags ctx)
         then print_icmp_error (dotted_quad (dg ! 12, dg ! 13, dg ! 14, dg ! 15))
                (load16 BE (dg ! (q + 6)) (dg ! (q + 7))) (dg ! ihl) (dg ! (ihl + 1)) w
         else w
     | None \<Rightarrow> w)"
  unfolding handle_icmp_error_report [OF assms] icmp_error_report_def ..

text \<open>A \<open>Time to live exceeded\<close> from 10.0.0.1 quoting our probe 5.\<close>

definition sample_error :: "byte list" where
  "sample_error = [0x45, 0, 0, 56, 0, 0, 0, 0, 64, 1, 0, 0, 10, 0, 0, 1, 127, 0, 0, 1]
     @ [11, 0, 0, 0, 0, 0, 0, 0]
     @ [0x45, 0, 0, 32, 0, 0, 0, 0, 1, 1, 0, 0, 127, 0, 0, 1, 127, 0, 0, 1]
     @ [8, 0, 0, 0, 0x12, 0x34, 0, 5]"

theorem handle_icmp_error_spec_witness:
  "map_option events (handle_icmp_error sample_ctx sample_error 0 20 20 (length sample_error)
     (boot sample_os)) = Some [Stdout (''From 10.0.0.1 icmp_seq=5 Time to live exceeded'' @ nl)]"
proof -
  have len: "(20 :: nat) \<le> 20" "20 + 8 \<le> length sample_error" by (simp_all add: sample_error_def)
  have q: "quote_at sample_error 20 = Some 48" by (simp add: quote_at_def sample_error_def)
  have id: "load16 LE 0x12 0x34 = 0x3412" "load16 BE 0 5 = 5" by (simp_all add: load16.simps)
  have d: "dec 10 = ''10''" "dec 0 = ''0''" "dec 1 = ''1''" "dec 5 = ''5''" by code_simp+
  show ?thesis
    unfolding handle_icmp_error_spec [OF len] q
    by (simp add: sample_error_def sample_os_def sample_ctx_def zero_ctx_def zero_flags_def id d
        is_icmp_error_type_def print_icmp_error_def icmp_error_desc_def)
qed

end
