(* ===== verification/Ping_Receive.thy ===== *)
theory Ping_Receive
  imports Ping_Icmp_Error
begin

text \<open>
  \<open>src/net/ping_receive.c\<close>: draining the socket. One pass of the loop is \<open>receive_step\<close>; the
  loop itself, which the code ends only when \<open>recvfrom\<close> fails, takes a bound on its passes
  and is \<open>None\<close> when the bound is not enough. The theory gives the abstract meaning of a
  datagram (\<open>classify\<close>), shows that a pass computes exactly that and reads nothing else, and
  says when the drain ends.
\<close>

section \<open>Operations\<close>

definition classify_recv_error :: "errno \<Rightarrow> world \<Rightarrow> int \<times> world" where
  "classify_recv_error err w =
     (if err = EAGAIN \<or> err = EWOULDBLOCK then (0, w)
      else if err = EINTR then (0, w)
      else (- 1, emit (Perror ''recvfrom'' err) w))"

text \<open>
  The system call copies at most \<open>recvbuf_len\<close> bytes of the next datagram to the front of the
  buffer and returns how many (the rest of a longer datagram is lost).
\<close>

definition recvfrom :: "t_ping_ctx \<Rightarrow> world \<Rightarrow> ((errno + nat) \<times> t_ping_ctx \<times> world) option" where
  "recvfrom ctx w =
     (let w1 = w\<lparr>k_recv := k_recv w + 1\<rparr> in
      case os_recv (env w) (k_recv w) of
        RecvError err \<Rightarrow> Some (Inl err, ctx, w1)
      | RecvData d \<Rightarrow> do {
          buf \<leftarrow> recvbuf ctx;
          let got = take (recvbuf_len ctx) d;
          buf1 \<leftarrow> write_range buf 0 got;
          Some (Inr (length got), ctx\<lparr>recvbuf := Some buf1\<rparr>, w1)
        })"

text \<open>The header length, or -1; the IP header is at offset 0 and the ICMP header at the result.\<close>

definition locate_icmp :: "byte list \<Rightarrow> nat \<Rightarrow> int option" where
  "locate_icmp buf n =
     (if n < sizeof_ip then Some (- 1)
      else do {
        b \<leftarrow> rd8 buf n 0;
        let ihl = ip_hl b * 4;
        (if ihl < sizeof_ip then Some (- 1)
         else if n < ihl + sizeof_icmp_hdr then Some (- 1)
         else Some (int ihl))
      })"

definition checksum_ok :: "endian \<Rightarrow> byte list \<Rightarrow> nat \<Rightarrow> nat \<Rightarrow> (bool \<times> byte list) option" where
  "checksum_ok e buf reply icmp_bytes = do {
     claimed \<leftarrow> peek16 e buf (reply + hdr_checksum);
     buf1 \<leftarrow> poke16 e buf (reply + hdr_checksum) 0;
     covered \<leftarrow> read_range buf1 reply icmp_bytes;
     let computed = ft_checksum e covered;
     buf2 \<leftarrow> poke16 e buf1 (reply + hdr_checksum) claimed;
     Some (computed = claimed, buf2)
   }"

definition add_rtt :: "double \<Rightarrow> t_ping_stats \<Rightarrow> t_ping_stats" where
  "add_rtt rtt st =
     (let n = i32 (n_recv st + 1) in
      st\<lparr>n_recv := n,
         sum_rtt := dadd (sum_rtt st) rtt,
         sum_sq := dadd (sum_sq st) (dmul rtt rtt),
         rtt_min := (if n = 1 \<or> dlt rtt (rtt_min st) then rtt else rtt_min st),
         rtt_max := (if n = 1 \<or> dlt (rtt_max st) rtt then rtt else rtt_max st)\<rparr>)"

definition record_rtt ::
  "t_ping_ctx \<Rightarrow> t_ping_stats \<Rightarrow> u16 \<Rightarrow> world \<Rightarrow> (double \<times> t_ping_stats \<times> world) option" where
  "record_rtt ctx st sq w = (let (now_ts, w1) = clock_gettime w in
     do {
       sent \<leftarrow> ring_get ctx (ring_slot sq);
       let rtt = elapsed_ms sent now_ts;
       Some (rtt, add_rtt rtt st, w1)
     })"

definition report_reply ::
  "t_ping_ctx \<Rightarrow> byte list \<Rightarrow> nat \<Rightarrow> nat \<Rightarrow> nat \<Rightarrow> u16 \<Rightarrow> double \<Rightarrow> world \<Rightarrow> world option" where
  "report_reply ctx buf n ip icmp_bytes sq rtt w =
     (if quiet (flags ctx) then Some w
      else if flood (flags ctx) then Some (print_flood_recv w)
      else do {
        src \<leftarrow> rd_addr buf n (ip + ip_src_off);
        ttl \<leftarrow> rd8 buf n (ip + ip_ttl_off);
        Some (print_reply (int icmp_bytes) (dotted_quad src) sq ttl rtt w)
      })"

text \<open>One pass: \<open>Some rc\<close> is a \<open>return\<close>, \<open>None\<close> the end of the loop body or a \<open>continue\<close>.\<close>

definition receive_step ::
  "t_ping_ctx \<Rightarrow> t_ping_stats \<Rightarrow> world \<Rightarrow>
     (int option \<times> t_ping_ctx \<times> t_ping_stats \<times> world) option" where
  "receive_step ctx st w = do {
     (res, ctx1, w1) \<leftarrow> recvfrom ctx w;
     (case res of
        Inl err \<Rightarrow> (let (rc, w2) = classify_recv_error err w1 in Some (Some rc, ctx1, st, w2))
      | Inr n \<Rightarrow> do {
          buf \<leftarrow> recvbuf ctx1;
          l \<leftarrow> locate_icmp buf n;
          (if l < 0 then Some (None, ctx1, st, w1)
           else do {
             let ihl = nat l;
             let e = host_endian w1;
             (ok, buf2) \<leftarrow> checksum_ok e buf ihl (n - ihl);
             let ctx2 = ctx1\<lparr>recvbuf := Some buf2\<rparr>;
             (if \<not> ok then do {
                src \<leftarrow> rd_addr buf2 n ip_src_off;
                Some (None, ctx2, st, print_checksum_mismatch (dotted_quad src) w1)
              }
              else do {
                ty \<leftarrow> rd8 buf2 n (ihl + hdr_type);
                code \<leftarrow> rd8 buf2 n (ihl + hdr_code);
                (if ty \<noteq> 0 \<or> code \<noteq> 0 then do {
                   w2 \<leftarrow> handle_icmp_error ctx2 buf2 0 ihl ihl n w1;
                   Some (None, ctx2, st, w2)
                 }
                 else do {
                   rid \<leftarrow> rd16 e buf2 n (ihl + hdr_id);
                   (if rid \<noteq> ctx_id ctx2 then Some (None, ctx2, st, w1)
                    else do {
                      raw \<leftarrow> rd16 e buf2 n (ihl + hdr_sequence);
                      let sq = ntohs e raw;
                      (rtt, st', w2) \<leftarrow> record_rtt ctx2 st sq w1;
                      w3 \<leftarrow> report_reply ctx2 buf2 n 0 (n - ihl) sq rtt w2;
                      Some (None, ctx2, st', w3)
                    })
                 })
              })
           })
        })
   }"

fun ping_receive ::
  "nat \<Rightarrow> t_ping_ctx \<Rightarrow> t_ping_stats \<Rightarrow> world \<Rightarrow>
     (int \<times> t_ping_ctx \<times> t_ping_stats \<times> world) option" where
  "ping_receive 0 ctx st w = None"
| "ping_receive (Suc fuel) ctx st w = do {
     (r, ctx1, st1, w1) \<leftarrow> receive_step ctx st w;
     (case r of Some rc \<Rightarrow> Some (rc, ctx1, st1, w1)
      | None \<Rightarrow> ping_receive fuel ctx1 st1 w1)
   }"

section \<open>The meaning of a datagram\<close>

text \<open>
  What a received datagram is, from its bytes alone: malformed, corrupted (with the source
  address), some other ICMP message, somebody else's echo reply, or a reply to the probe
  with the given sequence number.
\<close>

datatype verdict = Malformed | Corrupted | OtherIcmp | ForeignReply | Reply u16

definition ihl_of :: "byte list \<Rightarrow> nat" where
  "ihl_of dg = 4 * unat (dg ! 0 AND 15)"

definition icmp_of :: "byte list \<Rightarrow> byte list" where
  "icmp_of dg = drop (ihl_of dg) dg"

definition classify :: "endian \<Rightarrow> u16 \<Rightarrow> byte list \<Rightarrow> verdict" where
  "classify e our_id dg =
     (if length dg < 20 \<or> ihl_of dg < 20 \<or> length dg < ihl_of dg + 8 then Malformed
      else let m = icmp_of dg in
        if ft_checksum e (clear_field m) \<noteq> field e m then Corrupted
        else if m ! 0 \<noteq> 0 \<or> m ! 1 \<noteq> 0 then OtherIcmp
        else if load16 e (m ! 4) (m ! 5) \<noteq> our_id then ForeignReply
        else Reply (load16 BE (m ! 6) (m ! 7)))"

definition source_of :: "byte list \<Rightarrow> ipv4" where
  "source_of dg = (dg ! 12, dg ! 13, dg ! 14, dg ! 15)"

text \<open>What a pass does to the statistics and the world for each verdict.\<close>

definition react ::
  "t_ping_ctx \<Rightarrow> (nat \<Rightarrow> timespec) \<Rightarrow> byte list \<Rightarrow> t_ping_stats \<Rightarrow> world \<Rightarrow> t_ping_stats \<times> world" where
  "react ctx ring dg st w =
     (case classify (host_endian w) (ctx_id ctx) dg of
        Malformed \<Rightarrow> (st, w)
      | Corrupted \<Rightarrow> (st, print_checksum_mismatch (dotted_quad (source_of dg)) w)
      | OtherIcmp \<Rightarrow> (st, icmp_error_report ctx dg (ihl_of dg) w)
      | ForeignReply \<Rightarrow> (st, w)
      | Reply sq \<Rightarrow>
          (let rtt = elapsed_ms (ring (ring_slot sq)) (os_clock (env w) (k_clock w));
               w1 = w\<lparr>k_clock := k_clock w + 1\<rparr>
           in (add_rtt rtt st,
               if quiet (flags ctx) then w1
               else if flood (flags ctx) then print_flood_recv w1
               else print_reply (int (length dg - ihl_of dg)) (dotted_quad (source_of dg)) sq
                      (dg ! 8) rtt w1)))"

section \<open>A pass computes the meaning of its datagram\<close>

lemma store_zero [simp]: "store16_0 e 0 = 0" "store16_1 e 0 = 0"
  by (cases e; simp add: lo8_def hi8_def)+

lemma locate_icmp_spec:
  "locate_icmp (dg @ rest) (length dg) =
     Some (if length dg < 20 \<or> ihl_of dg < 20 \<or> length dg < ihl_of dg + 8 then - 1
           else int (ihl_of dg))"
proof (cases "length dg < 20")
  case False
  then have "rd8 (dg @ rest) (length dg) 0 = Some (dg ! 0)"
    by (auto simp: rd8_def peek_def nth_append)
  with False show ?thesis
    by (auto simp: locate_icmp_def ip_layout icmp_layout ihl_of_def ip_hl_def mult.commute Let_def)
qed (simp add: locate_icmp_def ip_layout)

text \<open>Clearing the checksum field and storing its value back restores the datagram.\<close>

lemma checksum_ok_restores:
  assumes "i + 8 \<le> length dg"
  shows "poke16 e (dg[i + 2 := 0, i + 2 + 1 := 0] @ rest) (i + 2) (field e (drop i dg)) = Some (dg @ rest)"
proof -
  have "dg[i + 2 := 0, i + 2 + 1 := 0, i + 2 := dg ! (i + 2), i + 2 + 1 := dg ! (i + 2 + 1)] = dg"
    using assms by (intro nth_equalityI) (auto simp: nth_list_update)
  then show ?thesis
    using assms by (simp add: poke16_def field_def icmp_layout list_update_append add.assoc
        eval_nat_numeral)
qed

lemma checksum_ok_spec:
  assumes "i + 8 \<le> length dg"
  shows "checksum_ok e (dg @ rest) i (length dg - i) =
    Some (ft_checksum e (clear_field (drop i dg)) = field e (drop i dg), dg @ rest)"
proof -
  let ?B = "dg @ rest"
  have f: "peek16 e ?B (i + 2) = Some (field e (drop i dg))"
    using assms by (simp add: peek16_def field_def icmp_layout nth_append eval_nat_numeral)
  have "(?B[i + 2 := 0, i + 2 + 1 := 0]) = dg[i + 2 := 0, i + 2 + 1 := 0] @ rest"
    using assms by (simp add: list_update_append)
  then have z: "poke16 e ?B (i + 2) 0 = Some (dg[i + 2 := 0, i + 2 + 1 := 0] @ rest)"
    using assms by (simp add: poke16_def)
  have c: "read_range (dg[i + 2 := 0, i + 2 + 1 := 0] @ rest) i (length dg - i)
      = Some (clear_field (drop i dg))"
    using assms by (simp add: read_range_def drop_update_swap clear_field_def icmp_layout)
  have r: "poke16 e (dg[i + 2 := 0, i + 2 + 1 := 0] @ rest) (i + 2) (field e (drop i dg)) = Some ?B"
    by (rule checksum_ok_restores [OF assms])
  show ?thesis
    unfolding checksum_ok_def hdr_checksum_def f z Option.bind.simps Let_def c r ..
qed

lemma receive_step_eq:
  assumes wf: "wf_ctx ctx" and ring: "send_ts ctx = Some ring" and buf: "recvbuf ctx = Some buf"
    and recv: "os_recv (env w) (k_recv w) = RecvData d"
  shows "receive_step ctx st w =
    (let dg = take (recvbuf_len ctx) d;
         (st', w') = react ctx ring dg st (w\<lparr>k_recv := k_recv w + 1\<rparr>)
     in Some (None, ctx\<lparr>recvbuf := Some (dg @ drop (length dg) buf)\<rparr>, st', w'))"
proof -
  define dg rest w1 where "dg = take (recvbuf_len ctx) d" and "rest = drop (length dg) buf"
    and "w1 = w\<lparr>k_recv := k_recv w + 1\<rparr>"
  have "length buf = recvbuf_len ctx" using wf buf by (auto simp: wf_ctx_def)
  then have wr: "write_range buf 0 dg = Some (dg @ rest)"
    by (simp add: write_range_def dg_def rest_def)
  define c1 where "c1 = ctx\<lparr>recvbuf := Some (dg @ rest)\<rparr>"
  have rf: "recvfrom ctx w = Some (Inr (length dg), c1, w1)"
    by (simp add: recvfrom_def recv buf wr c1_def w1_def Let_def flip: dg_def)
  have b1: "recvbuf c1 = Some (dg @ rest)" "c1\<lparr>recvbuf := Some (dg @ rest)\<rparr> = c1"
    by (simp_all add: c1_def)
  have c1s: "ctx_id c1 = ctx_id ctx" "flags c1 = flags ctx" "ring_get c1 (ring_slot sq) = Some (ring (ring_slot sq))" for sq
    by (simp_all add: c1_def ring_get_def ring)
  have rep: "icmp_error_report c1 x y z = icmp_error_report ctx x y z" for x y z
    unfolding icmp_error_report_def c1s ..
  have "receive_step ctx st w = (let (st', w') = react ctx ring dg st w1 in Some (None, c1, st', w'))"
  proof (cases "length dg < 20 \<or> ihl_of dg < 20 \<or> length dg < ihl_of dg + 8")
    case True
    then show ?thesis
      by (simp add: receive_step_def rf b1 locate_icmp_spec react_def classify_def)
  next
    case False
    then have b: "20 \<le> ihl_of dg" "ihl_of dg + 8 \<le> length dg" "20 \<le> length dg" by auto
    have hd: "rd8 dg (length dg) (ihl_of dg) = Some (icmp_of dg ! 0)"
      "rd8 dg (length dg) (Suc (ihl_of dg)) = Some (icmp_of dg ! 1)"
      "rd16 e dg (length dg) (ihl_of dg + 4) = Some (load16 e (icmp_of dg ! 4) (icmp_of dg ! 5))"
      "rd16 e dg (length dg) (ihl_of dg + 6) = Some (load16 e (icmp_of dg ! 6) (icmp_of dg ! 7))" for e
      using b by (simp_all add: buf_simps icmp_of_def add.commute)
    have src: "rd_addr dg (length dg) 12 = Some (source_of dg)"
      "rd8 dg (length dg) 8 = Some (dg ! 8)"
      using b by (simp_all add: buf_simps source_of_def)
    have ck: "checksum_ok e (dg @ rest) (ihl_of dg) (length dg - ihl_of dg)
        = Some (ft_checksum e (clear_field (icmp_of dg)) = field e (icmp_of dg), dg @ rest)" for e
      using checksum_ok_spec [OF b(2)] by (simp add: icmp_of_def)
    have he: "handle_icmp_error c1 dg 0 (ihl_of dg) (ihl_of dg) (length dg) w1
        = Some (icmp_error_report ctx dg (ihl_of dg) w1)"
      using handle_icmp_error_report [OF b(1,2)] by (simp add: rep)
    show ?thesis
      using False
      by (auto simp: receive_step_def rf b1 locate_icmp_spec react_def classify_def ck hd src he
          record_rtt_def report_reply_def clock_gettime_def c1s htons_load16 icmp_layout ip_layout
          Let_def)
  qed
  then show ?thesis by (simp add: c1_def w1_def rest_def Let_def flip: dg_def)
qed

text \<open>C3. Draining is memory-safe and precise: for every datagram the kernel can deliver (any
  length, any bytes), a pass of the drain completes without reading or writing outside the
  received bytes, restores the checksum field it cleared, and has exactly the effect the
  datagram's meaning prescribes: statistics change only for a well-formed, uncorrupted echo
  reply with our identifier.\<close>

theorem receive_step_spec:
  assumes wf: "wf_ctx ctx" and ring: "send_ts ctx = Some ring" and buf: "recvbuf ctx = Some buf"
    and recv: "os_recv (env w) (k_recv w) = RecvData d"
  shows "receive_step ctx st w =
    (let dg = take (recvbuf_len ctx) d;
         (st', w') = react ctx ring dg st (w\<lparr>k_recv := k_recv w + 1\<rparr>)
     in Some (None, ctx\<lparr>recvbuf := Some (dg @ drop (length dg) buf)\<rparr>, st', w'))"
  by (rule receive_step_eq [OF assms])

text \<open>A reply to probe 5, as the loopback interface delivers it.\<close>

definition sample_reply :: "byte list" where
  "sample_reply = [0x45, 0, 0, 32, 0, 0, 0, 0, 64, 1, 0, 0, 127, 0, 0, 1, 127, 0, 0, 1]
     @ [0, 0, 0xEB, 0xC2, 0x12, 0x34, 0, 5, 0, 1, 2, 3]"

lemma classify_sample_reply: "classify LE 0x3412 sample_reply = Reply 5"
  by code_simp

theorem receive_step_spec_witness:
  "\<exists>c w. receive_step sample_ctx zero_stats (boot (sample_os\<lparr>os_recv := \<lambda>_. RecvData sample_reply\<rparr>))
     = Some (None, c, add_rtt (elapsed_ms zero_ts \<lparr>tv_sec = 100, tv_nsec = 0\<rparr>) zero_stats, w)"
proof -
  let ?w = "boot (sample_os\<lparr>os_recv := \<lambda>_. RecvData sample_reply\<rparr>)"
  have ctx: "send_ts sample_ctx = Some (\<lambda>_. zero_ts)" "recvbuf sample_ctx = Some (replicate 1024 0)"
    "os_recv (env ?w) (k_recv ?w) = RecvData sample_reply"
    by (simp_all add: sample_ctx_def)
  have t: "take (recvbuf_len sample_ctx) sample_reply = sample_reply"
    by (simp add: sample_ctx_def sample_reply_def)
  have "host_endian ?w = LE" "ctx_id sample_ctx = 0x3412"
    by (simp_all add: sample_os_def sample_ctx_def)
  then show ?thesis
    unfolding receive_step_spec [OF wf_sample(1) ctx] t
    by (simp add: react_def classify_sample_reply Let_def sample_os_def)
qed

section \<open>The whole drain\<close>

fun react_all ::
  "t_ping_ctx \<Rightarrow> (nat \<Rightarrow> timespec) \<Rightarrow> byte list list \<Rightarrow> t_ping_stats \<Rightarrow> world \<Rightarrow> t_ping_stats \<times> world" where
  "react_all ctx ring [] st w = (st, w)"
| "react_all ctx ring (d # ds) st w =
     (let (st1, w1) = react ctx ring (take (recvbuf_len ctx) d) st (w\<lparr>k_recv := k_recv w + 1\<rparr>)
      in react_all ctx ring ds st1 w1)"

lemma react_frame:
  assumes "react ctx ring dg st w = (st', w')"
  shows "env w' = env w \<and> k_recv w' = k_recv w \<and> g_stop w' = g_stop w \<and> k_poll w' = k_poll w
    \<and> k_send w' = k_send w \<and> k_sigint w' = k_sigint w \<and> n_sent st' = n_sent st"
  using assms
  by (auto simp: react_def Let_def add_rtt_def print_checksum_mismatch_def print_flood_recv_def
      print_reply_def split: verdict.splits if_splits)

lemma react_recvbuf [simp]: "react (ctx\<lparr>recvbuf := b\<rparr>) = react ctx"
  by (intro ext) (simp add: react_def icmp_error_report_def Let_def split: verdict.split option.split)

lemma react_all_recvbuf [simp]: "react_all (ctx\<lparr>recvbuf := b\<rparr>) ring ds st w = react_all ctx ring ds st w"
  by (induction ds arbitrary: st w) (simp_all add: split_def)

lemma react_all_frame:
  "react_all ctx ring ds st w = (st', w') \<Longrightarrow> env w' = env w \<and> k_recv w' = k_recv w + length ds
    \<and> g_stop w' = g_stop w \<and> k_poll w' = k_poll w \<and> k_send w' = k_send w
    \<and> k_sigint w' = k_sigint w \<and> n_sent st' = n_sent st"
proof (induction ds arbitrary: st w)
  case (Cons d ds)
  obtain st1 w1 where r:
    "react ctx ring (take (recvbuf_len ctx) d) st (w\<lparr>k_recv := k_recv w + 1\<rparr>) = (st1, w1)"
    by fastforce
  show ?case using Cons react_frame [OF r] r by simp
qed simp

lemma wf_ctx_recvbuf:
  assumes "wf_ctx ctx" "recvbuf ctx = Some buf"
  shows "wf_ctx (ctx\<lparr>recvbuf := Some (take (recvbuf_len ctx) d
      @ drop (length (take (recvbuf_len ctx) d)) buf)\<rparr>)"
  using assms by (auto simp: wf_ctx_def)

lemma receive_step_error:
  assumes "os_recv (env w) (k_recv w) = RecvError err"
  shows "receive_step ctx st w = (let (rc, w2) = classify_recv_error err (w\<lparr>k_recv := k_recv w + 1\<rparr>)
     in Some (Some rc, ctx, st, w2))"
  by (simp add: receive_step_def recvfrom_def assms Let_def)

lemma ping_receive_eq:
  assumes "wf_ctx ctx" "send_ts ctx = Some ring"
    and "\<forall>i < length ds. os_recv (env w) (k_recv w + i) = RecvData (ds ! i)"
    and "os_recv (env w) (k_recv w + length ds) = RecvError err"
    and "length ds < fuel"
  shows "\<exists>buf. wf_ctx (ctx\<lparr>recvbuf := Some buf\<rparr>) \<and> ping_receive fuel ctx st w =
    (let (st', w') = react_all ctx ring ds st w;
         (rc, w'') = classify_recv_error err (w'\<lparr>k_recv := k_recv w' + 1\<rparr>)
     in Some (rc, ctx\<lparr>recvbuf := Some buf\<rparr>, st', w''))"
  using assms
proof (induction ds arbitrary: ctx st w fuel)
  case Nil
  then obtain f where f: "fuel = Suc f" by (cases fuel) auto
  obtain buf where b: "recvbuf ctx = Some buf" using Nil by (auto simp: wf_ctx_def)
  then have "ctx\<lparr>recvbuf := Some buf\<rparr> = ctx" by simp
  with Nil f show ?case
    by (intro exI [of _ buf]) (auto simp: receive_step_error split_def Let_def)
next
  case (Cons d ds)
  then obtain f where f: "fuel = Suc f" by (cases fuel) auto
  obtain buf where b: "recvbuf ctx = Some buf" using Cons by (auto simp: wf_ctx_def)
  have d: "os_recv (env w) (k_recv w) = RecvData d" using Cons.prems(3) by fastforce
  obtain st1 w1 where r:
    "react ctx ring (take (recvbuf_len ctx) d) st (w\<lparr>k_recv := k_recv w + 1\<rparr>) = (st1, w1)"
    by fastforce
  define buf1 where "buf1 = take (recvbuf_len ctx) d @ drop (length (take (recvbuf_len ctx) d)) buf"
  note fr = react_frame [OF r]
  have wf1: "wf_ctx (ctx\<lparr>recvbuf := Some buf1\<rparr>)"
    unfolding buf1_def by (rule wf_ctx_recvbuf [OF Cons.prems(1) b])
  have nth: "os_recv (env w1) (k_recv w1 + i) = RecvData (ds ! i)" if "i < length ds" for i
    using Cons.prems(3) [rule_format, of "Suc i"] that fr by simp
  have "\<exists>buf'. wf_ctx (ctx\<lparr>recvbuf := Some buf1, recvbuf := Some buf'\<rparr>) \<and>
      ping_receive f (ctx\<lparr>recvbuf := Some buf1\<rparr>) st1 w1 =
      (let (st', w') = react_all (ctx\<lparr>recvbuf := Some buf1\<rparr>) ring ds st1 w1;
         (rc, w'') = classify_recv_error err (w'\<lparr>k_recv := k_recv w' + 1\<rparr>)
     in Some (rc, ctx\<lparr>recvbuf := Some buf1, recvbuf := Some buf'\<rparr>, st', w''))"
    using Cons.IH [OF wf1, of w1 f st1] Cons.prems f nth fr by simp
  then show ?case
    unfolding f ping_receive.simps receive_step_eq [OF Cons.prems(1,2) b d] Let_def r react_all.simps
      prod.case Option.bind.simps option.case buf1_def by simp
qed

fun is_reply :: "verdict \<Rightarrow> bool" where
  "is_reply (Reply sq) = True"
| "is_reply _ = False"

lemma react_n_recv:
  "n_recv (fst (react ctx ring dg st w)) =
     (if is_reply (classify (host_endian w) (ctx_id ctx) dg) then i32 (n_recv st + 1) else n_recv st)"
  by (simp add: react_def add_rtt_def Let_def split: verdict.split)

lemma react_all_n_recv:
  assumes "- 2147483648 \<le> n_recv st" "n_recv st < 2147483648"
  shows "n_recv (fst (react_all ctx ring ds st w)) = i32 (n_recv st + int (length
    (filter (\<lambda>d. is_reply (classify (host_endian w) (ctx_id ctx) (take (recvbuf_len ctx) d))) ds)))"
  using assms
proof (induction ds arbitrary: st w)
  case (Cons d ds)
  let ?dg = "take (recvbuf_len ctx) d" and ?w = "w\<lparr>k_recv := k_recv w + 1\<rparr>"
  obtain st1 w1 where r: "react ctx ring ?dg st ?w = (st1, w1)" by fastforce
  have n: "n_recv st1 = (if is_reply (classify (host_endian w) (ctx_id ctx) ?dg)
      then i32 (n_recv st + 1) else n_recv st)"
    using react_n_recv [of ctx ring ?dg st ?w] r by simp
  have e: "env w1 = env w" using react_frame [OF r] by simp
  have "- 2147483648 \<le> n_recv st1 \<and> n_recv st1 < 2147483648"
    using n Cons.prems i32_range by simp
  then have "n_recv (fst (react_all ctx ring ds st1 w1)) = i32 (n_recv st1 + int (length
    (filter (\<lambda>d. is_reply (classify (host_endian w) (ctx_id ctx) (take (recvbuf_len ctx) d))) ds)))"
    using Cons.IH [of st1 w1] e by simp
  then show ?case unfolding react_all.simps r prod.case by (simp add: n i32_plus_left ac_simps)
qed simp

text \<open>C4. Draining processes every queued datagram, in order, and nothing else: when the kernel
  has the datagrams \<open>ds\<close> queued and then fails with \<open>err\<close>, a drain that may take more passes
  than there are datagrams ends, its statistics and output are those of the datagrams'
  meanings in the order of arrival, \<open>n_recv\<close> rises by exactly the number of replies to our
  probes (forged, foreign, corrupted and malformed ones do not count), it leaves everything
  of the context but the receive buffer alone, and it returns -1 exactly when the error is a
  real one.\<close>

theorem ping_receive_spec:
  assumes "wf_ctx ctx" "send_ts ctx = Some ring"
    and "\<forall>i < length ds. os_recv (env w) (k_recv w + i) = RecvData (ds ! i)"
    and "os_recv (env w) (k_recv w + length ds) = RecvError err"
    and "length ds < fuel" "0 \<le> n_recv st" "n_recv st < 2147483648"
  shows "\<exists>rc buf st' w'. ping_receive fuel ctx st w = Some (rc, ctx\<lparr>recvbuf := Some buf\<rparr>, st', w') \<and>
    (rc = 0 \<longleftrightarrow> err \<in> {EAGAIN, EWOULDBLOCK, EINTR}) \<and> (rc = 0 \<or> rc = - 1) \<and>
    st' = fst (react_all ctx ring ds st w) \<and>
    events w' = events (snd (react_all ctx ring ds st w))
      @ (if rc = 0 then [] else [Perror ''recvfrom'' err]) \<and>
    n_sent st' = n_sent st \<and>
    n_recv st' = i32 (n_recv st + int (length (filter (\<lambda>d. is_reply (classify (host_endian w)
      (ctx_id ctx) (take (recvbuf_len ctx) d))) ds)))"
proof -
  obtain st' w' where r: "react_all ctx ring ds st w = (st', w')" by fastforce
  obtain buf where p: "ping_receive fuel ctx st w =
    (let (rc, w'') = classify_recv_error err (w'\<lparr>k_recv := k_recv w' + 1\<rparr>)
     in Some (rc, ctx\<lparr>recvbuf := Some buf\<rparr>, st', w''))"
    using ping_receive_eq [OF assms(1-5), of st] unfolding r prod.case Let_def by auto
  show ?thesis
    unfolding p using react_all_n_recv [of st ctx ring ds w] react_all_frame [OF r] assms(6,7)
    by (auto simp: r classify_recv_error_def Let_def)
qed

text \<open>Two datagrams queued: a reply to probe 5 and a fragment of 3 bytes.\<close>

definition sample_recv_os :: os where
  "sample_recv_os = sample_os\<lparr>os_recv := \<lambda>k. if k = 0 then RecvData sample_reply
     else if k = 1 then RecvData [1, 2, 3] else RecvError EAGAIN\<rparr>"

theorem ping_receive_spec_witness:
  "\<exists>c st w. ping_receive 3 sample_ctx zero_stats (boot sample_recv_os) = Some (0, c, st, w) \<and>
     n_recv st = 1"
proof -
  let ?ds = "[sample_reply, [1, 2, 3]]" and ?w = "boot sample_recv_os"
  have ring: "send_ts sample_ctx = Some (\<lambda>_. zero_ts)" by (simp add: sample_ctx_def)
  have ds: "\<forall>i < length ?ds. os_recv (env ?w) (k_recv ?w + i) = RecvData (?ds ! i)"
    by (auto simp: sample_recv_os_def less_Suc_eq)
  have end': "os_recv (env ?w) (k_recv ?w + length ?ds) = RecvError EAGAIN"
    by (simp add: sample_recv_os_def)
  have c: "length (filter (\<lambda>d. is_reply (classify LE 0x3412 (take 1024 d))) ?ds) = 1"
    by code_simp
  have e: "host_endian ?w = LE" "ctx_id sample_ctx = 0x3412" "recvbuf_len sample_ctx = 1024"
    by (simp_all add: sample_recv_os_def sample_os_def sample_ctx_def)
  have b: "length ?ds < 3" "0 \<le> n_recv zero_stats" "n_recv zero_stats < 2147483648"
    by (simp_all add: zero_stats_def)
  have "n_recv zero_stats + int 1 = 1" by (simp add: zero_stats_def)
  with ping_receive_spec [OF wf_sample(1) ring ds end' b] show ?thesis
    unfolding e c by fastforce
qed

text \<open>C21. Nothing but the kernel running out of data ends a drain: while datagrams keep arriving
  \<open>ping_receive\<close> does not return, whatever the stop flag, \<open>-t\<close> or \<open>-o\<close> say.\<close>

theorem ping_receive_endless:
  assumes "wf_ctx ctx" "\<forall>k. \<exists>d. os_recv (env w) k = RecvData d"
  shows "ping_receive fuel ctx st w = None"
  using assms
proof (induction fuel arbitrary: ctx st w)
  case (Suc f)
  obtain ring where ring: "send_ts ctx = Some ring" using wf_ctx_ring [OF Suc.prems(1)] by blast
  obtain buf where b: "recvbuf ctx = Some buf" using Suc by (auto simp: wf_ctx_def)
  obtain d where d: "os_recv (env w) (k_recv w) = RecvData d" using Suc by blast
  obtain st1 w1 where r:
    "react ctx ring (take (recvbuf_len ctx) d) st (w\<lparr>k_recv := k_recv w + 1\<rparr>) = (st1, w1)"
    by fastforce
  have "ping_receive f (ctx\<lparr>recvbuf := Some (take (recvbuf_len ctx) d
      @ drop (length (take (recvbuf_len ctx) d)) buf)\<rparr>) st1 w1 = None"
    using Suc.prems react_frame [OF r]
    by (intro Suc.IH wf_ctx_recvbuf [OF Suc.prems(1) b]) simp
  then show ?case
    unfolding ping_receive.simps receive_step_eq [OF Suc.prems(1) ring b d] Let_def r prod.case
      Option.bind.simps option.case .
qed simp

theorem ping_receive_endless_witness:
  "ping_receive 1000 sample_ctx zero_stats
     ((boot (sample_os\<lparr>os_recv := \<lambda>_. RecvData sample_reply\<rparr>))\<lparr>g_stop := True\<rparr>) = None"
  by (rule ping_receive_endless) simp_all

section \<open>Corruption is detected\<close>

lemma classify_changed_byte:
  assumes "classify e our_id dg \<noteq> Malformed" "classify e our_id dg \<noteq> Corrupted"
    and "length dg \<le> 65535" "ihl_of dg \<le> i" "i < length dg" "x \<noteq> dg ! i"
  shows "classify e our_id (dg[i := x]) = Corrupted"
proof -
  have wf: "20 \<le> length dg" "20 \<le> ihl_of dg" "ihl_of dg + 8 \<le> length dg"
    using assms(1) by (auto simp: classify_def split: if_splits)
  have ok: "ft_checksum e (clear_field (icmp_of dg)) = field e (icmp_of dg)"
    using assms(1,2) by (auto simp: classify_def Let_def split: if_splits)
  define j where "j = i - ihl_of dg"
  have i: "i = ihl_of dg + j" using assms(4) by (simp add: j_def)
  have same: "ihl_of (dg[i := x]) = ihl_of dg" using assms(4) wf by (simp add: ihl_of_def)
  have icmp: "icmp_of (dg[i := x]) = (icmp_of dg)[j := x]"
    unfolding icmp_of_def same using assms(4) by (simp add: j_def drop_update_swap)
  have "j < length (icmp_of dg)" "x \<noteq> icmp_of dg ! j" "length (icmp_of dg) \<le> 131074"
    "8 \<le> length (icmp_of dg)"
    using assms(3,5,6) wf i by (simp_all add: icmp_of_def)
  then have "ft_checksum e (clear_field ((icmp_of dg)[j := x])) \<noteq> field e ((icmp_of dg)[j := x])"
    using cks.detects [OF _ _ _ _ ok] by blast
  then show ?thesis using wf by (simp add: classify_def same icmp)
qed

text \<open>A datagram that the tests of the program accept is classified as intact.\<close>

lemma accepted_intact:
  assumes "locate_icmp dg (length dg) = Some (int (ihl_of dg))"
    and "checksum_ok e dg (ihl_of dg) (length dg - ihl_of dg) = Some (True, dg)"
  shows "classify e our_id dg \<noteq> Malformed" "classify e our_id dg \<noteq> Corrupted"
proof -
  have l: "20 \<le> length dg" "20 \<le> ihl_of dg" "ihl_of dg + 8 \<le> length dg"
    using assms(1) locate_icmp_spec [of dg "[]"] by (auto split: if_splits)
  have "ft_checksum e (clear_field (icmp_of dg)) = field e (icmp_of dg)"
    using assms(2) checksum_ok_spec [OF l(3), of e "[]"] by (simp add: icmp_of_def)
  with l show "classify e our_id dg \<noteq> Malformed" "classify e our_id dg \<noteq> Corrupted"
    by (simp_all add: classify_def Let_def)
qed

text \<open>C15. Error detection: take any datagram the program accepts (its ICMP header is located and
  its checksum verified; an IP datagram has at most 65535 bytes) and change any one byte of its
  ICMP part to any other value. When the kernel delivers the result, the pass of the drain
  reports a checksum mismatch of its source, and nothing else happens: it is not counted as a
  reply, not timed, and not reported as an ICMP error, and the bytes received are left in the
  buffer as they were.\<close>

theorem corrupted_byte_detected:
  assumes "locate_icmp dg (length dg) = Some (int (ihl_of dg))"
    and "checksum_ok (host_endian w) dg (ihl_of dg) (length dg - ihl_of dg) = Some (True, dg)"
    and "ihl_of dg \<le> i" "i < length dg" "x \<noteq> dg ! i"
    and "length dg \<le> 65535" "length dg \<le> recvbuf_len ctx"
    and "wf_ctx ctx" "recvbuf ctx = Some buf"
    and "os_recv (env w) (k_recv w) = RecvData (dg[i := x])"
  shows "receive_step ctx st w =
    Some (None, ctx\<lparr>recvbuf := Some (dg[i := x] @ drop (length dg) buf)\<rparr>, st,
      print_checksum_mismatch (dotted_quad (source_of dg)) (w\<lparr>k_recv := k_recv w + 1\<rparr>))"
proof -
  obtain ring where r: "send_ts ctx = Some ring" using wf_ctx_ring [OF assms(8)] by blast
  have "20 \<le> ihl_of dg" using assms(1) locate_icmp_spec [of dg "[]"] by (auto split: if_splits)
  then have "source_of (dg[i := x]) = source_of dg" using assms(3) by (simp add: source_of_def)
  moreover have "classify (host_endian w) (ctx_id ctx) (dg[i := x]) = Corrupted"
    using classify_changed_byte [OF accepted_intact [OF assms(1,2)] assms(6,3,4,5)] .
  ultimately show ?thesis
    unfolding receive_step_eq [OF assms(8) r assms(9,10)] using assms(7)
    by (simp add: react_def)
qed

theorem corrupted_byte_detected_witness:
  "receive_step sample_ctx zero_stats
       (boot (sample_os\<lparr>os_recv := \<lambda>_. RecvData (sample_reply[31 := 77])\<rparr>)) =
     Some (None, sample_ctx\<lparr>recvbuf := Some (sample_reply[31 := 77] @ replicate 992 0)\<rparr>, zero_stats,
       print_checksum_mismatch (dotted_quad (127, 0, 0, 1))
         ((boot (sample_os\<lparr>os_recv := \<lambda>_. RecvData (sample_reply[31 := 77])\<rparr>))\<lparr>k_recv := 1\<rparr>))"
proof -
  let ?w = "boot (sample_os\<lparr>os_recv := \<lambda>_. RecvData (sample_reply[31 := 77])\<rparr>)"
  have l: "ihl_of sample_reply = 20" "length sample_reply = 32" "os_endian sample_os = LE"
    "locate_icmp sample_reply 32 = Some 20" "checksum_ok LE sample_reply 20 12 = Some (True, sample_reply)"
    "source_of sample_reply = (127, 0, 0, 1)" "sample_reply ! 31 = 3"
    by code_simp+
  have c: "recvbuf_len sample_ctx = 1024" "recvbuf sample_ctx = Some (replicate 1024 0)"
    by (simp_all add: sample_ctx_def)
  show ?thesis
    using corrupted_byte_detected [of sample_reply ?w 31 77 sample_ctx "replicate 1024 0" zero_stats]
      wf_sample(1) by (simp add: l c)
qed

section \<open>A probe and its reply\<close>

text \<open>
  What RFC 792 asks of the host that answers: the same message with type 0 and the checksum
  recomputed, on a machine of either byte order. \<open>hdr\<close> is the IP header of the answer.
\<close>

definition echo_reply :: "endian \<Rightarrow> byte list \<Rightarrow> byte list" where
  "echo_reply e req = (let m = clear_field (req[0 := 0]); ck = ft_checksum e m
     in m[hdr_checksum := store16_0 e ck, hdr_checksum + 1 := store16_1 e ck])"

lemma length_echo_reply [simp]: "length (echo_reply e req) = length req"
  by (simp add: echo_reply_def clear_field_def Let_def)

lemma classify_echo_reply:
  assumes "ihl_of hdr = length hdr" "20 \<le> length hdr" "payload_len ctx \<le> 65507"
  shows "classify e (ctx_id ctx) (hdr @ echo_reply e2 (echo_request ctx e sq t)) = Reply sq"
proof -
  define m where "m = [0, 0, 0, 0, store16_0 e (ctx_id ctx), store16_1 e (ctx_id ctx),
    hi8 sq, lo8 sq] @ payload_spec ctx e t"
  define c0 c1 where "c0 = store16_0 e2 (ft_checksum e2 m)" and "c1 = store16_1 e2 (ft_checksum e2 m)"
  define r where "r = m[2 := c0, 3 := c1]"
  have r: "echo_reply e2 (echo_request ctx e sq t) = r"
    by (simp add: echo_reply_def echo_request_def clear_field_def icmp_layout Let_def r_def c0_def c1_def m_def)
  have "length m \<le> 131074" using assms by (simp add: m_def)
  from ft_checksum_host_bytes [OF this]
  have c: "c0 = store16_0 e (ft_checksum e m)" "c1 = store16_1 e (ft_checksum e m)"
    by (cases e; cases e2; simp add: c0_def c1_def del: store16_0.simps store16_1.simps)+
  have clear: "clear_field r = m" by (simp add: r_def clear_field_def icmp_layout m_def)
  have f: "field e r = ft_checksum e m" by (simp add: r_def field_def icmp_layout m_def c)
  have len: "8 \<le> length r" by (simp add: r_def m_def)
  have hd: "hdr \<noteq> []" using assms by auto
  have ihl: "ihl_of (hdr @ r) = length hdr" using assms hd by (simp add: ihl_of_def nth_append)
  have icmp: "icmp_of (hdr @ r) = r" by (simp add: icmp_of_def ihl)
  have bytes: "r ! 0 = 0" "r ! 1 = 0" "load16 e (r ! 4) (r ! 5) = ctx_id ctx"
    "load16 BE (r ! 6) (r ! 7) = sq"
    by (simp_all add: r_def m_def)
  show ?thesis
    unfolding r classify_def ihl icmp clear f Let_def using assms len bytes by simp
qed

text \<open>C14. Sending and receiving fit together: if the answer to a probe, built by a host of any
  byte order, is delivered in the pass after the probe was sent, the program recognises it
  as the reply to exactly that sequence number and accounts the time between its own two
  clock readings, the one taken when the probe was built and the one taken in the pass.\<close>

theorem probe_reply_roundtrip:
  assumes wf: "wf_ctx ctx"
    and sent: "send_one ctx sq st w = Some (0, ctx1, st1, w1)"
    and packet: "pkt ctx1 = Some req"
    and hdr: "ihl_of hdr = length hdr" "20 \<le> length hdr"
    and room: "length hdr + 8 + payload_len ctx \<le> recvbuf_len ctx"
    and recv: "os_recv (env w) (k_recv w) = RecvData (hdr @ echo_reply e2 req)"
  shows "\<exists>ctx2 w2. receive_step ctx1 st1 w1 =
    Some (None, ctx2, add_rtt (elapsed_ms (os_clock (env w) (k_clock w))
                                          (os_clock (env w) (k_clock w + 1))) st1, w2)"
proof -
  obtain r where r: "send_ts ctx = Some r" using wf_ctx_ring [OF wf] by blast
  define t where "t = os_clock (env w) (k_clock w)"
  note s = send_one_eq [OF wf r, of w sq st, unfolded Let_def, folded t_def]
  from s sent have ctx1: "ctx1 = ctx\<lparr>send_ts := Some (r(ring_slot sq := t)),
      pkt := Some (echo_request ctx (host_endian w) sq t)\<rparr>"
    and w1: "w1 = after_send ctx (echo_request ctx (host_endian w) sq t) w"
    by simp_all
  have req: "req = echo_request ctx (host_endian w) sq t" using packet ctx1 by simp
  have wf1: "wf_ctx ctx1" using wf unfolding ctx1 by simp
  have w1s: "env w1 = env w" "k_recv w1 = k_recv w" "k_clock w1 = k_clock w + 1"
    by (simp_all add: w1 after_send_def)
  obtain buf where b: "recvbuf ctx1 = Some buf" using wf1 by (auto simp: wf_ctx_def)
  have ring1: "send_ts ctx1 = Some (r(ring_slot sq := t))" by (simp add: ctx1)
  have d: "os_recv (env w1) (k_recv w1) = RecvData (hdr @ echo_reply e2 req)"
    using recv w1s by simp
  have tk: "take (recvbuf_len ctx1) (hdr @ echo_reply e2 req) = hdr @ echo_reply e2 req"
    using room by (simp add: ctx1 req)
  have "classify (host_endian w1) (ctx_id ctx1) (hdr @ echo_reply e2 req) = Reply sq"
    using classify_echo_reply [OF hdr, of ctx] wf by (simp add: w1s ctx1 req wf_ctx_def)
  then show ?thesis
    unfolding receive_step_eq [OF wf1 ring1 b d] tk Let_def
    by (simp add: react_def w1s t_def Let_def)
qed

text \<open>Probe 7 of the sample context, answered by a big-endian host two clock ticks later.\<close>

definition sample_answer_os :: os where
  "sample_answer_os = sample_os\<lparr>os_recv := \<lambda>_. RecvData (take 20 sample_reply
     @ echo_reply BE (echo_request sample_ctx LE 7 \<lparr>tv_sec = 100, tv_nsec = 0\<rparr>))\<rparr>"

theorem probe_reply_roundtrip_witness:
  "\<exists>ctx1 st1 w1 ctx2 w2. send_one sample_ctx 7 zero_stats (boot sample_answer_os) = Some (0, ctx1, st1, w1) \<and>
     receive_step ctx1 st1 w1 = Some (None, ctx2, add_rtt (Fin 1000) st1, w2)"
proof -
  let ?w = "boot sample_answer_os" and ?t = "\<lparr>tv_sec = 100, tv_nsec = 0\<rparr>"
  have e: "env ?w = sample_answer_os" "k_clock ?w = 0" "k_send ?w = 0" "k_recv ?w = 0" by simp_all
  have c: "os_clock sample_answer_os 0 = ?t" "os_clock sample_answer_os (0 + 1) = \<lparr>tv_sec = 101, tv_nsec = 0\<rparr>"
    "os_endian sample_answer_os = LE" "os_send sample_answer_os 0 = None"
    by (simp_all add: sample_answer_os_def sample_os_def)
  have r: "send_ts sample_ctx = Some (\<lambda>_. zero_ts)" by (simp add: sample_ctx_def)
  obtain ctx1 st1 w1 where s: "send_one sample_ctx 7 zero_stats ?w = Some (0, ctx1, st1, w1)"
    "pkt ctx1 = Some (echo_request sample_ctx LE 7 ?t)"
    using send_one_eq [OF wf_sample(1) r, of ?w 7 zero_stats] by (simp add: e c Let_def)
  have h: "ihl_of (take 20 sample_reply) = length (take 20 sample_reply)"
    "20 \<le> length (take 20 sample_reply)" by code_simp+
  have room: "length (take 20 sample_reply) + 8 + payload_len sample_ctx \<le> recvbuf_len sample_ctx"
    by (simp add: sample_ctx_def)
  have rec: "os_recv (env ?w) (k_recv ?w) = RecvData (take 20 sample_reply
      @ echo_reply BE (echo_request sample_ctx LE 7 ?t))"
    unfolding e by (simp add: sample_answer_os_def)
  have "elapsed_ms ?t \<lparr>tv_sec = 101, tv_nsec = 0\<rparr> = Fin 1000" by code_simp
  then show ?thesis
    using probe_reply_roundtrip [OF wf_sample(1) s h room rec] s(1) unfolding e c by metis
qed

section \<open>Round-trip statistics\<close>

lemma add_rtt_fields:
  "n_recv (add_rtt x st) = i32 (n_recv st + 1)" "sum_rtt (add_rtt x st) = dadd (sum_rtt st) x"
  "sum_sq (add_rtt x st) = dadd (sum_sq st) (dmul x x)"
  by (simp_all add: add_rtt_def Let_def)

lemma fold_add_rtt:
  assumes "xs \<noteq> []" "length xs < 2147483648" "n_recv st = 0"
  shows "n_recv (fold add_rtt (map Fin xs) st) = int (length xs) \<and>
    rtt_min (fold add_rtt (map Fin xs) st) = Fin (Min (set xs)) \<and>
    rtt_max (fold add_rtt (map Fin xs) st) = Fin (Max (set xs))"
  using assms(1,2)
proof (induction xs rule: rev_induct)
  case (snoc x xs)
  show ?case
  proof (cases "xs = []")
    case True
    with assms(3) show ?thesis by (simp add: add_rtt_def Let_def)
  next
    case False
    define st1 where "st1 = fold add_rtt (map Fin xs) st"
    have ih: "n_recv st1 = int (length xs)" "rtt_min st1 = Fin (Min (set xs))"
      "rtt_max st1 = Fin (Max (set xs))"
      using snoc False by (simp_all add: st1_def)
    have n: "i32 (n_recv st1 + 1) = int (length xs) + 1" "int (length xs) + 1 \<noteq> 1"
      using ih snoc.prems False by simp_all
    have m: "Min (insert x (set xs)) = min x (Min (set xs))" "Max (insert x (set xs)) = max x (Max (set xs))"
      using False by simp_all
    have last: "fold add_rtt (map Fin (xs @ [x])) st = add_rtt (Fin x) st1" by (simp add: st1_def)
    show ?thesis
      unfolding last using n
      by (simp add: add_rtt_def Let_def ih m min_def max_def del: Min_gr_iff Max_less_iff Min_ge_iff Max_le_iff)
  qed
qed simp

lemma fold_add_rtt_sums:
  "sum_rtt (fold add_rtt rs st) = foldl dadd (sum_rtt st) rs"
  "sum_sq (fold add_rtt rs st) = foldl (\<lambda>s r. dadd s (dmul r r)) (sum_sq st) rs"
  by (induction rs arbitrary: st) (simp_all add: add_rtt_fields)

text \<open>C16. The statistics are those of the replies: after recording any non-empty sequence of
  finite round-trip times in a cleared record, the count is their number, the minimum and
  the maximum are two of them that bound all of them, and the two sums are the left-to-right
  sums of the values and of their squares.\<close>

theorem rtt_statistics:
  assumes "xs \<noteq> []" "length xs < 2147483648"
  shows "let rs = map Fin xs; st = fold add_rtt rs zero_stats in
    n_recv st = int (length xs) \<and>
    rtt_min st = Fin (Min (set xs)) \<and> rtt_max st = Fin (Max (set xs)) \<and>
    sum_rtt st = foldl dadd (Fin 0) rs \<and> sum_sq st = foldl (\<lambda>s r. dadd s (dmul r r)) (Fin 0) rs"
  using fold_add_rtt [OF assms, of zero_stats]
  by (simp add: fold_add_rtt_sums zero_stats_def Let_def)

theorem rtt_statistics_witness:
  "let st = fold add_rtt (map Fin [3, 1, 2]) zero_stats in
    n_recv st = 3 \<and> rtt_min st = Fin 1 \<and> rtt_max st = Fin 3"
  using rtt_statistics [of "[3, 1, 2]"] by (simp add: Let_def)

end
