(* ===== verification/Ping_Loop.thy ===== *)
theory Ping_Loop
  imports Ping_Receive
begin

text \<open>
  \<open>src/core/ping_loop.c\<close>: the event loop, which sends on the clock and receives on \<open>poll\<close>. Each
  function threads the context, the schedule, the statistics and the world; \<open>None\<close> is
  undefined behaviour or an exhausted bound. Two loops have a bound: the drain (\<open>rf\<close> passes)
  and the main loop (\<open>n\<close> passes); the other two, over \<open>-l\<close> and over the replies just
  collected, end by their own counters.
\<close>

section \<open>Operations\<close>

definition sched_init :: "t_flags \<Rightarrow> world \<Rightarrow> t_sched \<times> world" where
  "sched_init f w =
     (let i0 = dmul (Fin 1000) PING_INTERVAL_SEC;
          i1 = (if has_interval f then dmul (Fin 1000) (interval f) else i0);
          i2 = (if flood f then PING_FLOOD_INTERVAL_MS else i1);
          (d, w1) = (if has_timeout f
                     then (let (now, w1) = now_ms w in (dadd now (dmul (Fin 1000) (dint (timeout f))), w1))
                     else (PInf, w))
      in (\<lparr>s_interval = i2, deadline = d, last_send = Fin 0, seq = 0\<rparr>, w1))"

type_synonym net = "t_ping_ctx \<times> t_sched \<times> t_ping_stats \<times> world"

text \<open>\<open>send_one(sockfd, ctx, sched->seq++, stats)\<close>.\<close>

definition send_next :: "net \<Rightarrow> (int \<times> net) option" where
  "send_next s = (case s of (ctx, sched, st, w) \<Rightarrow> do {
     let sq = seq sched;
     let sched1 = sched\<lparr>seq := sq + 1\<rparr>;
     (rc, ctx1, st1, w1) \<leftarrow> send_one ctx sq st w;
     Some (rc, ctx1, sched1, st1, w1)
   })"

definition set_last_send :: "net \<Rightarrow> net" where
  "set_last_send s = (case s of (ctx, sched, st, w) \<Rightarrow>
     let (now, w1) = now_ms w in (ctx, sched\<lparr>last_send := now\<rparr>, st, w1))"

definition on_world :: "(world \<Rightarrow> world) \<Rightarrow> net \<Rightarrow> net" where
  "on_world g s = (case s of (ctx, sched, st, w) \<Rightarrow> (ctx, sched, st, g w))"

definition test_stop :: "net \<Rightarrow> bool \<times> net" where
  "test_stop s = (case s of (ctx, sched, st, w) \<Rightarrow>
     let (b, w1) = ping_should_stop w in (b, ctx, sched, st, w1))"

function send_preload_from :: "int \<Rightarrow> int \<Rightarrow> net \<Rightarrow> net option" where
  "send_preload_from n i s =
     (if i < n
      then (let (stop, s1) = test_stop s in
        if stop then Some s1
        else do {
          (rc, s2) \<leftarrow> send_next s1;
          send_preload_from n (i + 1) (if rc = - 1 then on_world ping_request_stop s2 else s2)
        })
      else Some s)"
  by pat_completeness auto
termination
  by (relation "measure (\<lambda>(n, i, s). nat (n - i))") auto

declare send_preload_from.simps [simp del]

definition send_preload :: "net \<Rightarrow> net option" where
  "send_preload s = (case s of (ctx, sched, st, w) \<Rightarrow> send_preload_from (preload (flags ctx)) 0 s)"

definition send_if_due :: "net \<Rightarrow> (int \<times> net) option" where
  "send_if_due s = (case s of (ctx, sched, st, w) \<Rightarrow>
     let (now, w1) = now_ms w in
     if dle (deadline sched) now then Some (- 1, ctx, sched, st, w1)
     else if dlt now (dadd (last_send sched) (s_interval sched)) then Some (0, ctx, sched, st, w1)
     else do {
       (rc, s1) \<leftarrow> send_next (ctx, sched, st, w1);
       Some (if rc = - 1 then (- 1, s1) else (0, set_last_send s1))
     })"

function send_per_reply :: "int \<Rightarrow> net \<Rightarrow> (int \<times> net) option" where
  "send_per_reply replies s =
     (if 0 < replies
      then (let (stop, s0) = test_stop s in
        if stop then Some (0, s0)
        else (case s0 of (ctx, sched, st, w) \<Rightarrow>
          let (now, w1) = now_ms w in
          if dle (deadline sched) now then Some (- 1, ctx, sched, st, w1)
          else do {
            (rc, s1) \<leftarrow> send_next (ctx, sched, st, w1);
            (if rc = - 1 then Some (- 1, s1) else send_per_reply (replies - 1) (set_last_send s1))
          }))
      else Some (0, s))"
  by pat_completeness auto
termination
  by (relation "measure (\<lambda>(n, s). nat n)") auto

declare send_per_reply.simps [simp del]

definition poll :: "int \<Rightarrow> world \<Rightarrow> poll_result \<times> world" where
  "poll timeout_ms w = (os_poll (env w) (k_poll w), w\<lparr>k_poll := k_poll w + 1\<rparr>)"

definition loop_once :: "nat \<Rightarrow> net \<Rightarrow> (int \<times> net) option" where
  "loop_once rf s = (case s of (ctx, sched, st, w) \<Rightarrow>
     let (now, w1) = now_ms w in
     if dle (deadline sched) now then Some (- 1, ctx, sched, st, w1)
     else do {
       ms \<leftarrow> ms_until (dfmin (dadd (last_send sched) (s_interval sched)) (deadline sched)) now;
       let (p, w2) = poll ms w1;
       (case p of
          PollError err \<Rightarrow>
            Some (if err = EINTR then (0, ctx, sched, st, w2)
                  else (- 1, ctx, sched, st, emit (Perror ''poll'' err) w2))
        | PollTimeout \<Rightarrow> send_if_due (ctx, sched, st, w2)
        | PollReadable \<Rightarrow> do {
            let before = n_recv st;
            (rc, ctx1, st1, w3) \<leftarrow> ping_receive rf ctx st w2;
            (if rc = - 1 then Some (- 1, ctx1, sched, st1, w3)
             else if exit_on_reply (flags ctx1) \<and> 0 < n_recv st1 then Some (- 1, ctx1, sched, st1, w3)
             else if bsd_flood (flags ctx1)
             then do {
               (rc2, s4) \<leftarrow> send_per_reply (i32 (n_recv st1 - before)) (ctx1, sched, st1, w3);
               (if rc2 = - 1 then Some (- 1, s4) else send_if_due s4)
             }
             else send_if_due (ctx1, sched, st1, w3))
          })
     })"

fun run_loop :: "nat \<Rightarrow> nat \<Rightarrow> net \<Rightarrow> net option" where
  "run_loop rf 0 s = None"
| "run_loop rf (Suc n) s =
     (let (stop, s1) = test_stop s in
      if stop then Some s1
      else do {
        (rc, s2) \<leftarrow> loop_once rf s1;
        (if rc = - 1 then Some s2 else run_loop rf n s2)
      })"

definition first_probe :: "net \<Rightarrow> net option" where
  "first_probe s =
     (let (stop, s1) = test_stop s in
      if stop then Some s1
      else do {
        (rc, s2) \<leftarrow> send_next s1;
        Some (if rc = - 1 then on_world ping_request_stop s2 else s2)
      })"

definition ping_run :: "nat \<Rightarrow> nat \<Rightarrow> t_ping_ctx \<Rightarrow> world \<Rightarrow> net option" where
  "ping_run rf n ctx w =
     (let st = zero_stats; (sched, w1) = sched_init (flags ctx) w in
      do {
        s1 \<leftarrow> send_preload (ctx, sched, st, w1);
        s2 \<leftarrow> first_probe s1;
        run_loop rf n (set_last_send s2)
      })"

end
