(* ===== verification/Ping_Session.thy ===== *)
theory Ping_Session
  imports Ping_Loop
begin

text \<open>
  The session as a transition system. Everything the loop of \<open>Ping_Loop\<close> does to its state is
  one of eight atomic steps (\<open>net_step\<close>); each function of the loop is shown to be a path of
  such steps, whatever the answers of the operating system. The invariants are proved once
  over the steps, by rule induction: what has been put on the wire is the numbered sequence of
  echo requests, the counter agrees with it, and the ring holds the readings of the clock
  the probes were stamped with.
\<close>

section \<open>Steps\<close>

inductive net_step :: "net \<Rightarrow> net \<Rightarrow> bool" where
  probe: "send_next s = Some (rc, s') \<Longrightarrow> net_step s s'"
| packet: "receive_step ctx st w = Some (r, ctx', st', w') \<Longrightarrow> net_step (ctx, sched, st, w) (ctx', sched, st', w')"
| mark: "net_step s (set_last_send s)"
| clock: "now_ms w = (t, w') \<Longrightarrow> net_step (ctx, sched, st, w) (ctx, sched, st, w')"
| test: "test_stop s = (b, s') \<Longrightarrow> net_step s s'"
| request: "net_step s (on_world ping_request_stop s)"
| wait: "poll ms w = (p, w') \<Longrightarrow> net_step (ctx, sched, st, w) (ctx, sched, st, w')"
| complain: "net_step (ctx, sched, st, w) (ctx, sched, st, emit (Perror m err) w)"

abbreviation net_steps :: "net \<Rightarrow> net \<Rightarrow> bool" where
  "net_steps \<equiv> net_step\<^sup>*\<^sup>*"

lemma one_step: "net_step s s' \<Longrightarrow> net_steps s s'"
  by (rule r_into_rtranclp)

lemma steps_then: "net_step s s' \<Longrightarrow> net_steps s' s'' \<Longrightarrow> net_steps s s''"
  by (rule converse_rtranclp_into_rtranclp)

lemma send_next_steps: "send_next s = Some (rc, s') \<Longrightarrow> net_steps s s'"
  by (rule one_step [OF probe])

lemma ping_receive_steps:
  "ping_receive rf ctx st w = Some (rc, ctx', st', w') \<Longrightarrow> net_steps (ctx, sched, st, w) (ctx', sched, st', w')"
proof (induction rf arbitrary: ctx st w)
  case (Suc rf)
  then obtain r c1 st1 w1 where r: "receive_step ctx st w = Some (r, c1, st1, w1)"
    by (auto split: Option.bind_splits)
  show ?case
  proof (cases r)
    case None
    then have "net_steps (c1, sched, st1, w1) (ctx', sched, st', w')"
      using Suc r by simp
    then show ?thesis using steps_then [OF packet [OF r]] by blast
  next
    case (Some k)
    then show ?thesis using Suc.prems r one_step [OF packet [OF r]] by simp
  qed
qed simp

lemma send_preload_steps: "send_preload_from n i s = Some s' \<Longrightarrow> net_steps s s'"
proof (induction n i s rule: send_preload_from.induct)
  case (1 n i s)
  show ?case
  proof (cases "i < n")
    case False
    then show ?thesis using 1(2) by (simp add: send_preload_from.simps [of n i s])
  next
    case True
    obtain b s1 where t: "test_stop s = (b, s1)" by (cases "test_stop s")
    show ?thesis
    proof (cases b)
      case True
      then show ?thesis using 1(2) \<open>i < n\<close> t one_step [OF test [OF t]]
        by (simp add: send_preload_from.simps [of n i s])
    next
      case False
      then obtain rc s2 where s2: "send_next s1 = Some (rc, s2)"
        "send_preload_from n (i + 1) (if rc = - 1 then on_world ping_request_stop s2 else s2) = Some s'"
        using 1(2) \<open>i < n\<close> t
        by (auto simp: send_preload_from.simps [of n i s] split: Option.bind_splits)
      have "net_steps (if rc = - 1 then on_world ping_request_stop s2 else s2) s'"
        using 1(1) True False t s2 by simp
      moreover have "net_steps s2 (if rc = - 1 then on_world ping_request_stop s2 else s2)"
        using one_step [OF request] by simp
      ultimately show ?thesis
        using steps_then [OF test [OF t]] steps_then [OF probe [OF s2(1)]] by (meson rtranclp_trans)
    qed
  qed
qed

lemma send_if_due_steps: "send_if_due s = Some (rc, s') \<Longrightarrow> net_steps s s'"
proof -
  assume a: "send_if_due s = Some (rc, s')"
  obtain ctx sched st w where s: "s = (ctx, sched, st, w)" by (cases s)
  obtain t w1 where t: "now_ms w = (t, w1)" by fastforce
  have st1: "net_step s (ctx, sched, st, w1)" unfolding s by (rule clock [OF t])
  consider "s' = (ctx, sched, st, w1)"
    | rc1 s1 where "send_next (ctx, sched, st, w1) = Some (rc1, s1)" "s' = s1 \<or> s' = set_last_send s1"
    using a unfolding s send_if_due_def prod.case t
    by (auto split: if_splits Option.bind_splits prod.splits)
  then show ?thesis
  proof cases
    case 1
    then show ?thesis using st1 by simp
  next
    case 2
    have "net_steps s1 s'" using 2(2) by (auto intro: one_step [OF mark])
    then show ?thesis using steps_then [OF st1] steps_then [OF probe [OF 2(1)]] by blast
  qed
qed

lemma send_per_reply_steps: "send_per_reply n s = Some (rc, s') \<Longrightarrow> net_steps s s'"
proof (induction n s rule: send_per_reply.induct)
  case (1 n s)
  show ?case
  proof (cases "0 < n")
    case False
    then show ?thesis using 1(2) by (simp add: send_per_reply.simps [of n s])
  next
    case True
    obtain b ctx sched st w where t: "test_stop s = (b, ctx, sched, st, w)" by (metis prod.exhaust)
    obtain now w1 where c: "now_ms w = (now, w1)" by fastforce
    note st1 = test [OF t] and st2 = clock [OF c, of ctx sched st]
    show ?thesis
    proof (cases "b \<or> dle (deadline sched) now")
      case True
      then show ?thesis using 1(2) \<open>0 < n\<close> t c st1 st2
        by (auto simp: send_per_reply.simps [of n s] split: if_splits intro: steps_then)
    next
      case False
      then obtain rc1 s1 where s1: "send_next (ctx, sched, st, w1) = Some (rc1, s1)"
        using 1(2) \<open>0 < n\<close> t c by (auto simp: send_per_reply.simps [of n s] split: Option.bind_splits)
      have "net_steps s1 s'"
      proof (cases "rc1 = - 1")
        case True
        then show ?thesis using 1(2) \<open>0 < n\<close> t c False s1 by (simp add: send_per_reply.simps [of n s])
      next
        case ok: False
        then have "net_steps (set_last_send s1) s'"
          using 1 \<open>0 < n\<close> t c False s1 by (simp add: send_per_reply.simps [of n s])
        then show ?thesis using steps_then [OF mark] by blast
      qed
      then show ?thesis using steps_then [OF st1] steps_then [OF st2] steps_then [OF probe [OF s1]] by blast
    qed
  qed
qed

lemma loop_once_rest_steps:
  assumes a: "loop_once rf (ctx, sched, st, w) = Some (rc, s')"
    and c: "now_ms w = (now, w1)" and nd: "\<not> dle (deadline sched) now"
    and ms: "ms_until (dfmin (dadd (last_send sched) (s_interval sched)) (deadline sched)) now = Some ms"
    and p: "poll ms w1 = (p, w2)"
  shows "net_steps (ctx, sched, st, w2) s'"
proof (cases p)
  case (PollError err)
  then have "s' = (ctx, sched, st, w2) \<or> s' = (ctx, sched, st, emit (Perror ''poll'' err) w2)"
    using a nd ms p unfolding loop_once_def prod.case c by (auto split: if_splits)
  then show ?thesis using one_step [OF complain] by auto
next
  case PollTimeout
  then have "send_if_due (ctx, sched, st, w2) = Some (rc, s')"
    using a nd ms p unfolding loop_once_def prod.case c by simp
  then show ?thesis by (rule send_if_due_steps)
next
  case PollReadable
  then obtain rc1 ctx1 st1 w3 where r: "ping_receive rf ctx st w2 = Some (rc1, ctx1, st1, w3)"
    using a nd ms p unfolding loop_once_def prod.case c by (auto split: Option.bind_splits)
  define s3 where "s3 = (ctx1, sched, st1, w3)"
  have st3: "net_steps (ctx, sched, st, w2) s3" unfolding s3_def by (rule ping_receive_steps [OF r])
  have o: "Some (rc, s') =
    (if rc1 = - 1 then Some (- 1, s3)
     else if exit_on_reply (flags ctx1) \<and> 0 < n_recv st1 then Some (- 1, s3)
     else if bsd_flood (flags ctx1)
     then do {
       (rc2, s4) \<leftarrow> send_per_reply (i32 (n_recv st1 - n_recv st)) s3;
       (if rc2 = - 1 then Some (- 1, s4) else send_if_due s4)
     }
     else send_if_due s3)"
    using a nd ms p r PollReadable unfolding loop_once_def prod.case c s3_def by simp
  then consider "s' = s3" | "send_if_due s3 = Some (rc, s')"
    | rc2 s4 where "send_per_reply (i32 (n_recv st1 - n_recv st)) s3 = Some (rc2, s4)"
        "s' = s4 \<or> send_if_due s4 = Some (rc, s')"
    by (auto split: if_splits Option.bind_splits)
  then have "net_steps s3 s'"
  proof cases
    case 3
    then have "net_steps s4 s'" by (auto intro: send_if_due_steps)
    then show ?thesis using send_per_reply_steps [OF 3(1)] by (rule rtranclp_trans [rotated])
  qed (auto intro: send_if_due_steps)
  then show ?thesis using st3 by (rule rtranclp_trans [rotated])
qed

lemma loop_once_steps:
  assumes a: "loop_once rf s = Some (rc, s')"
  shows "net_steps s s'"
proof -
  obtain ctx sched st w where s: "s = (ctx, sched, st, w)" by (cases s)
  obtain now w1 where c: "now_ms w = (now, w1)" by (cases "now_ms w")
  have st1: "net_step s (ctx, sched, st, w1)" unfolding s by (rule clock [OF c])
  show ?thesis
  proof (cases "dle (deadline sched) now")
    case True
    then show ?thesis using a st1 unfolding s loop_once_def prod.case c by auto
  next
    case False
    then obtain ms where ms: "ms_until (dfmin (dadd (last_send sched) (s_interval sched)) (deadline sched)) now = Some ms"
      using a unfolding s loop_once_def prod.case c by (auto split: Option.bind_splits)
    obtain p w2 where p: "poll ms w1 = (p, w2)" by (cases "poll ms w1")
    have "net_steps s (ctx, sched, st, w2)"
      using steps_then [OF st1 one_step [OF wait [OF p]]] .
    then show ?thesis
      using loop_once_rest_steps [OF a [unfolded s] c False ms p] by (rule rtranclp_trans)
  qed
qed

lemma run_loop_steps: "run_loop rf n s = Some s' \<Longrightarrow> net_steps s s'"
proof (induction n arbitrary: s)
  case (Suc n)
  obtain b s1 where t: "test_stop s = (b, s1)" by (cases "test_stop s")
  show ?case
  proof (cases b)
    case True
    then show ?thesis using Suc.prems t one_step [OF test [OF t]] by simp
  next
    case False
    then obtain rc s2 where l: "loop_once rf s1 = Some (rc, s2)"
      using Suc.prems t by (auto split: Option.bind_splits)
    then have "net_steps s2 s'" using Suc t False by (auto split: if_splits)
    then show ?thesis using steps_then [OF test [OF t]] loop_once_steps [OF l] by (meson rtranclp_trans)
  qed
qed simp

text \<open>The whole run is a path from the initialised schedule.\<close>

lemma ping_run_steps:
  assumes "ping_run rf n ctx w = Some s'"
  shows "\<exists>sched. seq sched = 0 \<and> sched = fst (sched_init (flags ctx) w) \<and> net_steps (ctx, sched, zero_stats, snd (sched_init (flags ctx) w)) s'"
proof -
  obtain sched w1 where i: "sched_init (flags ctx) w = (sched, w1)" by (cases "sched_init (flags ctx) w")
  obtain s1 s2 where s1: "send_preload (ctx, sched, zero_stats, w1) = Some s1"
    and s2: "first_probe s1 = Some s2" and s': "run_loop rf n (set_last_send s2) = Some s'"
    using assms by (auto simp: ping_run_def i Let_def split: Option.bind_splits)
  have 1: "net_steps (ctx, sched, zero_stats, w1) s1"
    using s1 by (simp add: send_preload_def send_preload_steps)
  have 2: "net_steps s1 s2"
  proof -
    obtain b t where t: "test_stop s1 = (b, t)" by (cases "test_stop s1")
    show ?thesis
    proof (cases b)
      case True
      then show ?thesis using s2 t one_step [OF test [OF t]] by (simp add: first_probe_def)
    next
      case False
      then obtain rc u where u: "send_next t = Some (rc, u)" "s2 = (if rc = - 1 then on_world ping_request_stop u else u)"
        using s2 t by (auto simp: first_probe_def split: Option.bind_splits)
      have "net_steps u s2" using u(2) one_step [OF request] by simp
      then show ?thesis using steps_then [OF test [OF t]] steps_then [OF probe [OF u(1)]] by blast
    qed
  qed
  have 3: "net_steps s2 s'" using steps_then [OF mark run_loop_steps [OF s']] .
  have "seq sched = 0" using i by (auto simp: sched_init_def Let_def split: if_splits prod.splits)
  with 1 2 3 show ?thesis unfolding i by (intro exI [of _ sched]) (auto intro: rtranclp_trans)
qed

section \<open>What is on the wire\<close>

fun is_send :: "event \<Rightarrow> bool" where
  "is_send (Sendto _ _) = True"
| "is_send _ = False"

abbreviation sends :: "world \<Rightarrow> event list" where
  "sends w \<equiv> filter is_send (events w)"

definition same_config :: "t_ping_ctx \<Rightarrow> t_ping_ctx \<Rightarrow> bool" where
  "same_config c d \<longleftrightarrow> flags d = flags c \<and> dst d = dst c \<and> ctx_id d = ctx_id c \<and>
     payload_len d = payload_len c \<and> recvbuf_len d = recvbuf_len c"

lemma echo_request_config: "same_config c d \<Longrightarrow> echo_request d e sq t = echo_request c e sq t"
  by (simp add: same_config_def echo_request_def payload_spec_def)

text \<open>The packets the kernel accepted among the first \<open>n\<close>, given the send times.\<close>

definition wire :: "os \<Rightarrow> t_ping_ctx \<Rightarrow> (nat \<Rightarrow> timespec) \<Rightarrow> nat \<Rightarrow> event list" where
  "wire e c ts n = map (\<lambda>i. Sendto (echo_request c (os_endian e) (of_nat i) (ts i)) (dst c))
     (filter (\<lambda>i. os_send e i = None) [0..<n])"

lemma wire_Suc:
  "wire e c (ts(n := t)) (Suc n) = wire e c ts n @
     (if os_send e n = None then [Sendto (echo_request c (os_endian e) (of_nat n) t) (dst c)] else [])"
  by (simp add: wire_def)

text \<open>Two readings of the clock: how the invariant says where a time comes from.\<close>

definition read_before :: "world \<Rightarrow> timespec \<Rightarrow> bool" where
  "read_before w t \<longleftrightarrow> (\<exists>j < k_clock w. t = os_clock (env w) j)"

lemma read_before_mono:
  "read_before w t \<Longrightarrow> env w' = env w \<Longrightarrow> k_clock w \<le> k_clock w' \<Longrightarrow> read_before w' t"
  unfolding read_before_def by (metis order_less_le_trans)

text \<open>
  The ring holds times that were read, zeros where nothing was sent, and the send times of
  the last 65536 probes.
\<close>

definition ring_ok :: "world \<Rightarrow> (nat \<Rightarrow> timespec) \<Rightarrow> (nat \<Rightarrow> timespec) \<Rightarrow> bool" where
  "ring_ok w ts ring \<longleftrightarrow>
     (\<forall>i < k_send w. read_before w (ts i)) \<and>
     (\<forall>sl. ring sl = zero_ts \<or> read_before w (ring sl)) \<and>
     (\<forall>i < k_send w. k_send w \<le> i + 65536 \<longrightarrow> ring (ring_slot (of_nat i)) = ts i)"

lemma ring_ok_mono:
  "ring_ok w ts ring \<Longrightarrow> env w' = env w \<Longrightarrow> k_send w' = k_send w \<Longrightarrow> k_clock w \<le> k_clock w' \<Longrightarrow>
     ring_ok w' ts ring"
  using read_before_mono unfolding ring_ok_def by metis

definition net_inv :: "os \<Rightarrow> t_ping_ctx \<Rightarrow> net \<Rightarrow> bool" where
  "net_inv e c s \<longleftrightarrow> (case s of (ctx, sched, st, w) \<Rightarrow>
     env w = e \<and> wf_ctx ctx \<and> same_config c ctx \<and> seq sched = of_nat (k_send w) \<and>
     n_sent st = i32 (int (length (sends w))) \<and>
     (\<exists>ts ring. send_ts ctx = Some ring \<and> ring_ok w ts ring \<and> sends w = wire e c ts (k_send w)))"

lemma net_inv_idle:
  assumes "net_inv e c (ctx, sched, st, w)" "env w' = env w" "k_send w' = k_send w"
    "sends w' = sends w" "k_clock w \<le> k_clock w'" "seq sched' = seq sched" "n_sent st' = n_sent st"
    "wf_ctx ctx'" "same_config ctx ctx'" "send_ts ctx' = send_ts ctx"
  shows "net_inv e c (ctx', sched', st', w')"
  using assms ring_ok_mono [OF _ assms(2,3,5)] unfolding net_inv_def prod.case same_config_def
  by auto

lemma net_inv_world:
  "net_inv e c (ctx, sched, st, w) \<Longrightarrow> env w' = env w \<Longrightarrow> k_send w' = k_send w \<Longrightarrow>
    sends w' = sends w \<Longrightarrow> k_clock w \<le> k_clock w' \<Longrightarrow> seq sched' = seq sched \<Longrightarrow>
    net_inv e c (ctx, sched', st, w')"
  by (rule net_inv_idle) (auto simp: net_inv_def same_config_def)

lemma print_not_send [simp]:
  "sends (print_checksum_mismatch a w) = sends w" "sends (print_flood_recv w) = sends w"
  "sends (print_reply n a sq hops rtt w) = sends w" "sends (icmp_error_report ctx dg ihl w) = sends w"
  by (auto simp: print_checksum_mismatch_def print_flood_recv_def print_reply_def icmp_error_report_def
      print_icmp_error_def split: option.split)

lemma react_sends:
  assumes "react ctx ring dg st w = (st', w')"
  shows "sends w' = sends w \<and> k_clock w \<le> k_clock w' \<and> k_clock w' \<le> k_clock w + 1"
  using assms
  by (auto simp: react_def Let_def print_checksum_mismatch_def print_flood_recv_def print_reply_def
      split: verdict.splits if_splits)

lemma wf_ctx_buffer: "wf_ctx ctx \<Longrightarrow> \<exists>buf. recvbuf ctx = Some buf \<and> length buf = recvbuf_len ctx"
  by (auto simp: wf_ctx_def)

lemma net_inv_packet:
  assumes inv: "net_inv e c (ctx, sched, st, w)" and r: "receive_step ctx st w = Some (k, ctx', st', w')"
  shows "net_inv e c (ctx', sched, st', w')"
proof -
  have wf: "wf_ctx ctx" using inv by (simp add: net_inv_def)
  obtain ring where ring: "send_ts ctx = Some ring" using wf_ctx_ring [OF wf] by blast
  obtain buf where b: "recvbuf ctx = Some buf" using wf_ctx_buffer [OF wf] by blast
  show ?thesis
  proof (cases "os_recv (env w) (k_recv w)")
    case (RecvError err)
    have "ctx' = ctx" "st' = st" "env w' = env w" "k_send w' = k_send w" "k_clock w' = k_clock w" "sends w' = sends w"
      using r by (auto simp: receive_step_error [OF RecvError] classify_recv_error_def Let_def split: if_splits)
    then show ?thesis by (intro net_inv_idle [OF inv]) (simp_all add: wf same_config_def)
  next
    case (RecvData d)
    define dg where "dg = take (recvbuf_len ctx) d"
    obtain st1 w1 where re: "react ctx ring dg st (w\<lparr>k_recv := k_recv w + 1\<rparr>) = (st1, w1)" by fastforce
    have o: "ctx' = ctx\<lparr>recvbuf := Some (dg @ drop (length dg) buf)\<rparr>" "st' = st1" "w' = w1"
      using r unfolding receive_step_eq [OF wf ring b RecvData] Let_def dg_def [symmetric] re by simp_all
    have wf': "wf_ctx ctx'" unfolding o dg_def by (rule wf_ctx_recvbuf [OF wf b])
    show ?thesis
      using react_frame [OF re] react_sends [OF re] wf'
      by (intro net_inv_idle [OF inv]) (simp_all add: o same_config_def)
  qed
qed

lemma net_inv_probe:
  assumes inv: "net_inv e c s" and r: "send_next s = Some (rc, s')"
  shows "net_inv e c s'"
proof -
  obtain ctx sched st w where s: "s = (ctx, sched, st, w)" by (cases s)
  define n where "n = k_send w"
  define t where "t = os_clock (env w) (k_clock w)"
  obtain ts ring where i: "env w = e" "wf_ctx ctx" "same_config c ctx" "seq sched = of_nat n"
      "n_sent st = i32 (int (length (sends w)))" "send_ts ctx = Some ring" "ring_ok w ts ring"
      "sends w = wire e c ts n"
    using inv by (auto simp: s net_inv_def n_def)
  define packet where "packet = echo_request ctx (host_endian w) (of_nat n) t"
  define w1 where "w1 = after_send ctx packet w"
  have p: "packet = echo_request c (os_endian e) (of_nat n) t" "dst ctx = dst c"
    using echo_request_config [OF i(3)] i(1,3) by (simp_all add: packet_def same_config_def)
  have s': "s' = (ctx\<lparr>send_ts := Some (ring(ring_slot (of_nat n) := t)), pkt := Some packet\<rparr>,
      sched\<lparr>seq := of_nat n + 1\<rparr>,
      (if os_send e n = None then st\<lparr>n_sent := i32 (n_sent st + 1)\<rparr> else st), w1)"
    using r send_one_eq [OF i(2,6), of w "of_nat n" st] i(1)
    by (simp add: s send_next_def i(4) Let_def n_def packet_def w1_def t_def)
  have w1: "env w1 = e" "k_send w1 = Suc n" "k_clock w1 = Suc (k_clock w)"
    "sends w1 = sends w @ (if os_send e n = None then [Sendto packet (dst ctx)] else [])"
    using i(1) by (auto simp: w1_def after_send_def n_def split: option.split)
  have wf': "wf_ctx (ctx\<lparr>send_ts := Some (ring(ring_slot (of_nat n) := t)), pkt := Some packet\<rparr>)"
    unfolding packet_def by (rule wf_ctx_after_send [OF i(2)])
  have sw: "sends w1 = wire e c (ts(n := t)) (Suc n)"
    unfolding wire_Suc w1(4) i(8) p ..
  have rt: "read_before w1 t" using i(1) by (auto simp: read_before_def w1 t_def)
  have rb: "read_before w u \<Longrightarrow> read_before w1 u" for u
    using i(1) by (auto intro: read_before_mono simp: w1)
  have slots: "ring_slot (of_nat j) \<noteq> ring_slot (of_nat n)" if "j < n" "Suc n \<le> j + 65536" for j
    using ring_slot_distinct [of j n 0] that by simp
  have "ring_ok w1 (ts(n := t)) (ring(ring_slot (of_nat n) := t))"
    using i(7) rt rb slots unfolding ring_ok_def w1 n_def [symmetric] by (auto simp: less_Suc_eq)
  moreover have "n_sent (if os_send e n = None then st\<lparr>n_sent := i32 (n_sent st + 1)\<rparr> else st)
      = i32 (int (length (sends w1)))"
    using i32_plus_left [of "int (length (sends w))" 1] by (simp add: w1(4) i(5) add.commute)
  ultimately show ?thesis
    unfolding s' net_inv_def prod.case
    using wf' i(3) sw w1(1-3) by (auto simp: same_config_def)
qed

lemma net_inv_step: "net_step s s' \<Longrightarrow> net_inv e c s \<Longrightarrow> net_inv e c s'"
proof (induction rule: net_step.induct)
  case (probe s rc s')
  then show ?case by (rule net_inv_probe [rotated])
next
  case (packet ctx st w r ctx' st' w' sched)
  then show ?case by (rule net_inv_packet [rotated])
next
  case (mark s)
  obtain ctx sched st w where s: "s = (ctx, sched, st, w)" by (cases s)
  show ?case
    using mark unfolding s set_last_send_def now_ms_def clock_gettime_def prod.case Let_def
    by (rule net_inv_world) simp_all
next
  case (clock w t w' ctx sched st)
  have w': "w' = w\<lparr>k_clock := k_clock w + 1\<rparr>" using clock(1) by (simp add: now_ms_def clock_gettime_def)
  show ?case by (rule net_inv_world [OF clock(2)]) (simp_all add: w')
next
  case (test s b s')
  obtain ctx sched st w where s: "s = (ctx, sched, st, w)" by (cases s)
  have s': "s' = (ctx, sched, st, snd (ping_should_stop w))"
    using test(1) by (simp add: s test_stop_def split_def Let_def)
  show ?case unfolding s' by (rule net_inv_world [OF test(2) [unfolded s]]) simp_all
next
  case (request s)
  obtain ctx sched st w where s: "s = (ctx, sched, st, w)" by (cases s)
  show ?case using request unfolding s on_world_def prod.case by (rule net_inv_world) simp_all
next
  case (wait ms w p w' ctx sched st)
  have w': "w' = w\<lparr>k_poll := k_poll w + 1\<rparr>" using wait(1) by (simp add: poll_def)
  show ?case by (rule net_inv_world [OF wait(2)]) (simp_all add: w')
next
  case (complain ctx sched st w m err)
  then show ?case by (rule net_inv_world) simp_all
qed

lemma net_inv_steps: "net_steps s s' \<Longrightarrow> net_inv e c s \<Longrightarrow> net_inv e c s'"
  by (induction rule: rtranclp_induct) (auto intro: net_inv_step)

lemma net_inv_init:
  assumes "wf_ctx ctx" "send_ts ctx = Some (\<lambda>_. zero_ts)" "k_send w = 0" "sends w = []" "seq sched = 0"
  shows "net_inv (env w) ctx (ctx, sched, zero_stats, snd (sched_init (flags ctx) w))"
proof -
  have w: "env (snd (sched_init (flags ctx) w)) = env w" "k_send (snd (sched_init (flags ctx) w)) = 0"
    "sends (snd (sched_init (flags ctx) w)) = []"
    using assms(3,4) by (simp_all add: sched_init_def now_ms_def clock_gettime_def Let_def)
  show ?thesis
    using assms(1,2,5) w by (auto simp: net_inv_def same_config_def ring_ok_def wire_def zero_stats_def)
qed

lemma session_sends:
  assumes "wf_ctx ctx" "send_ts ctx = Some (\<lambda>_. zero_ts)" "k_send w = 0" "sends w = []"
    and "ping_run rf n ctx w = Some (ctx', sched', st', w')"
  shows "\<exists>ts. sends w' = wire (env w) ctx ts (k_send w') \<and>
    (\<forall>i < k_send w'. read_before w' (ts i)) \<and>
    n_sent st' = i32 (int (length (sends w'))) \<and> seq sched' = of_nat (k_send w')"
proof -
  obtain sched where s: "seq sched = 0"
    "net_steps (ctx, sched, zero_stats, snd (sched_init (flags ctx) w)) (ctx', sched', st', w')"
    using ping_run_steps [OF assms(5)] by blast
  have "net_inv (env w) ctx (ctx', sched', st', w')"
    by (rule net_inv_steps [OF s(2) net_inv_init [OF assms(1-4) s(1)]])
  then show ?thesis unfolding net_inv_def prod.case ring_ok_def by blast
qed

lemma session_config:
  assumes "wf_ctx ctx" "send_ts ctx = Some (\<lambda>_. zero_ts)" "k_send w = 0" "sends w = []"
    and "ping_run rf n ctx w = Some (ctx', sched', st', w')"
  shows "same_config ctx ctx'"
proof -
  obtain sched where s: "seq sched = 0"
    "net_steps (ctx, sched, zero_stats, snd (sched_init (flags ctx) w)) (ctx', sched', st', w')"
    using ping_run_steps [OF assms(5)] by blast
  have "net_inv (env w) ctx (ctx', sched', st', w')"
    by (rule net_inv_steps [OF s(2) net_inv_init [OF assms(1-4) s(1)]])
  then show ?thesis by (simp add: net_inv_def)
qed

end
