(* ===== verification/Ping_Termination.thy ===== *)
theory Ping_Termination
  imports Ping_Session
begin

text \<open>
  When a run ends. The program waits for events it does not control, so the statements name
  what they assume of the environment: the clock gives valid readings, a drain meets an empty
  queue after at most \<open>m\<close> datagrams, and SIGINT arrives or the deadline of \<open>-t\<close> passes. Under
  these every function of the loop returns, and the bounds of the model are enough.
\<close>

section \<open>What a step leaves alone\<close>

definition frame :: "net \<Rightarrow> net \<Rightarrow> bool" where
  "frame s s' \<longleftrightarrow> (case s of (ctx, sched, st, w) \<Rightarrow> case s' of (ctx', sched', st', w') \<Rightarrow>
     env w' = env w \<and> deadline sched' = deadline sched \<and> s_interval sched' = s_interval sched \<and>
     k_clock w \<le> k_clock w' \<and> k_sigint w \<le> k_sigint w' \<and> (g_stop w \<longrightarrow> g_stop w') \<and>
     (\<forall>k. os_sigint (env w) k \<and> k_sigint w \<le> k \<and> k < k_sigint w' \<longrightarrow> g_stop w'))"

lemma frame_refl [simp]: "frame s s"
  by (cases s) (auto simp: frame_def)

lemma frame_trans: "frame a b \<Longrightarrow> frame b c \<Longrightarrow> frame a c"
  by (cases a; cases b; cases c) (simp add: frame_def, meson le_trans not_le)

lemma frame_step: "net_step s s' \<Longrightarrow> net_inv e c s \<Longrightarrow> frame s s'"
proof (induction rule: net_step.induct)
  case (probe s rc s')
  obtain ctx sched st w where s: "s = (ctx, sched, st, w)" by (cases s)
  obtain ring where i: "wf_ctx ctx" "send_ts ctx = Some ring"
    using probe(2) by (auto simp: s net_inv_def)
  show ?case
    using probe(1) send_one_eq [OF i, of w "seq sched" st]
    by (auto simp: s send_next_def Let_def frame_def after_send_def)
next
  case (packet ctx st w r ctx' st' w' sched)
  have wf: "wf_ctx ctx" using packet(2) by (simp add: net_inv_def)
  obtain ring where ring: "send_ts ctx = Some ring" using wf_ctx_ring [OF wf] by blast
  obtain buf where b: "recvbuf ctx = Some buf" using wf_ctx_buffer [OF wf] by blast
  show ?case
  proof (cases "os_recv (env w) (k_recv w)")
    case (RecvError err)
    then show ?thesis
      using packet(1) by (auto simp: receive_step_error classify_recv_error_def frame_def Let_def split: if_splits)
  next
    case (RecvData d)
    obtain st1 w1 where re: "react ctx ring (take (recvbuf_len ctx) d) st (w\<lparr>k_recv := k_recv w + 1\<rparr>) = (st1, w1)"
      by fastforce
    have "w' = w1" using packet(1) unfolding receive_step_eq [OF wf ring b RecvData] Let_def re by simp
    then show ?thesis using react_frame [OF re] react_sends [OF re] by (auto simp: frame_def)
  qed
next
  case (mark s)
  show ?case by (cases s) (auto simp: frame_def set_last_send_def now_ms_def clock_gettime_def)
next
  case (test s b s')
  obtain ctx sched st w where s: "s = (ctx, sched, st, w)" by (cases s)
  have s': "s' = (ctx, sched, st, snd (ping_should_stop w))"
    using test(1) by (simp add: s test_stop_def split_def Let_def)
  have "g_stop w \<or> os_sigint (env w) (k_sigint w) \<Longrightarrow> g_stop (snd (ping_should_stop w))"
    by (auto simp: ping_should_stop_def on_sigint_def Let_def)
  moreover have "k_sigint w \<le> k \<Longrightarrow> k < k_sigint w + 1 \<Longrightarrow> k = k_sigint w" for k by simp
  ultimately show ?case unfolding s s' frame_def prod.case should_stop_frame by (metis le_add1 order_refl)
qed (auto simp: frame_def on_world_def now_ms_def clock_gettime_def poll_def ping_request_stop_def)

lemma frame_steps: "net_steps s s' \<Longrightarrow> net_inv e c s \<Longrightarrow> frame s s'"
  by (induction rule: rtranclp_induct) (auto intro: frame_trans frame_step net_inv_steps)

section \<open>Every function of the loop returns\<close>

definition clock_valid :: "os \<Rightarrow> bool" where
  "clock_valid e \<longleftrightarrow> (\<forall>k. valid_ts (os_clock e k))"

definition drains :: "os \<Rightarrow> nat \<Rightarrow> bool" where
  "drains e m \<longleftrightarrow> (\<forall>k. \<exists>j \<le> m. \<exists>err. os_recv e (k + j) = RecvError err)"

lemma send_next_total: "net_inv e c s \<Longrightarrow> \<exists>rc s'. send_next s = Some (rc, s')"
proof -
  assume inv: "net_inv e c s"
  obtain ctx sched st w where s: "s = (ctx, sched, st, w)" by (cases s)
  obtain ring where i: "wf_ctx ctx" "send_ts ctx = Some ring" using inv by (auto simp: s net_inv_def)
  show ?thesis using send_one_eq [OF i, of w "seq sched" st] by (simp add: s send_next_def Let_def)
qed

lemma send_preload_total: "net_inv e c s \<Longrightarrow> send_preload_from n i s \<noteq> None"
proof (induction n i s rule: send_preload_from.induct)
  case (1 n i s)
  show ?case
  proof (cases "i < n")
    case True
    obtain b s1 where t: "test_stop s = (b, s1)" by (cases "test_stop s")
    have inv1: "net_inv e c s1" using net_inv_step [OF test [OF t] 1(2)] .
    obtain rc s2 where s2: "send_next s1 = Some (rc, s2)" using send_next_total [OF inv1] by blast
    have inv2: "net_inv e c (if rc = - 1 then on_world ping_request_stop s2 else s2)"
      using net_inv_step [OF probe [OF s2] inv1] net_inv_step [OF request] by simp
    show ?thesis
      using 1(1) [OF True] t s2 inv2 True by (cases b) (simp_all add: send_preload_from.simps [of n i s])
  qed (simp add: send_preload_from.simps [of n i s])
qed

lemma send_if_due_total: "net_inv e c s \<Longrightarrow> send_if_due s \<noteq> None"
proof -
  assume inv: "net_inv e c s"
  obtain ctx sched st w where s: "s = (ctx, sched, st, w)" by (cases s)
  obtain now w1 where n: "now_ms w = (now, w1)" by (cases "now_ms w")
  have "net_inv e c (ctx, sched, st, w1)" using net_inv_step [OF clock [OF n] inv [unfolded s]] .
  then obtain rc s1 where "send_next (ctx, sched, st, w1) = Some (rc, s1)" using send_next_total by blast
  then show ?thesis
    by (cases s1; cases "set_last_send s1") (simp add: s send_if_due_def n)
qed

lemma send_per_reply_total: "net_inv e c s \<Longrightarrow> send_per_reply n s \<noteq> None"
proof (induction n s rule: send_per_reply.induct)
  case (1 n s)
  show ?case
  proof (cases "0 < n")
    case True
    obtain b ctx sched st w where t: "test_stop s = (b, ctx, sched, st, w)" by (metis prod.exhaust)
    obtain now w1 where nw: "now_ms w = (now, w1)" by (cases "now_ms w")
    have inv1: "net_inv e c (ctx, sched, st, w1)"
      using net_inv_step [OF clock [OF nw] net_inv_step [OF test [OF t] 1(2)]] .
    obtain rc s1 where s1: "send_next (ctx, sched, st, w1) = Some (rc, s1)" using send_next_total [OF inv1] by blast
    have inv2: "net_inv e c (set_last_send s1)"
      using net_inv_step [OF mark net_inv_step [OF probe [OF s1] inv1]] .
    show ?thesis
    proof (cases "b \<or> dle (deadline sched) now \<or> rc = - 1")
      case True
      then show ?thesis using \<open>0 < n\<close> t nw s1
        by (cases s1) (auto simp: send_per_reply.simps [of n s])
    next
      case False
      then show ?thesis
        using 1(1) [OF \<open>0 < n\<close> refl t [symmetric] _ refl refl refl refl nw [symmetric] _ s1 refl _ inv2]
          \<open>0 < n\<close> t nw s1
        by (simp add: send_per_reply.simps [of n s])
    qed
  qed (simp add: send_per_reply.simps [of n s])
qed

lemma ping_receive_total:
  assumes "wf_ctx ctx" "drains (env w) m" "m < rf"
  shows "ping_receive rf ctx st w \<noteq> None"
proof -
  define err_at where "err_at j = (\<exists>err. os_recv (env w) (k_recv w + j) = RecvError err)" for j
  obtain j0 where "j0 \<le> m" "err_at j0" using assms(2) unfolding drains_def err_at_def by blast
  then have j: "err_at (LEAST j. err_at j)" "(LEAST j. err_at j) \<le> m"
    by (auto intro: LeastI Least_le le_trans)
  define j where "j = (LEAST j. err_at j)"
  have "\<forall>i < j. \<exists>d. os_recv (env w) (k_recv w + i) = RecvData d"
    using not_less_Least [of _ err_at] unfolding j_def err_at_def by (metis recv_result.exhaust)
  then obtain d where d: "\<forall>i < j. os_recv (env w) (k_recv w + i) = RecvData (d i)" by metis
  obtain err where err: "os_recv (env w) (k_recv w + j) = RecvError err" using j(1) unfolding j_def err_at_def by blast
  obtain ring where ring: "send_ts ctx = Some ring" using wf_ctx_ring [OF assms(1)] by blast
  have "\<forall>i < length (map d [0..<j]). os_recv (env w) (k_recv w + i) = RecvData (map d [0..<j] ! i)"
    using d by simp
  moreover have "length (map d [0..<j]) < rf" using j(2) assms(3) by (simp flip: j_def)
  ultimately show ?thesis
    using ping_receive_eq [OF assms(1) ring, of "map d [0..<j]" w err rf st] err
    by (auto simp: Let_def split_def)
qed

lemma dfmin_not_NaN: "b \<noteq> NaN \<Longrightarrow> dfmin a b \<noteq> NaN"
  by (cases "(a, b)" rule: dfmin.cases) auto

lemma now_finite:
  assumes "clock_valid (env w)" "now_ms w = (now, w1)"
  shows "\<exists>v. now = Fin v"
  using ts_ms_finite [of "os_clock (env w) (k_clock w)"] assms
  by (auto simp: clock_valid_def now_ms_def clock_gettime_def)

lemma net_inv_env: "net_inv e c (ctx, sched, st, w) \<Longrightarrow> env w = e \<and> wf_ctx ctx"
  by (simp add: net_inv_def)

lemma loop_once_total:
  assumes inv: "net_inv e c (ctx, sched, st, w)" and dl: "deadline sched \<noteq> NaN"
    and e: "clock_valid e" "drains e m" "m < rf"
  shows "loop_once rf (ctx, sched, st, w) \<noteq> None"
proof -
  have env: "env w = e" "wf_ctx ctx" using net_inv_env [OF inv] by auto
  obtain now w1 where n: "now_ms w = (now, w1)" by (cases "now_ms w")
  obtain v where v: "now = Fin v" using now_finite [OF _ n] e(1) env by blast
  obtain ms where ms: "ms_until (dfmin (dadd (last_send sched) (s_interval sched)) (deadline sched)) now = Some ms"
    using ms_until_total [OF dfmin_not_NaN [OF dl]] unfolding v by blast
  obtain p w2 where p: "poll ms w1 = (p, w2)" by (cases "poll ms w1")
  have inv2: "net_inv e c (ctx, sched, st, w2)"
    using net_inv_step [OF wait [OF p] net_inv_step [OF clock [OF n] inv]] .
  have due: "net_inv e c s \<Longrightarrow> send_if_due s \<noteq> None" for s using send_if_due_total .
  show ?thesis
  proof (cases p)
    case PollReadable
    have "env w2 = e" "wf_ctx ctx" using net_inv_env [OF inv2] by auto
    then obtain rc1 ctx1 st1 w3 where r: "ping_receive rf ctx st w2 = Some (rc1, ctx1, st1, w3)"
      using ping_receive_total [of ctx w2 m rf st] e by auto
    have inv3: "net_inv e c (ctx1, sched, st1, w3)"
      using net_inv_steps [OF ping_receive_steps [OF r] inv2] .
    obtain rc2 s4 where s4: "send_per_reply (i32 (n_recv st1 - n_recv st)) (ctx1, sched, st1, w3) = Some (rc2, s4)"
      using send_per_reply_total [OF inv3] by (metis not_None_eq surj_pair)
    have inv4: "net_inv e c s4" using net_inv_steps [OF send_per_reply_steps [OF s4] inv3] .
    show ?thesis
      using due [OF inv3] due [OF inv4] s4 r PollReadable
      unfolding loop_once_def prod.case n ms p Let_def
      by (cases s4) (auto simp: Let_def p split: if_splits)
  qed (use due [OF inv2] p in \<open>auto simp: loop_once_def n ms Let_def\<close>)
qed

lemma loop_once_clock:
  assumes "net_inv e c (ctx, sched, st, w)" "loop_once rf (ctx, sched, st, w) = Some (rc, ctx', sched', st', w')"
    and "rc \<noteq> - 1"
  shows "\<not> dle (deadline sched) (ts_ms (os_clock e (k_clock w))) \<and> k_clock w < k_clock w'"
proof -
  have env: "env w = e" using net_inv_env [OF assms(1)] by simp
  define now w1 where "now = ts_ms (os_clock e (k_clock w))" and "w1 = w\<lparr>k_clock := k_clock w + 1\<rparr>"
  have n: "now_ms w = (now, w1)" by (simp add: now_ms_def clock_gettime_def now_def w1_def env)
  have nd: "\<not> dle (deadline sched) now" using assms(2,3) by (auto simp: loop_once_def n)
  obtain ms where ms: "ms_until (dfmin (dadd (last_send sched) (s_interval sched)) (deadline sched)) now = Some ms"
    using assms(2) nd unfolding loop_once_def prod.case n by (auto split: Option.bind_splits)
  obtain p w2 where p: "poll ms w1 = (p, w2)" by (cases "poll ms w1")
  have inv2: "net_inv e c (ctx, sched, st, w2)"
    using net_inv_step [OF wait [OF p] net_inv_step [OF clock [OF n] assms(1)]] .
  have "frame (ctx, sched, st, w2) (ctx', sched', st', w')"
  proof -
    have "net_steps (ctx, sched, st, w2) (ctx', sched', st', w')"
      by (rule loop_once_rest_steps [OF assms(2) n nd ms p])
    then show ?thesis using inv2 by (rule frame_steps)
  qed
  moreover have "k_clock w2 = k_clock w + 1" using p by (auto simp: poll_def w1_def)
  ultimately show ?thesis using nd by (simp add: frame_def now_def)
qed

lemma run_loop_ends:
  assumes "net_inv e c (ctx, sched, st, w)" "deadline sched = dl" "dl \<noteq> NaN"
    and "clock_valid e" "drains e m" "m < rf"
    and stop: "os_sigint e K \<and> (k_sigint w \<le> K \<or> g_stop w) \<and> Suc K - k_sigint w < n
      \<or> (\<forall>k \<ge> K. dle dl (ts_ms (os_clock e k))) \<and> Suc K - k_clock w < n"
  shows "run_loop rf n (ctx, sched, st, w) \<noteq> None"
  using assms(1,2) stop
proof (induction n arbitrary: ctx sched st w)
  case (Suc n)
  have env: "env w = e" using net_inv_env [OF Suc.prems(1)] by simp
  define b w1 where "b = fst (ping_should_stop w)" and "w1 = snd (ping_should_stop w)"
  have t: "test_stop (ctx, sched, st, w) = (b, ctx, sched, st, w1)"
    by (simp add: test_stop_def b_def w1_def split_def Let_def)
  have inv1: "net_inv e c (ctx, sched, st, w1)" using net_inv_step [OF test [OF t] Suc.prems(1)] .
  show ?case
  proof (cases b)
    case True
    then show ?thesis by (simp add: t)
  next
    case False
    then have ns: "\<not> g_stop w" "\<not> os_sigint e (k_sigint w)"
      using stop_tests(1) [of w] env by (auto simp: b_def)
    have c1: "k_sigint w1 = Suc (k_sigint w)" "k_clock w1 = k_clock w" by (simp_all add: w1_def)
    obtain rc ctx2 sched2 st2 w2 where l: "loop_once rf (ctx, sched, st, w1) = Some (rc, ctx2, sched2, st2, w2)"
      using loop_once_total [OF inv1 _ assms(4-6)] Suc.prems(2) assms(3) by (metis not_None_eq surj_pair)
    show ?thesis
    proof (cases "rc = - 1")
      case True
      then show ?thesis using False t l by simp
    next
      case ok: False
      have inv2: "net_inv e c (ctx2, sched2, st2, w2)" using net_inv_steps [OF loop_once_steps [OF l] inv1] .
      have fr: "frame (ctx, sched, st, w1) (ctx2, sched2, st2, w2)" using frame_steps [OF loop_once_steps [OF l] inv1] .
      have dl2: "deadline sched2 = dl" using fr Suc.prems(2) by (simp add: frame_def)
      note ck = loop_once_clock [OF inv1 l ok]
      have "os_sigint e K \<and> (k_sigint w2 \<le> K \<or> g_stop w2) \<and> Suc K - k_sigint w2 < n
        \<or> (\<forall>k \<ge> K. dle dl (ts_ms (os_clock e k))) \<and> Suc K - k_clock w2 < n"
        using Suc.prems(3)
      proof
        assume a: "os_sigint e K \<and> (k_sigint w \<le> K \<or> g_stop w) \<and> Suc K - k_sigint w < Suc n"
        then have "k_sigint w < K" using ns by (metis order_le_imp_less_or_eq)
        moreover have "k_sigint w1 \<le> k_sigint w2" using fr by (simp add: frame_def)
        moreover have "k_sigint w2 \<le> K \<or> g_stop w2"
          using fr a calculation c1 env inv1 net_inv_env unfolding frame_def prod.case
          by (metis Suc_leI not_less)
        ultimately show ?thesis using a c1 by auto
      next
        assume a: "(\<forall>k \<ge> K. dle dl (ts_ms (os_clock e k))) \<and> Suc K - k_clock w < Suc n"
        then have "k_clock w < K" using ck c1 Suc.prems(2) by (metis not_less)
        then show ?thesis using a ck c1 by auto
      qed
      then show ?thesis using Suc.IH [OF inv2 dl2] False ok t l by simp
    qed
  qed
qed simp

section \<open>The run ends\<close>

lemma first_probe_total:
  assumes inv: "net_inv e c s"
  shows "\<exists>s'. first_probe s = Some s' \<and> net_steps s s'"
proof -
  obtain b t where t: "test_stop s = (b, t)" by (cases "test_stop s")
  have inv1: "net_inv e c t" using net_inv_step [OF test [OF t] inv] .
  obtain rc u where u: "send_next t = Some (rc, u)" using send_next_total [OF inv1] by blast
  have "net_steps u (if rc = - 1 then on_world ping_request_stop u else u)"
    using one_step [OF request] by simp
  then have "net_steps s (if rc = - 1 then on_world ping_request_stop u else u)"
    using steps_then [OF test [OF t] steps_then [OF probe [OF u]]] by blast
  then show ?thesis using one_step [OF test [OF t]] u
    by (simp add: first_probe_def t del: split_paired_Ex)
qed

lemma deadline_not_NaN:
  assumes "clock_valid (env w)"
  shows "deadline (fst (sched_init f w)) \<noteq> NaN"
proof -
  obtain v where v: "ts_ms (os_clock (env w) (k_clock w)) = Fin v"
    using ts_ms_finite assms by (meson clock_valid_def)
  have "dint (timeout f) \<noteq> NaN" by (simp add: dint_def)
  then have "dmul (Fin 1000) (dint (timeout f)) \<noteq> NaN"
    by (cases "dint (timeout f)") (simp_all add: inf_sign_def)
  then have "dadd (Fin v) (dmul (Fin 1000) (dint (timeout f))) \<noteq> NaN"
    by (cases "dmul (Fin 1000) (dint (timeout f))") simp_all
  then show ?thesis by (simp add: sched_init_def now_ms_def clock_gettime_def v Let_def)
qed

lemma ping_run_ends:
  assumes ctx: "wf_ctx ctx" "send_ts ctx = Some (\<lambda>_. zero_ts)" "k_send w = 0" "sends w = []"
    and e: "clock_valid (env w)" "drains (env w) m" "m < rf"
    and stop: "os_sigint (env w) K \<and> k_sigint w \<le> K \<or> has_timeout (flags ctx) \<and>
      (\<forall>k \<ge> K. dle (dadd (ts_ms (os_clock (env w) (k_clock w))) (dmul (Fin 1000) (dint (timeout (flags ctx)))))
                   (ts_ms (os_clock (env w) k)))"
    and n: "Suc K < n"
  shows "ping_run rf n ctx w \<noteq> None"
proof -
  obtain sched w1 where i: "sched_init (flags ctx) w = (sched, w1)" by (cases "sched_init (flags ctx) w")
  have sq: "seq sched = 0" using i by (auto simp: sched_init_def Let_def split: if_splits prod.splits)
  have dl: "deadline sched \<noteq> NaN" using deadline_not_NaN [OF e(1), of "flags ctx"] by (simp add: i)
  have w1: "k_sigint w1 = k_sigint w" "env w1 = env w"
    using i by (auto simp: sched_init_def now_ms_def clock_gettime_def Let_def split: if_splits)
  define s0 where "s0 = (ctx, sched, zero_stats, w1)"
  have inv0: "net_inv (env w) ctx s0"
    using net_inv_init [OF ctx sq] unfolding i snd_conv s0_def .
  obtain s1 where s1: "send_preload s0 = Some s1"
    using send_preload_total [OF inv0] unfolding send_preload_def s0_def prod.case by fastforce
  have p1: "net_steps s0 s1" using s1 by (simp add: send_preload_def send_preload_steps s0_def)
  have inv1: "net_inv (env w) ctx s1" using net_inv_steps [OF p1 inv0] .
  obtain s2 where s2: "first_probe s1 = Some s2" "net_steps s1 s2" using first_probe_total [OF inv1] by blast
  obtain ctx3 sched3 st3 w3 where s3: "set_last_send s2 = (ctx3, sched3, st3, w3)" by (cases "set_last_send s2")
  have p3: "net_steps s0 (ctx3, sched3, st3, w3)"
    using p1 s2(2) one_step [OF mark, of s2] unfolding s3 by (meson rtranclp_trans)
  have inv3: "net_inv (env w) ctx (ctx3, sched3, st3, w3)" using net_inv_steps [OF p3 inv0] .
  have fr: "frame s0 (ctx3, sched3, st3, w3)" using frame_steps [OF p3 inv0] .
  then have f: "deadline sched3 = deadline sched" by (simp add: frame_def s0_def)
  have g: "os_sigint (env w) K \<and> k_sigint w \<le> K \<Longrightarrow> k_sigint w3 \<le> K \<or> g_stop w3"
    using fr unfolding frame_def s0_def prod.case w1 by (metis not_less)
  have "os_sigint (env w) K \<and> (k_sigint w3 \<le> K \<or> g_stop w3) \<and> Suc K - k_sigint w3 < n
      \<or> (\<forall>k \<ge> K. dle (deadline sched) (ts_ms (os_clock (env w) k))) \<and> Suc K - k_clock w3 < n"
    using stop
  proof
    assume "os_sigint (env w) K \<and> k_sigint w \<le> K"
    then show ?thesis using g n by auto
  next
    assume a: "has_timeout (flags ctx) \<and>
      (\<forall>k \<ge> K. dle (dadd (ts_ms (os_clock (env w) (k_clock w))) (dmul (Fin 1000) (dint (timeout (flags ctx)))))
                   (ts_ms (os_clock (env w) k)))"
    then have "deadline sched = dadd (ts_ms (os_clock (env w) (k_clock w))) (dmul (Fin 1000) (dint (timeout (flags ctx))))"
      using i by (auto simp: sched_init_def now_ms_def clock_gettime_def Let_def)
    then show ?thesis using a n by auto
  qed
  then have "run_loop rf n (ctx3, sched3, st3, w3) \<noteq> None"
    by (rule run_loop_ends [OF inv3 f dl e])
  then show ?thesis using s1 s2 s3 unfolding ping_run_def i s0_def by simp
qed

text \<open>C5. Every run ends, within a known number of passes: if SIGINT is delivered at the K-th test
  of the stop flag, or the clock stays past the deadline of \<open>-t\<close> from its K-th reading on, and
  no drain meets more than \<open>m\<close> datagrams in a row, then the run returns, whatever else the
  network and the kernel do; no access is out of bounds and no conversion undefined on the
  way. The bounds of the model are enough as soon as they exceed \<open>m\<close> and \<open>K + 1\<close>.\<close>

theorem ping_run_terminates:
  assumes "wf_ctx ctx" "send_ts ctx = Some (\<lambda>_. zero_ts)" "k_send w = 0" "sends w = []"
    and "clock_valid (env w)" "drains (env w) m" "m < rf"
    and "os_sigint (env w) K \<and> k_sigint w \<le> K \<or> has_timeout (flags ctx) \<and>
      (\<forall>k \<ge> K. dle (dadd (ts_ms (os_clock (env w) (k_clock w))) (dmul (Fin 1000) (dint (timeout (flags ctx)))))
                   (ts_ms (os_clock (env w) k)))"
    and "Suc K < n"
  shows "ping_run rf n ctx w \<noteq> None"
  by (rule ping_run_ends [OF assms])

text \<open>A run of the sample context that SIGINT ends at the third test.\<close>

definition session_os :: os where
  "session_os = sample_os\<lparr>os_sigint := \<lambda>k. k = 2,
     os_clock := \<lambda>k. \<lparr>tv_sec = 100 + int (min k 10), tv_nsec = 0\<rparr>\<rparr>"

lemma session_facts:
  "wf_ctx sample_ctx" "send_ts sample_ctx = Some (\<lambda>_. zero_ts)" "k_send (boot session_os) = 0"
  "sends (boot session_os) = []" "clock_valid (env (boot session_os))" "drains (env (boot session_os)) 0"
  "(0 :: nat) < 1" "os_sigint (env (boot session_os)) 2 \<and> k_sigint (boot session_os) \<le> 2"
  by (simp_all add: session_os_def clock_valid_def valid_ts_def drains_def sample_os_def min_def)
    (simp add: sample_ctx_def)

theorem ping_run_terminates_witness: "ping_run 1 4 sample_ctx (boot session_os) \<noteq> None"
  by (rule ping_run_terminates [OF session_facts(1-7) disjI1 [OF session_facts(8)]]) simp

lemma session_result:
  "\<exists>ctx' sched' st' w'. ping_run 1 4 sample_ctx (boot session_os) = Some (ctx', sched', st', w')"
  using ping_run_ends [OF session_facts(1-7) disjI1 [OF session_facts(8)], of 4] by auto

text \<open>C2. What is on the wire, for every run on every operating system (any order of packets,
  timeouts, signals, refused sends and clock readings): the i-th attempt to send carries
  sequence number i modulo 65536, the packets sent are exactly the echo requests of the attempts
  the kernel accepted, in order, all to the resolved address, each stamped with a reading of
  the clock; and the transmitted count of the summary is their number.\<close>

theorem session_wire:
  assumes "wf_ctx ctx" "send_ts ctx = Some (\<lambda>_. zero_ts)" "k_send w = 0" "sends w = []"
    and "ping_run rf n ctx w = Some (ctx', sched', st', w')"
  shows "\<exists>ts. sends w' = wire (env w) ctx ts (k_send w') \<and>
    (\<forall>i < k_send w'. read_before w' (ts i)) \<and>
    n_sent st' = i32 (int (length (sends w'))) \<and> seq sched' = of_nat (k_send w')"
  by (rule session_sends [OF assms])

theorem session_wire_witness:
  "\<exists>ctx' sched' st' w' ts. ping_run 1 4 sample_ctx (boot session_os) = Some (ctx', sched', st', w') \<and>
     sends w' = wire session_os sample_ctx ts (k_send w') \<and>
     n_sent st' = i32 (int (length (sends w')))"
proof -
  obtain ctx' sched' st' w' where r: "ping_run 1 4 sample_ctx (boot session_os) = Some (ctx', sched', st', w')"
    using session_result by blast
  show ?thesis using session_wire [OF session_facts(1-4) r] r by (auto simp del: split_paired_Ex)
qed

end
