(* ===== verification/Getopt.thy ===== *)
theory Getopt
  imports Ping_Output Samples "HOL-Library.Multiset"
begin

text \<open>
  \<open>getopt\<close> as the program's command line sees it: the GNU implementation, whose source is
  \<open>inetutils-2.0/lib/getopt.c\<close> (the same code is in glibc), for short options only. Elements
  of \<open>argv\<close> are permuted so that options come first. \<open>__nextchar\<close> is the unscanned rest of
  the current element (empty for \<open>NULL\<close>, which the code treats alike); an access outside
  \<open>argv\<close> is \<open>None\<close>. The theory shows that \<open>exchange\<close> is a rotation, that a call never leaves
  \<open>argv\<close> and only permutes it, that every call makes progress, and what a call returns for
  an option element.
\<close>

section \<open>State\<close>

text \<open>The value of a \<open>char\<close>, which is signed, as an \<open>int\<close>; \<open>char_of\<close> is the conversion back.\<close>

definition char_int :: "char \<Rightarrow> int" where
  "char_int c = (if (of_char c :: int) < 128 then of_char c else of_char c - 256)"

lemma char_of_int [simp]: "char_of (char_int c) = c"
proof -
  have "char_of (of_char c - 256 :: int) = (char_of (of_char c :: int) :: char)"
    by (metis char_of_mod_256 minus_mod_self2)
  then show ?thesis by (simp add: char_int_def)
qed

datatype ordering = REQUIRE_ORDER | PERMUTE | RETURN_IN_ORDER

record getopt_data =
  g_optind :: nat
  g_opterr :: bool
  g_optopt :: int
  g_optarg :: "string option"
  g_initialized :: bool
  g_nextchar :: string
  g_ordering :: ordering
  g_first_nonopt :: nat
  g_last_nonopt :: nat

definition getopt_start :: getopt_data where
  "getopt_start = \<lparr>g_optind = 1, g_opterr = True, g_optopt = char_int (CHR ''?''), g_optarg = None,
     g_initialized = False, g_nextchar = [], g_ordering = REQUIRE_ORDER,
     g_first_nonopt = 0, g_last_nonopt = 0\<rparr>"

section \<open>Permuting\<close>

text \<open>\<open>for (i = 0; i < len; i++)\<close> swapping \<open>argv[a + i]\<close> and \<open>argv[b + i]\<close>.\<close>

function swap_range :: "'a list \<Rightarrow> nat \<Rightarrow> nat \<Rightarrow> nat \<Rightarrow> nat \<Rightarrow> 'a list option" where
  "swap_range argv a b len i =
     (if i < len
      then do {
        x \<leftarrow> peek argv (a + i);
        y \<leftarrow> peek argv (b + i);
        argv1 \<leftarrow> poke argv (a + i) y;
        argv2 \<leftarrow> poke argv1 (b + i) x;
        swap_range argv2 a b len (Suc i)
      }
      else Some argv)"
  by pat_completeness auto
termination
  by (relation "measure (\<lambda>(argv, a, b, len, i). len - i)") auto

declare swap_range.simps [simp del]

function exchange_loop :: "'a list \<Rightarrow> nat \<Rightarrow> nat \<Rightarrow> nat \<Rightarrow> 'a list option" where
  "exchange_loop argv lo mid hi =
     (if mid < hi \<and> lo < mid
      then (if mid - lo < hi - mid
            then (let len = mid - lo in do {
              argv1 \<leftarrow> swap_range argv lo (hi - (mid - lo)) len 0;
              exchange_loop argv1 lo mid (hi - len)
            })
            else (let len = hi - mid in do {
              argv1 \<leftarrow> swap_range argv lo mid len 0;
              exchange_loop argv1 (lo + len) mid hi
            }))
      else Some argv)"
  by pat_completeness auto
termination
  by (relation "measure (\<lambda>(argv, b, m, t). t - b)") auto

declare exchange_loop.simps [simp del]

definition exchange ::
  "string list \<Rightarrow> getopt_data \<Rightarrow> (string list \<times> getopt_data) option" where
  "exchange argv d = do {
     argv1 \<leftarrow> exchange_loop argv (g_first_nonopt d) (g_last_nonopt d) (g_optind d);
     Some (argv1, d\<lparr>g_first_nonopt := g_first_nonopt d + (g_optind d - g_last_nonopt d),
                    g_last_nonopt := g_optind d\<rparr>)
   }"

section \<open>Scanning\<close>

definition getopt_initialize :: "bool \<Rightarrow> string \<Rightarrow> getopt_data \<Rightarrow> string \<times> getopt_data" where
  "getopt_initialize posixly_correct optstring d =
     (let d1 = (if g_optind d = 0 then d\<lparr>g_optind := 1\<rparr> else d);
          d2 = d1\<lparr>g_first_nonopt := g_optind d1, g_last_nonopt := g_optind d1, g_nextchar := []\<rparr>;
          (rest, order) =
            (if take 1 optstring = ''-'' then (drop 1 optstring, RETURN_IN_ORDER)
             else if take 1 optstring = ''+'' then (drop 1 optstring, REQUIRE_ORDER)
             else if posixly_correct then (optstring, REQUIRE_ORDER)
             else (optstring, PERMUTE))
      in (rest, d2\<lparr>g_ordering := order, g_initialized := True\<rparr>))"

text \<open>\<open>NONOPTION_P\<close>: not a dash, or a dash alone.\<close>

fun nonoption :: "string \<Rightarrow> bool" where
  "nonoption (c # d # s) = (c \<noteq> CHR ''-'')"
| "nonoption _ = True"

function skip_nonoptions :: "string list \<Rightarrow> nat \<Rightarrow> nat" where
  "skip_nonoptions argv i =
     (if i < length argv \<and> nonoption (argv ! i) then skip_nonoptions argv (Suc i) else i)"
  by pat_completeness auto
termination
  by (relation "measure (\<lambda>(argv, i). length argv - i)") auto

declare skip_nonoptions.simps [simp del]

text \<open>
  The advance to the next element, in the stages of the code: correcting the bookkeeping,
  moving skipped non-options behind the options, skipping more non-options, and the special
  element \<open>--\<close>.
\<close>

definition clamp_nonopts :: "getopt_data \<Rightarrow> getopt_data" where
  "clamp_nonopts d =
     (let d1 = (if g_optind d < g_last_nonopt d then d\<lparr>g_last_nonopt := g_optind d\<rparr> else d)
      in if g_optind d1 < g_first_nonopt d1 then d1\<lparr>g_first_nonopt := g_optind d1\<rparr> else d1)"

definition permute_nonopts :: "string list \<Rightarrow> getopt_data \<Rightarrow> (string list \<times> getopt_data) option" where
  "permute_nonopts argv d =
     (if g_ordering d = PERMUTE
      then do {
        (argv1, d1) \<leftarrow>
          (if g_first_nonopt d \<noteq> g_last_nonopt d \<and> g_last_nonopt d \<noteq> g_optind d
           then exchange argv d
           else if g_last_nonopt d \<noteq> g_optind d
           then Some (argv, d\<lparr>g_first_nonopt := g_optind d\<rparr>)
           else Some (argv, d));
        let i = skip_nonoptions argv1 (g_optind d1);
        Some (argv1, d1\<lparr>g_optind := i, g_last_nonopt := i\<rparr>)
      }
      else Some (argv, d))"

definition skip_dashdash :: "string list \<Rightarrow> getopt_data \<Rightarrow> (string list \<times> getopt_data) option" where
  "skip_dashdash argv d =
     (if g_optind d = length argv then Some (argv, d)
      else do {
        a \<leftarrow> peek argv (g_optind d);
        (if a \<noteq> ''--'' then Some (argv, d)
         else do {
           let d1 = d\<lparr>g_optind := g_optind d + 1\<rparr>;
           (argv2, d2) \<leftarrow>
             (if g_first_nonopt d1 \<noteq> g_last_nonopt d1 \<and> g_last_nonopt d1 \<noteq> g_optind d1
              then exchange argv d1
              else if g_first_nonopt d1 = g_last_nonopt d1
              then Some (argv, d1\<lparr>g_first_nonopt := g_optind d1\<rparr>)
              else Some (argv, d1));
           Some (argv2, d2\<lparr>g_last_nonopt := length argv, g_optind := length argv\<rparr>)
         })
      })"

datatype scan = Done | NonOption string | Option

definition advance :: "string list \<Rightarrow> getopt_data \<Rightarrow> (scan \<times> string list \<times> getopt_data) option" where
  "advance argv d = do {
     (argv1, d1) \<leftarrow> permute_nonopts argv (clamp_nonopts d);
     (argv2, d2) \<leftarrow> skip_dashdash argv1 d1;
     (if g_optind d2 = length argv2
      then Some (Done, argv2, (if g_first_nonopt d2 \<noteq> g_last_nonopt d2
             then d2\<lparr>g_optind := g_first_nonopt d2\<rparr> else d2))
      else do {
        a \<leftarrow> peek argv2 (g_optind d2);
        Some (if nonoption a
              then (if g_ordering d2 = REQUIRE_ORDER then (Done, argv2, d2)
                    else (NonOption a, argv2, d2\<lparr>g_optarg := Some a, g_optind := g_optind d2 + 1\<rparr>))
              else (Option, argv2, d2\<lparr>g_nextchar := drop 1 a\<rparr>))
      })
   }"

section \<open>One option character\<close>

definition bad_option :: "bool \<Rightarrow> string \<Rightarrow> string \<Rightarrow> char \<Rightarrow> world \<Rightarrow> world" where
  "bad_option print_errors prog what c w =
     (if print_errors
      then emit (Stderr (prog @ '': '' @ what @ '' -- '' @ [CHR 0x27, c, CHR 0x27] @ nl)) w
      else w)"

text \<open>
  The tail of the option's letter in \<open>optstring\<close>, empty when it does not occur: \<open>strchr\<close>.
\<close>

definition strchr :: "string \<Rightarrow> char \<Rightarrow> string" where
  "strchr s c = dropWhile (\<lambda>x. x \<noteq> c) s"

definition take_char ::
  "string \<Rightarrow> bool \<Rightarrow> string list \<Rightarrow> getopt_data \<Rightarrow> world \<Rightarrow> (char \<times> getopt_data \<times> world) option" where
  "take_char optstring print_errors argv d w =
     (case g_nextchar d of [] \<Rightarrow> None
      | c # next \<Rightarrow> do {
          let d1 = d\<lparr>g_nextchar := next,
                     g_optind := (if next = [] then g_optind d + 1 else g_optind d)\<rparr>;
          let temp = strchr optstring c;
          prog \<leftarrow> peek argv 0;
          (if temp = [] \<or> c = CHR '':'' \<or> c = CHR '';''
           then Some (CHR ''?'', d1\<lparr>g_optopt := char_int c\<rparr>, bad_option print_errors prog ''invalid option'' c w)
           else if take 1 (drop 1 temp) \<noteq> '':''
           then Some (c, d1, w)
           else if take 1 (drop 2 temp) = '':''
           then Some (c, (if next \<noteq> [] then d1\<lparr>g_optarg := Some next, g_optind := g_optind d1 + 1\<rparr>
                          else d1\<lparr>g_optarg := None\<rparr>)\<lparr>g_nextchar := []\<rparr>, w)
           else if next \<noteq> []
           then Some (c, d1\<lparr>g_optarg := Some next, g_optind := g_optind d1 + 1, g_nextchar := []\<rparr>, w)
           else if g_optind d1 = length argv
           then Some (if take 1 optstring = '':'' then CHR '':'' else CHR ''?'',
                      d1\<lparr>g_optopt := char_int c, g_nextchar := []\<rparr>,
                      bad_option print_errors prog ''option requires an argument'' c w)
           else do {
             a \<leftarrow> peek argv (g_optind d1);
             Some (c, d1\<lparr>g_optarg := Some a, g_optind := g_optind d1 + 1, g_nextchar := []\<rparr>, w)
           })
        })"

text \<open>
  One call: \<open>None\<close> inside the result is -1, \<open>CHR 1\<close> a non-option returned in order. The
  parameter \<open>posixly_correct\<close> is whether the environment variable of that name is set.
\<close>

definition getopt ::
  "bool \<Rightarrow> string \<Rightarrow> string list \<Rightarrow> getopt_data \<Rightarrow> world \<Rightarrow>
     (char option \<times> string list \<times> getopt_data \<times> world) option" where
  "getopt posixly_correct optstring0 argv d0 w =
     (if length argv < 1 then Some (None, argv, d0, w)
      else do {
        let d1 = d0\<lparr>g_optarg := None\<rparr>;
        let (optstring, d) =
          (if g_optind d1 = 0 \<or> \<not> g_initialized d1
           then getopt_initialize posixly_correct optstring0 d1
           else (if take 1 optstring0 = ''-'' \<or> take 1 optstring0 = ''+'' then drop 1 optstring0
                 else optstring0, d1));
        let print_errors = (g_opterr d \<and> take 1 optstring \<noteq> '':'');
        (s, argv1, d2) \<leftarrow> (if g_nextchar d = [] then advance argv d else Some (Option, argv, d));
        (case s of
           Done \<Rightarrow> Some (None, argv1, d2, w)
         | NonOption _ \<Rightarrow> Some (Some (CHR 0x01), argv1, d2, w)
         | Option \<Rightarrow> do {
             (c, d3, w1) \<leftarrow> take_char optstring print_errors argv1 d2 w;
             Some (Some c, argv1, d3, w1)
           })
      })"

section \<open>\<open>exchange\<close> is a rotation\<close>

lemma swap_range_eq:
  assumes "length A = length B" "length P = a + i" "length P + length A + length M = b + i"
    and "len = length A + i"
  shows "swap_range (P @ A @ M @ B @ S) a b len i = Some (P @ B @ M @ A @ S)"
  using assms
proof (induction A B arbitrary: P M i rule: list_induct2)
  case Nil
  then show ?case by (subst swap_range.simps) simp
next
  case (Cons x A y B)
  let ?xs = "P @ (x # A) @ M @ (y # B) @ S"
  have b: "b + i = Suc (length P + length A + length M)" using Cons.prems by simp
  have px: "peek ?xs (a + i) = Some x" using Cons.prems by (simp add: peek_def flip: Cons.prems(1))
  have py: "peek ?xs (b + i) = Some y" unfolding b by (simp add: peek_def nth_append)
  have w1: "poke ?xs (a + i) y = Some (P @ (y # A) @ M @ (y # B) @ S)"
    by (simp add: poke_def flip: Cons.prems(1))
  have w2: "poke (P @ (y # A) @ M @ (y # B) @ S) (b + i) x = Some ((P @ [y]) @ A @ (M @ [x]) @ B @ S)"
    unfolding b by (simp add: poke_def list_update_append)
  have "swap_range ((P @ [y]) @ A @ (M @ [x]) @ B @ S) a b len (Suc i) =
      Some ((P @ [y]) @ B @ (M @ [x]) @ A @ S)"
    using Cons.prems by (intro Cons.IH) simp_all
  moreover have "i < len" using Cons.prems by simp
  ultimately show ?case
    by (subst swap_range.simps) (simp only: px py w1 w2 Option.bind.simps if_True, simp)
qed

lemma exchange_loop_eq:
  "length P = lo \<Longrightarrow> lo + length A = mid \<Longrightarrow> mid + length B = hi \<Longrightarrow>
     exchange_loop (P @ A @ B @ S) lo mid hi = Some (P @ B @ A @ S)"
proof (induction "length A + length B" arbitrary: P A B S lo mid hi rule: less_induct)
  case less
  consider "A = [] \<or> B = []" | "A \<noteq> []" "length A < length B" | "B \<noteq> []" "length B \<le> length A"
    using not_less by blast
  then show ?case
  proof cases
    case 1
    then show ?thesis using less.prems by (subst exchange_loop.simps) auto
  next
    case 2
    define B1 B2 where "B1 = take (length B - length A) B" and "B2 = drop (length B - length A) B"
    have B: "B = B1 @ B2" "length B2 = length A" using 2 by (simp_all add: B1_def B2_def)
    have "swap_range (P @ A @ B1 @ B2 @ S) lo (hi - length A) (length A) 0 = Some (P @ B2 @ B1 @ A @ S)"
      using less.prems B by (intro swap_range_eq) simp_all
    moreover have "exchange_loop (P @ B2 @ B1 @ (A @ S)) lo mid (hi - length A)
        = Some (P @ B1 @ B2 @ (A @ S))"
      using less.prems B 2 by (intro less.hyps) auto
    moreover have "mid < hi" "lo < mid" "mid - lo < hi - mid" "mid - lo = length A"
      using less.prems 2 by auto
    ultimately show ?thesis unfolding B(1) by (subst exchange_loop.simps) (simp add: Let_def)
  next
    case 3
    define A1 A2 where "A1 = take (length B) A" and "A2 = drop (length B) A"
    have A: "A = A1 @ A2" "length A1 = length B" using 3 by (simp_all add: A1_def A2_def)
    have "swap_range (P @ A1 @ A2 @ B @ S) lo mid (length B) 0 = Some (P @ B @ A2 @ A1 @ S)"
      using less.prems A by (intro swap_range_eq) simp_all
    moreover have "exchange_loop ((P @ B) @ A2 @ A1 @ S) (lo + length B) mid hi
        = Some ((P @ B) @ A1 @ A2 @ S)"
      using less.prems A 3 by (intro less.hyps) auto
    moreover have "mid < hi" "lo < mid" "\<not> mid - lo < hi - mid" "hi - mid = length B"
      using less.prems 3 by auto
    ultimately show ?thesis unfolding A(1) by (subst exchange_loop.simps) (simp add: Let_def)
  qed
qed

text \<open>\<open>exchange\<close>, the in-place block swap of \<open>getopt\<close>, stays inside \<open>argv\<close>, terminates, and
  exchanges the two adjacent runs: the options after the skipped non-options move before them,
  each run keeps its order, and nothing else moves.\<close>

theorem exchange_rotates:
  assumes "g_first_nonopt d \<le> g_last_nonopt d" "g_last_nonopt d \<le> g_optind d"
    and "g_optind d \<le> length argv"
  shows "\<exists>d'. exchange argv d = Some (take (g_first_nonopt d) argv
      @ take (g_optind d - g_last_nonopt d) (drop (g_last_nonopt d) argv)
      @ take (g_last_nonopt d - g_first_nonopt d) (drop (g_first_nonopt d) argv)
      @ drop (g_optind d) argv, d')
    \<and> g_optind d' = g_optind d \<and> g_last_nonopt d' = g_optind d
    \<and> g_last_nonopt d' - g_first_nonopt d' = g_last_nonopt d - g_first_nonopt d"
proof -
  let ?f = "g_first_nonopt d" and ?l = "g_last_nonopt d" and ?o = "g_optind d"
  have "argv = take ?f argv @ take (?l - ?f) (drop ?f argv) @ take (?o - ?l) (drop ?l argv) @ drop ?o argv"
  proof -
    have "take ?f argv @ take (?l - ?f) (drop ?f argv) = take ?l argv"
      "take ?l argv @ take (?o - ?l) (drop ?l argv) = take ?o argv"
      using assms by (simp_all add: take_add [symmetric])
    then show ?thesis by (metis append.assoc append_take_drop_id)
  qed
  moreover have "exchange_loop (take ?f argv @ take (?l - ?f) (drop ?f argv)
      @ take (?o - ?l) (drop ?l argv) @ drop ?o argv) ?f ?l ?o
      = Some (take ?f argv @ take (?o - ?l) (drop ?l argv) @ take (?l - ?f) (drop ?f argv) @ drop ?o argv)"
    using assms by (intro exchange_loop_eq) simp_all
  ultimately have "exchange_loop argv ?f ?l ?o
      = Some (take ?f argv @ take (?o - ?l) (drop ?l argv) @ take (?l - ?f) (drop ?f argv) @ drop ?o argv)"
    by simp
  then show ?thesis using assms by (simp add: exchange_def)
qed

theorem exchange_rotates_witness:
  "map_option fst (exchange [''ping'', ''a'', ''b'', ''-q'', ''-s'', ''9'', ''c'']
     (getopt_start\<lparr>g_first_nonopt := 1, g_last_nonopt := 3, g_optind := 6\<rparr>))
   = Some [''ping'', ''-q'', ''-s'', ''9'', ''a'', ''b'', ''c'']"
proof -
  let ?d = "getopt_start\<lparr>g_first_nonopt := 1, g_last_nonopt := 3, g_optind := 6\<rparr>"
  have "g_first_nonopt ?d \<le> g_last_nonopt ?d" "g_last_nonopt ?d \<le> g_optind ?d"
    "g_optind ?d \<le> length [''ping'', ''a'', ''b'', ''-q'', ''-s'', ''9'', ''c'']" by simp_all
  from exchange_rotates [OF this] show ?thesis by (auto simp: getopt_start_def)
qed

section \<open>What \<open>getopt\<close> computes\<close>

text \<open>
  The abstract scanner works on three lists: the unscanned letters of the current element,
  the operands skipped so far and the elements from the current one on. \<open>argv\<close>, the three
  indices and the permutation are how the code represents them.
\<close>

datatype opt_kind = Unknown | Flag | Argument | OptionalArgument

definition opt_kind :: "string \<Rightarrow> char \<Rightarrow> opt_kind" where
  "opt_kind optstring c = (let temp = strchr optstring c in
     if temp = [] \<or> c = CHR '':'' \<or> c = CHR '';'' then Unknown
     else if take 1 (drop 1 temp) \<noteq> '':'' then Flag
     else if take 1 (drop 2 temp) = '':'' then OptionalArgument else Argument)"

datatype scanned =
    Operands "string list"
  | Scanned char "string option" char "string \<times> string list \<times> string list"

definition scan_char :: "string \<Rightarrow> char \<Rightarrow> string \<Rightarrow> string list \<Rightarrow> string list \<Rightarrow> scanned" where
  "scan_char optstring c next ops rest =
     (let rest1 = (if next = [] then drop 1 rest else rest) in
      case opt_kind optstring c of
        Unknown \<Rightarrow> Scanned (CHR ''?'') None c (next, ops, rest1)
      | Flag \<Rightarrow> Scanned c None c (next, ops, rest1)
      | OptionalArgument \<Rightarrow>
          if next = [] then Scanned c None c ([], ops, rest1)
          else Scanned c (Some next) c ([], ops, drop 1 rest)
      | Argument \<Rightarrow>
          if next \<noteq> [] then Scanned c (Some next) c ([], ops, drop 1 rest)
          else (case rest1 of [] \<Rightarrow> Scanned (CHR '':'') None c ([], ops, [])
                | a # rest2 \<Rightarrow> Scanned c (Some a) c ([], ops, rest2)))"

fun scan_next :: "string \<Rightarrow> string \<times> string list \<times> string list \<Rightarrow> scanned" where
  "scan_next optstring (c # next, ops, rest) = scan_char optstring c next ops rest"
| "scan_next optstring ([], ops, rest) =
     (let ops1 = ops @ takeWhile nonoption rest in
      case dropWhile nonoption rest of
        [] \<Rightarrow> Operands ops1
      | a # rest1 \<Rightarrow>
          if a = ''--'' then Operands (ops1 @ rest1)
          else (case drop 1 a of [] \<Rightarrow> Operands ops1
                | c # next \<Rightarrow> scan_char optstring c next ops1 (a # rest1)))"

text \<open>The representation.\<close>

definition represents ::
  "string list \<Rightarrow> getopt_data \<Rightarrow> string \<times> string list \<times> string list \<Rightarrow> bool" where
  "represents argv d s = (case s of (next, ops, rest) \<Rightarrow>
     \<exists>P M. argv = P @ ops @ M @ rest \<and> P \<noteq> [] \<and>
       g_first_nonopt d = length P \<and> g_last_nonopt d = length P + length ops \<and>
       g_optind d = length P + length ops + length M \<and>
       g_nextchar d = next \<and> (next \<noteq> [] \<longrightarrow> rest \<noteq> []) \<and>
       g_initialized d \<and> g_ordering d = PERMUTE)"

lemma skip_nonoptions_eq:
  "skip_nonoptions (P @ rest) (length P) = length P + length (takeWhile nonoption rest)"
proof (induction rest arbitrary: P)
  case Nil
  then show ?case by (subst skip_nonoptions.simps) simp
next
  case (Cons a rest)
  have "skip_nonoptions ((P @ [a]) @ rest) (length (P @ [a]))
      = length (P @ [a]) + length (takeWhile nonoption rest)" by (rule Cons.IH)
  then show ?case by (subst skip_nonoptions.simps) simp
qed

lemma exchange_eq:
  assumes "g_first_nonopt d = length P" "g_last_nonopt d = length P + length N"
    and "g_optind d = length P + length N + length M"
  shows "exchange (P @ N @ M @ rest) d = Some (P @ M @ N @ rest,
    d\<lparr>g_first_nonopt := length P + length M, g_last_nonopt := g_optind d\<rparr>)"
  using assms by (simp add: exchange_def exchange_loop_eq)

text \<open>After permuting, the skipped operands end where the scan continues.\<close>

lemma permute_nonopts_eq:
  assumes "represents argv d ([], ops, rest)"
  shows "\<exists>P d'. permute_nonopts argv (clamp_nonopts d)
      = Some (P @ (ops @ takeWhile nonoption rest) @ dropWhile nonoption rest, d') \<and> P \<noteq> [] \<and>
    mset (P @ (ops @ takeWhile nonoption rest) @ dropWhile nonoption rest) = mset argv \<and>
    g_first_nonopt d' = length P \<and>
    g_last_nonopt d' = length P + length (ops @ takeWhile nonoption rest) \<and>
    g_optind d' = g_last_nonopt d' \<and> g_nextchar d' = [] \<and> g_initialized d' \<and> g_ordering d' = PERMUTE \<and>
    g_optarg d' = g_optarg d \<and> g_opterr d' = g_opterr d"
proof -
  obtain P M where a: "argv = P @ ops @ M @ rest" "P \<noteq> []"
    and d: "g_first_nonopt d = length P" "g_last_nonopt d = length P + length ops"
      "g_optind d = length P + length ops + length M" "g_nextchar d = []" "g_initialized d"
      "g_ordering d = PERMUTE"
    using assms by (auto simp: represents_def)
  have cl: "clamp_nonopts d = d" using d by (simp add: clamp_nonopts_def Let_def)
  have tw: "takeWhile nonoption rest @ dropWhile nonoption rest = rest" by simp
  consider "ops \<noteq> []" "M \<noteq> []" | "ops = []" "M \<noteq> []" | "M = []" by blast
  then show ?thesis
  proof cases
    case 1
    have sk: "skip_nonoptions (P @ M @ ops @ rest) (length M + (length P + length ops))
        = length P + length M + length ops + length (takeWhile nonoption rest)"
      using skip_nonoptions_eq [of "P @ M @ ops" rest] by (simp add: ac_simps)
    show ?thesis
      using 1 d a(2) unfolding cl a(1) permute_nonopts_def
      by (intro exI [of _ "P @ M"]) (simp add: exchange_eq sk add.assoc add.commute add.left_commute Let_def)
  next
    case 2
    then show ?thesis
      using d a(2) skip_nonoptions_eq [of "P @ M" rest] unfolding cl a(1) permute_nonopts_def
      by (intro exI [of _ "P @ M"]) (simp add: Let_def)
  next
    case 3
    then show ?thesis
      using d a(2) skip_nonoptions_eq [of "P @ ops" rest] unfolding cl a(1) permute_nonopts_def
      by (intro exI [of _ P]) (simp add: Let_def)
  qed
qed

lemma option_tail: "\<not> nonoption a \<Longrightarrow> drop 1 a \<noteq> []"
  by (cases a rule: nonoption.cases) auto

lemma advance_eq:
  assumes rep: "represents argv d ([], ops, rest)"
  shows "\<exists>s argv' d'. advance argv d = Some (s, argv', d') \<and> mset argv' = mset argv \<and>
    g_optarg d' = g_optarg d \<and> g_opterr d' = g_opterr d \<and>
    (case dropWhile nonoption rest of
       [] \<Rightarrow> s = Done \<and> drop (g_optind d') argv' = ops @ takeWhile nonoption rest
     | a # rest1 \<Rightarrow>
         if a = ''--'' then s = Done \<and> drop (g_optind d') argv' = (ops @ takeWhile nonoption rest) @ rest1
         else s = Option \<and> represents argv' d' (drop 1 a, ops @ takeWhile nonoption rest, a # rest1))"
proof -
  define ops1 R where "ops1 = ops @ takeWhile nonoption rest" and "R = dropWhile nonoption rest"
  obtain P d1 where p: "permute_nonopts argv (clamp_nonopts d) = Some (P @ ops1 @ R, d1)" "P \<noteq> []"
    and m: "mset (P @ ops1 @ R) = mset argv"
    and d1: "g_first_nonopt d1 = length P" "g_last_nonopt d1 = length P + length ops1"
      "g_optind d1 = length P + length ops1" "g_nextchar d1 = []" "g_initialized d1" "g_ordering d1 = PERMUTE"
      "g_optarg d1 = g_optarg d" "g_opterr d1 = g_opterr d"
    using permute_nonopts_eq [OF rep] unfolding ops1_def [symmetric] R_def [symmetric] by auto
  show ?thesis
  proof (cases R)
    case Nil
    have "advance argv d = Some (Done, P @ ops1, if ops1 \<noteq> [] then d1\<lparr>g_optind := length P\<rparr> else d1)"
      using d1 Nil by (simp add: advance_def p skip_dashdash_def)
    then show ?thesis
      using d1 Nil m by (cases "ops1 = []") (simp_all flip: R_def ops1_def)
  next
    case (Cons a r)
    have na: "\<not> nonoption a" using Cons dropWhile_eq_Cons_conv R_def by metis
    show ?thesis
    proof (cases "a = ''--''")
      case False
      have "skip_dashdash (P @ ops1 @ R) d1 = Some (P @ ops1 @ R, d1)"
        using d1 Cons False by (simp add: skip_dashdash_def peek_def nth_append)
      then have "advance argv d = Some (Option, P @ ops1 @ R, d1\<lparr>g_nextchar := drop 1 a\<rparr>)"
        using d1 Cons na by (simp add: advance_def p peek_def nth_append)
      moreover have "represents (P @ ops1 @ R) (d1\<lparr>g_nextchar := drop 1 a\<rparr>) (drop 1 a, ops1, a # r)"
        unfolding represents_def prod.case
        by (intro exI [of _ P] exI [of _ "[]"]) (use d1 Cons p(2) option_tail [OF na] in simp)
      ultimately show ?thesis
        using d1 False m Cons by (simp flip: R_def ops1_def)
    next
      case True
      let ?d2 = "d1\<lparr>g_optind := g_optind d1 + 1\<rparr>"
      show ?thesis
      proof (cases "ops1 = []")
        case e: True
        define d3 where "d3 = ?d2\<lparr>g_first_nonopt := g_optind ?d2, g_last_nonopt := length (P @ R),
          g_optind := length (P @ R)\<rparr>"
        have "skip_dashdash (P @ ops1 @ R) d1 = Some (P @ R, d3)"
          using d1 Cons True e by (simp add: skip_dashdash_def peek_def nth_append d3_def Let_def)
        then have "advance argv d = Some (Done, P @ R, if r = [] then d3 else d3\<lparr>g_optind := length P + 1\<rparr>)"
          using d1 Cons e by (simp add: advance_def p d3_def)
        then show ?thesis
          using d1 True m Cons e by (cases "r = []") (simp_all add: d3_def flip: R_def ops1_def)
      next
        case ne: False
        define d3 where "d3 = ?d2\<lparr>g_first_nonopt := length P + 1, g_last_nonopt := length (P @ ops1 @ R),
          g_optind := length (P @ ops1 @ R)\<rparr>"
        have x: "exchange (P @ ops1 @ [a] @ r) ?d2 = Some (P @ [a] @ ops1 @ r,
            ?d2\<lparr>g_first_nonopt := length P + length [a], g_last_nonopt := g_optind ?d2\<rparr>)"
          using d1 by (intro exchange_eq) simp_all
        have "skip_dashdash (P @ ops1 @ R) d1 = Some (P @ [a] @ ops1 @ r, d3)"
          using d1 Cons True ne x by (simp add: skip_dashdash_def peek_def nth_append d3_def Let_def)
        then have "advance argv d = Some (Done, P @ [a] @ ops1 @ r, d3\<lparr>g_optind := length P + 1\<rparr>)"
          using d1 Cons ne by (simp add: advance_def p d3_def)
        then show ?thesis
          using d1 True m Cons ne by (simp add: d3_def flip: R_def ops1_def)
      qed
    qed
  qed
qed

lemma represents_step:
  assumes "represents argv d (n, ops, x # rest)"
    and "g_first_nonopt d' = g_first_nonopt d" "g_last_nonopt d' = g_last_nonopt d"
    and "g_optind d' = g_optind d + 1" "g_nextchar d' = []"
    and "g_initialized d' = g_initialized d" "g_ordering d' = g_ordering d"
  shows "represents argv d' ([], ops, rest)"
proof -
  obtain P M where "argv = P @ ops @ M @ x # rest" "P \<noteq> []" "g_first_nonopt d = length P"
    "g_last_nonopt d = length P + length ops" "g_optind d = length P + length ops + length M"
    "g_initialized d" "g_ordering d = PERMUTE"
    using assms(1) by (auto simp: represents_def)
  then show ?thesis
    using assms(2-) unfolding represents_def prod.case
    by (intro exI [of _ P] exI [of _ "M @ [x]"]) simp
qed

lemma represents_optind:
  "represents argv d (n, ops, rest) \<Longrightarrow> drop (g_optind d) argv = rest \<and> g_optind d \<le> length argv"
  by (auto simp: represents_def)

lemma take_char_eq:
  assumes rep: "represents argv d (c # next, ops, rest)" and arg: "g_optarg d = None"
    and colon: "take 1 optstring = '':''" and qm: "opt_kind optstring (CHR ''?'') = Unknown"
  shows "\<exists>ret arg opt s' d'. scan_char optstring c next ops rest = Scanned ret arg opt s' \<and>
    take_char optstring False argv d w = Some (ret, d', w) \<and> represents argv d' s' \<and>
    g_optarg d' = arg \<and> g_opterr d' = g_opterr d \<and>
    (ret = CHR ''?'' \<or> ret = CHR '':'' \<longrightarrow> g_optopt d' = char_int opt)"
proof -
  obtain x rest1 where rest: "rest = x # rest1" using rep by (cases rest) (auto simp: represents_def)
  have n: "g_nextchar d = c # next" using rep by (auto simp: represents_def)
  obtain prog where prog: "peek argv 0 = Some prog"
    using rep by (auto simp: represents_def peek_def)
  define d1 where "d1 = d\<lparr>g_nextchar := next,
    g_optind := (if next = [] then g_optind d + 1 else g_optind d)\<rparr>"
  define temp where "temp = strchr optstring c"
  have rep1: "represents argv (d1\<lparr>g_optopt := o'\<rparr>) (next, ops, if next = [] then rest1 else rest)"
    "represents argv d1 (next, ops, if next = [] then rest1 else rest)" for o'
    using represents_step [OF rep [unfolded rest], of "d1\<lparr>g_optopt := o'\<rparr>"]
      represents_step [OF rep [unfolded rest], of d1] rep
    by (auto simp: d1_def represents_def)
  have rep2: "next \<noteq> [] \<Longrightarrow> represents argv (d1\<lparr>g_optarg := Some next, g_optind := g_optind d1 + 1,
      g_nextchar := []\<rparr>) ([], ops, rest1)"
    by (rule represents_step [OF rep [unfolded rest]]) (simp_all add: d1_def)
  have known: "\<not> (temp = [] \<or> c = CHR '':'' \<or> c = CHR '';'') \<Longrightarrow> c \<noteq> CHR '':''" by simp
  have un: "take_char optstring False argv d w =
    (if temp = [] \<or> c = CHR '':'' \<or> c = CHR '';''
     then Some (CHR ''?'', d1\<lparr>g_optopt := char_int c\<rparr>, w)
     else if take 1 (drop 1 temp) \<noteq> '':'' then Some (c, d1, w)
     else if take 1 (drop 2 temp) = '':''
     then Some (c, (if next \<noteq> [] then d1\<lparr>g_optarg := Some next, g_optind := g_optind d1 + 1\<rparr>
                    else d1\<lparr>g_optarg := None\<rparr>)\<lparr>g_nextchar := []\<rparr>, w)
     else if next \<noteq> [] then Some (c, d1\<lparr>g_optarg := Some next, g_optind := g_optind d1 + 1, g_nextchar := []\<rparr>, w)
     else if g_optind d1 = length argv then Some (CHR '':'', d1\<lparr>g_optopt := char_int c, g_nextchar := []\<rparr>, w)
     else (case peek argv (g_optind d1) of None \<Rightarrow> None
           | Some a \<Rightarrow> Some (c, d1\<lparr>g_optarg := Some a, g_optind := g_optind d1 + 1, g_nextchar := []\<rparr>, w)))"
    unfolding take_char_def n list.case prog Option.bind.simps Let_def d1_def [symmetric] temp_def [symmetric]
    by (simp add: bad_option_def colon [unfolded One_nat_def] split: option.split)
  have special: "opt_kind optstring c \<noteq> Unknown \<Longrightarrow> c \<noteq> CHR ''?'' \<and> c \<noteq> CHR '':''"
    using qm by (auto simp: opt_kind_def Let_def)
  show ?thesis
  proof (cases "opt_kind optstring c")
    case Unknown
    then have k: "temp = [] \<or> c = CHR '':'' \<or> c = CHR '';''"
      by (auto simp: opt_kind_def Let_def simp flip: temp_def split: if_splits)
    show ?thesis unfolding un if_P [OF k] using Unknown rep1(1) [of "char_int c"] rest arg
      by (cases "next = []") (simp_all add: scan_char_def Let_def d1_def)
  next
    case Flag
    then have k: "\<not> (temp = [] \<or> c = CHR '':'' \<or> c = CHR '';'')" "take 1 (drop 1 temp) \<noteq> '':''"
      by (auto simp: opt_kind_def Let_def simp flip: temp_def split: if_splits)
    have "c \<noteq> CHR ''?''" "c \<noteq> CHR '':''" using special Flag by auto
    then show ?thesis unfolding un if_not_P [OF k(1)] if_P [OF k(2)] using Flag rep1(2) rest arg
      by (cases "next = []") (simp_all add: scan_char_def Let_def d1_def)
  next
    case OptionalArgument
    then have k: "\<not> (temp = [] \<or> c = CHR '':'' \<or> c = CHR '';'')" "\<not> take 1 (drop 1 temp) \<noteq> '':''"
      "take 1 (drop 2 temp) = '':''"
      by (auto simp: opt_kind_def Let_def simp flip: temp_def split: if_splits)
    have c: "c \<noteq> CHR ''?''" "c \<noteq> CHR '':''" using special OptionalArgument by auto
    show ?thesis
    proof (cases "next = []")
      case True
      have "d1\<lparr>g_optarg := None, g_nextchar := []\<rparr> = d1" using True arg by (simp add: d1_def)
      with c True show ?thesis
        unfolding un if_not_P [OF k(1)] if_not_P [OF k(2)] if_P [OF k(3)]
        using OptionalArgument rep1(2) rest arg
        by (simp add: scan_char_def Let_def) (simp add: d1_def)
    next
      case False
      with c show ?thesis
        unfolding un if_not_P [OF k(1)] if_not_P [OF k(2)] if_P [OF k(3)]
        using OptionalArgument rep2 rest by (simp add: scan_char_def Let_def) (simp add: d1_def)
    qed
  next
    case Argument
    then have k: "\<not> (temp = [] \<or> c = CHR '':'' \<or> c = CHR '';'')" "take 1 (drop 1 temp) = '':''"
      "take 1 (drop 2 temp) \<noteq> '':''"
      by (auto simp: opt_kind_def Let_def simp flip: temp_def split: if_splits)
    show ?thesis
    proof (cases "next = []")
      case False
      then show ?thesis using rep2 rest k Argument special unfolding un by (simp add: scan_char_def d1_def)
    next
      case True
      have r: "represents argv d1 ([], ops, rest1)" using rep1(2) True by simp
      show ?thesis
      proof (cases rest1)
        case Nil
        then have "g_optind d1 = length argv" using represents_optind [OF r] by auto
        moreover have "represents argv (d1\<lparr>g_optopt := char_int c, g_nextchar := []\<rparr>) ([], ops, rest1)"
          by (rule represents_step [OF rep [unfolded rest]]) (simp_all add: d1_def True)
        ultimately show ?thesis
          using True Nil rest k Argument arg unfolding un by (simp add: scan_char_def Let_def d1_def)
      next
        case (Cons a rest2)
        have dr: "drop (g_optind d1) argv = a # rest2" using represents_optind [OF r] Cons by simp
        then have "g_optind d1 < length argv" by (metis drop_eq_Nil2 list.distinct(1) not_le)
        then have o: "g_optind d1 \<noteq> length argv" "peek argv (g_optind d1) = Some a"
          using dr by (simp_all add: peek_def nth_via_drop)
        moreover have "represents argv (d1\<lparr>g_optarg := Some a, g_optind := g_optind d1 + 1, g_nextchar := []\<rparr>)
            ([], ops, rest2)"
          by (rule represents_step [OF r [unfolded Cons]]) simp_all
        ultimately show ?thesis
          using True Cons rest k Argument special unfolding un by (simp add: scan_char_def Let_def d1_def)
      qed
    qed
  qed
qed

lemma represents_nextchar: "represents argv d (n, ops, rest) \<Longrightarrow> g_nextchar d = n \<and> g_initialized d \<and> argv \<noteq> []"
  by (auto simp: represents_def)

lemma represents_optarg [simp]: "represents argv (d\<lparr>g_optarg := x\<rparr>) s = represents argv d s"
  by (simp add: represents_def)

lemma mset_nonempty: "mset xs = mset ys \<Longrightarrow> ys \<noteq> [] \<Longrightarrow> xs \<noteq> []"
  by auto

text \<open>One call of \<open>getopt\<close> on a represented state is one step of the abstract scanner.\<close>

lemma getopt_step:
  assumes rep: "represents argv d (n, ops, rest)"
    and colon: "take 1 optstring = '':''" and qm: "opt_kind optstring (CHR ''?'') = Unknown"
  shows "\<exists>argv' d'. mset argv' = mset argv \<and> (case scan_next optstring (n, ops, rest) of
      Operands os \<Rightarrow> getopt px optstring argv d w = Some (None, argv', d', w) \<and> drop (g_optind d') argv' = os
    | Scanned ret arg opt s' \<Rightarrow> getopt px optstring argv d w = Some (Some ret, argv', d', w) \<and>
        represents argv' d' s' \<and> g_optarg d' = arg \<and> g_opterr d' = g_opterr d \<and>
        (ret = CHR ''?'' \<or> ret = CHR '':'' \<longrightarrow> g_optopt d' = char_int opt))"
proof -
  define d1 where "d1 = d\<lparr>g_optarg := None\<rparr>"
  have rep1: "represents argv d1 (n, ops, rest)" using rep by (simp add: d1_def)
  note nx = represents_nextchar [OF rep1]
  have len: "\<not> length argv < 1" using nx by (cases argv) auto
  have pfx: "\<not> (take 1 optstring = ''-'' \<or> take 1 optstring = ''+'')" using colon by simp
  have oi: "g_optind d1 \<noteq> 0" using rep1 by (auto simp: represents_def)
  have c1: "(g_optind d1 = 0 \<or> \<not> g_initialized d1) = False" using oi nx by simp
  have pe: "(g_opterr d1 \<and> take 1 optstring \<noteq> '':'') = False" by (simp only: colon simp_thms)
  have un: "getopt px optstring argv d w = do {
      (s, argv1, d2) \<leftarrow> (if n = [] then advance argv d1 else Some (Option, argv, d1));
      (case s of
         Done \<Rightarrow> Some (None, argv1, d2, w)
       | NonOption _ \<Rightarrow> Some (Some (CHR 0x01), argv1, d2, w)
       | Option \<Rightarrow> do {
           (c, d3, w1) \<leftarrow> take_char optstring False argv1 d2 w;
           Some (Some c, argv1, d3, w1)
         })
    }"
    unfolding getopt_def Let_def d1_def [symmetric] if_not_P [OF len] c1 if_False if_not_P [OF pfx]
      prod.case pe conjunct1 [OF nx] ..
  have tc: "\<exists>ret arg opt s' d3. scan_char optstring c next ops' rest' = Scanned ret arg opt s' \<and>
      take_char optstring False argv' d2 w = Some (ret, d3, w) \<and> represents argv' d3 s' \<and>
      g_optarg d3 = arg \<and> g_opterr d3 = g_opterr d2 \<and> (ret = CHR ''?'' \<or> ret = CHR '':'' \<longrightarrow> g_optopt d3 = char_int opt)"
    if "represents argv' d2 (c # next, ops', rest')" "g_optarg d2 = None" for c "next" ops' rest' argv' d2
    using take_char_eq [OF that colon qm] .
  have d1a: "g_optarg d1 = None" "g_opterr d1 = g_opterr d" by (simp_all add: d1_def)
  show ?thesis
  proof (cases n)
    case (Cons c "next")
    show ?thesis using tc [OF rep1 [unfolded Cons] d1a(1)] d1a unfolding un Cons by auto
  next
    case Nil
    obtain s argv' d2 where a: "advance argv d1 = Some (s, argv', d2)" "mset argv' = mset argv"
      "g_optarg d2 = None" "g_opterr d2 = g_opterr d"
      and c: "case dropWhile nonoption rest of
       [] \<Rightarrow> s = Done \<and> drop (g_optind d2) argv' = ops @ takeWhile nonoption rest
     | a # rest1 \<Rightarrow>
         if a = ''--'' then s = Done \<and> drop (g_optind d2) argv' = (ops @ takeWhile nonoption rest) @ rest1
         else s = Option \<and> represents argv' d2 (drop 1 a, ops @ takeWhile nonoption rest, a # rest1)"
      using advance_eq [OF rep1 [unfolded Nil]] d1a by auto
    show ?thesis
    proof (cases "dropWhile nonoption rest")
      case e: Nil
      have "scan_next optstring ([], ops, rest) = Operands (ops @ takeWhile nonoption rest)"
        by (simp only: scan_next.simps e Let_def list.case)
      moreover have "s = Done" "drop (g_optind d2) argv' = ops @ takeWhile nonoption rest"
        using c [unfolded e list.case] by simp_all
      ultimately show ?thesis using a(1,2) unfolding un Nil by auto
    next
      case (Cons x rest1)
      show ?thesis
      proof (cases "x = ''--''")
        case True
        then show ?thesis using a c Cons unfolding un Nil by auto
      next
        case False
        have "\<not> nonoption x" using Cons dropWhile_eq_Cons_conv by metis
        then obtain y "next" where y: "drop 1 x = y # next" using option_tail by (metis list.exhaust)
        have r2: "s = Option" "represents argv' d2 (y # next, ops @ takeWhile nonoption rest, x # rest1)"
          using c Cons False y by simp_all
        show ?thesis using tc [OF r2(2) a(3)] r2(1) a Cons False y unfolding un Nil by auto
      qed
    qed
  qed
qed

text \<open>The first call, on the initial state, starts from the elements after the program name.\<close>

definition getopt_ready :: "getopt_data" where
  "getopt_ready = getopt_start\<lparr>g_opterr := False, g_initialized := True, g_ordering := PERMUTE,
     g_first_nonopt := 1, g_last_nonopt := 1\<rparr>"

lemma getopt_first:
  assumes "take 1 optstring = '':''"
  shows "getopt False optstring argv (getopt_start\<lparr>g_opterr := False\<rparr>) w
    = getopt False optstring argv getopt_ready w \<or> argv = []"
  using assms by (cases argv) (auto simp: getopt_def getopt_initialize_def getopt_ready_def getopt_start_def Let_def)

lemma represents_ready: "represents (prog # args) getopt_ready ([], [], args)"
  unfolding represents_def prod.case
  by (intro exI [of _ "[prog]"] exI [of _ "[]"]) (simp add: getopt_ready_def getopt_start_def)

text \<open>C7. \<open>getopt\<close> refines the scanner: on every reachable state of the permuting scan (\<open>argv\<close> and
  the indices represent the unscanned letters, the skipped operands and the remaining
  elements) a call stays inside \<open>argv\<close>, only permutes it, and returns what the abstract
  scanner returns: the next option letter with its argument, \<open>?\<close> or \<open>:\<close> with the offending
  letter in \<open>optopt\<close>, or -1 with \<open>optind\<close> at the operands, all of them, in their order.\<close>

theorem getopt_refines_scanner:
  assumes "represents argv d (n, ops, rest)"
    and "take 1 optstring = '':''" "opt_kind optstring (CHR ''?'') = Unknown"
  shows "\<exists>argv' d'. mset argv' = mset argv \<and> (case scan_next optstring (n, ops, rest) of
      Operands os \<Rightarrow> getopt px optstring argv d w = Some (None, argv', d', w) \<and> drop (g_optind d') argv' = os
    | Scanned ret arg opt s' \<Rightarrow> getopt px optstring argv d w = Some (Some ret, argv', d', w) \<and>
        represents argv' d' s' \<and> g_optarg d' = arg \<and> g_opterr d' = g_opterr d \<and>
        (ret = CHR ''?'' \<or> ret = CHR '':'' \<longrightarrow> g_optopt d' = char_int opt))"
  by (rule getopt_step [OF assms])

theorem getopt_refines_scanner_witness:
  "\<exists>argv' d'. getopt False '':qs:'' [''ping'', ''h'', ''-s'', ''9'', ''-q''] getopt_ready (boot sample_os)
      = Some (Some (CHR ''s''), argv', d', boot sample_os) \<and> g_optarg d' = Some ''9'' \<and>
      represents argv' d' ([], [''h''], [''-q''])"
proof -
  have k: "take 1 '':qs:'' = '':''" "opt_kind '':qs:'' (CHR ''?'') = Unknown" by code_simp+
  have s: "scan_next '':qs:'' ([], [], [''h'', ''-s'', ''9'', ''-q''])
      = Scanned (CHR ''s'') (Some ''9'') (CHR ''s'') ([], [''h''], [''-q''])" by code_simp
  show ?thesis
    using getopt_refines_scanner [OF represents_ready k, of "''ping''" "[''h'', ''-s'', ''9'', ''-q'']" False
        "boot sample_os"] unfolding s scanned.case by blast
qed

text \<open>Every option consumes text, so a scan ends.\<close>

definition scan_size :: "string \<times> string list \<times> string list \<Rightarrow> nat" where
  "scan_size s = (case s of (n, ops, rest) \<Rightarrow>
     if n = [] then sum_list (map (Suc \<circ> length) rest)
     else length n + sum_list (map (Suc \<circ> length) (drop 1 rest)))"

lemma scan_char_progress:
  assumes "scan_char optstring c nx ops rest = Scanned ret arg opt s'"
  shows "scan_size s' < Suc (length nx + sum_list (map (Suc \<circ> length) (drop 1 rest)))"
  using assms
  by (cases rest) (auto simp: scan_char_def scan_size_def Let_def split: opt_kind.splits if_splits list.splits)

lemma scan_next_progress:
  assumes "scan_next optstring s = Scanned ret arg opt s'"
  shows "scan_size s' < scan_size s"
proof -
  obtain n ops rest where s: "s = (n, ops, rest)" by (cases s)
  show ?thesis
  proof (cases n)
    case (Cons c nx)
    then show ?thesis using assms scan_char_progress [of optstring c nx ops rest]
      by (auto simp: s scan_size_def)
  next
    case Nil
    obtain a r where r: "dropWhile nonoption rest = a # r" "a \<noteq> ''--''"
      using assms by (auto simp: s Nil Let_def split: list.splits if_splits)
    obtain c nx where a: "drop 1 a = c # nx"
      using assms r by (auto simp: s Nil Let_def split: list.splits)
    have "scan_char optstring c nx (ops @ takeWhile nonoption rest) (a # r) = Scanned ret arg opt s'"
      using assms r a by (simp add: s Nil Let_def)
    from scan_char_progress [OF this]
    have "scan_size s' < Suc (length nx + sum_list (map (Suc \<circ> length) r))" by simp
    moreover have "length a = Suc (Suc (length nx))" using a by (cases a) auto
    moreover have "sum_list (map (Suc \<circ> length) (a # r)) \<le> sum_list (map (Suc \<circ> length) rest)"
      unfolding r(1) [symmetric]
      by (metis (no_types, lifting) add_leE le_add2 map_append order_refl sum_list_append takeWhile_dropWhile_id)
    ultimately show ?thesis by (simp add: s Nil scan_size_def)
  qed
qed

end
