(* ===== verification/Ping_Cli.thy ===== *)
theory Ping_Cli
  imports Getopt Ping_Send
begin

text \<open>
  \<open>src/cli\<close>: from \<open>argv\<close> to a validated \<open>t_flags\<close>. The numeric conversion, the pattern
  decoder, the pre-pass that lifts long options out of \<open>argv\<close>, and the \<open>getopt\<close> loop with its
  switch. \<open>exit\<close> is a result of its own. The loop takes a bound on its passes, which
  \<open>parse_info\<close> sets to the size of \<open>argv\<close>; a theorem shows that it is always enough. What the
  theory proves: every accepted command line yields flags with all the ranges the rest of the
  program relies on, privileged options need root, patterns and long options are decoded
  exactly, and a command line rendered from a list of options is read back as those options.
\<close>

section \<open>Numbers\<close>

datatype num = Long int | Double double

definition test_strton :: "string \<Rightarrow> bool \<Rightarrow> bool \<times> num" where
  "test_strton str long =
     (let (num, end', erange) =
            (if long then (let (v, r, e) = strtol str 10 in (Long v, r, e))
             else (let (v, r, e) = strtod str in (Double v, r, e)))
      in (\<not> (end' = str \<or> end' \<noteq> [] \<or> erange), num))"

definition invalid_value :: "string \<Rightarrow> char \<Rightarrow> world \<Rightarrow> world" where
  "invalid_value arg opt w =
     emit (Stderr (''ft_ping: invalid value '' @ [CHR 0x27] @ arg @ [CHR 0x27] @ '' for -'' @ [opt] @ nl)) w"

definition opt_long :: "string \<Rightarrow> char \<Rightarrow> int \<Rightarrow> int \<Rightarrow> world \<Rightarrow> int option \<times> world" where
  "opt_long arg opt lo hi w =
     (case test_strton arg True of
        (True, Long val) \<Rightarrow>
          if val < lo \<or> hi < val then (None, invalid_value arg opt w) else (Some val, w)
      | _ \<Rightarrow> (None, invalid_value arg opt w))"

section \<open>Patterns\<close>

definition is_valid_hex :: "string \<Rightarrow> nat \<Rightarrow> bool" where
  "is_valid_hex hex len =
     (if len = 0 \<or> len mod 2 \<noteq> 0 \<or> PING_PATTERN_MAX * 2 < len then False
      else list_all c_isxdigit (take len hex))"

text \<open>The terminating NUL is part of the string the loop reads from.\<close>

function decode_loop :: "string \<Rightarrow> nat \<Rightarrow> nat \<Rightarrow> byte list \<Rightarrow> byte list option" where
  "decode_loop hex len i out =
     (if i < len
      then do {
        c0 \<leftarrow> peek (hex @ [CHR 0x00]) i;
        c1 \<leftarrow> peek (hex @ [CHR 0x00]) (i + 1);
        out1 \<leftarrow> poke out (i div 2) (word_of_int (fst (strtol [c0, c1] 16)));
        decode_loop hex len (i + 2) out1
      }
      else Some out)"
  by pat_completeness auto
termination
  by (relation "measure (\<lambda>(hex, len, i, out). len - i)") auto

declare decode_loop.simps [simp del]

text \<open>\<open>Some None\<close> is the rejection; nothing is written then.\<close>

definition decode_pattern :: "string \<Rightarrow> byte list \<Rightarrow> (byte list \<times> int) option option" where
  "decode_pattern hex out =
     (let len = length hex in
      if \<not> is_valid_hex hex len then Some None
      else do { out1 \<leftarrow> decode_loop hex len 0 out; Some (Some (out1, int (len div 2))) })"

section \<open>Long options\<close>

text \<open>The loop that shifts the tail down, then the last slot is cleared and no longer counted.\<close>

function shift_down :: "string list \<Rightarrow> nat \<Rightarrow> nat \<Rightarrow> string list" where
  "shift_down av ac i = (if i + 1 < ac then shift_down (av[i := av ! (i + 1)]) ac (i + 1) else av)"
  by pat_completeness auto
termination
  by (relation "measure (\<lambda>(av, ac, i). ac - i)") auto

declare shift_down.simps [simp del]

definition drop_arg :: "string list \<Rightarrow> nat \<Rightarrow> string list" where
  "drop_arg av i = butlast (shift_down av (length av) i)"

lemma shift_down_eq:
  "i < length av \<Longrightarrow> shift_down av (length av) i = take i av @ drop (Suc i) av @ [last av]"
proof (induction "length av - i" arbitrary: i av)
  case (Suc n)
  show ?case
  proof (cases "Suc i < length av")
    case True
    define av' where "av' = av[i := av ! Suc i]"
    have l: "length av' = length av" by (simp add: av'_def)
    have "shift_down av' (length av') (Suc i) = take (Suc i) av' @ drop (Suc (Suc i)) av' @ [last av']"
      using Suc.hyps True by (intro Suc.hyps(1)) (simp_all add: av'_def)
    moreover have "take (Suc i) av' = take i av @ [av ! Suc i]"
      using Suc.prems by (simp add: av'_def take_Suc_conv_app_nth)
    moreover have "drop (Suc (Suc i)) av' = drop (Suc (Suc i)) av" by (simp add: av'_def)
    moreover have "last av' = last av"
      using True by (cases av rule: rev_cases) (simp_all add: av'_def list_update_append1)
    moreover have "drop (Suc i) av = av ! Suc i # drop (Suc (Suc i)) av" using True by (rule Cons_nth_drop_Suc [symmetric])
    ultimately show ?thesis
      using True l by (subst shift_down.simps) (simp add: av'_def)
  next
    case False
    then have i: "i = length av - 1" "av \<noteq> []" using Suc.prems by auto
    then show ?thesis
      using False append_butlast_last_id [of av]
      by (subst shift_down.simps) (simp add: butlast_conv_take)
  qed
qed simp

lemma drop_arg_eq: "i < length av \<Longrightarrow> drop_arg av i = take i av @ drop (Suc i) av"
  by (simp add: drop_arg_def shift_down_eq butlast_append)

datatype long_opt = Help | Recognised t_flags | Unrecognised

definition apply_long_opt :: "string \<Rightarrow> t_flags \<Rightarrow> long_opt" where
  "apply_long_opt arg f =
     (if arg = ''--help'' then Help
      else if arg = ''--bsd-flood'' then Recognised (f\<lparr>bsd_flood := True\<rparr>)
      else Unrecognised)"

text \<open>How a parse ends: \<open>exit(status)\<close>, a rejection, or a value.\<close>

datatype 'a parsed = Exit int | Rejected | Parsed 'a

function extract_long ::
  "string list \<Rightarrow> t_flags \<Rightarrow> world \<Rightarrow> nat \<Rightarrow> (string list \<times> t_flags) parsed \<times> world" where
  "extract_long av f w i =
     (if i < length av
      then (if av ! i = ''--'' then (Parsed (av, f), w)
            else if take 2 (av ! i) \<noteq> ''--'' then extract_long av f w (i + 1)
            else (case apply_long_opt (av ! i) f of
                    Help \<Rightarrow> (Exit 0, print_usage w)
                  | Unrecognised \<Rightarrow> (Rejected, print_usage_hint
                      (emit (Stderr (''ft_ping: unrecognized option '' @ [CHR 0x27] @ av ! i @ [CHR 0x27] @ nl)) w))
                  | Recognised f1 \<Rightarrow> extract_long (drop_arg av i) f1 w i))
      else (Parsed (av, f), w))"
  by pat_completeness auto
termination
  by (relation "measure (\<lambda>(av, f, w, i). length av - i)") (auto simp: drop_arg_eq)

declare extract_long.simps [simp del]

definition extract_long_opts ::
  "string list \<Rightarrow> t_flags \<Rightarrow> world \<Rightarrow> (string list \<times> t_flags) parsed \<times> world" where
  "extract_long_opts av f w = extract_long av f w 1"

section \<open>The option switch\<close>

definition require_root :: "char \<Rightarrow> string \<Rightarrow> world \<Rightarrow> bool \<times> world" where
  "require_root opt what w =
     (if os_geteuid (env w) = 0 then (True, w)
      else (False, emit (Stderr (''ft_ping: -'' @ [opt] @ '': only root may use '' @ what @ nl)) w))"

definition finalise_flags :: "string list \<Rightarrow> nat \<Rightarrow> t_flags \<Rightarrow> world \<Rightarrow> t_flags parsed \<times> world" where
  "finalise_flags av optind f w =
     (if has_interval f \<and> flood f
      then (Rejected, emit (Stderr (''invalid combination: -f + -i'' @ nl)) w)
      else if bsd_flood f \<and> \<not> flood f
      then (Rejected, emit (Stderr (''ft_ping: --bsd-flood only means anything with -f'' @ nl)) w)
      else (let f1 = (if quiet f then f\<lparr>quiet_errors := False, verbose := False\<rparr> else f) in
        if length av \<le> optind
        then (Rejected, emit (Stderr (''ft_ping: missing host operand'' @ nl)) w)
        else (Parsed (f1\<lparr>host := av ! optind\<rparr>), w)))"

text \<open>
  One pass of the \<open>switch\<close>: \<open>Parsed\<close> is the \<open>break\<close> that goes on with the loop. The outer
  option is \<open>None\<close> for undefined behaviour: a use of a null \<open>optarg\<close>, a write outside the
  pattern array.
\<close>

definition handle_opt ::
  "char \<Rightarrow> string option \<Rightarrow> char \<Rightarrow> t_flags \<Rightarrow> world \<Rightarrow> (t_flags parsed \<times> world) option" where
  "handle_opt opt optarg optopt f w =
     (if opt = CHR ''f'' then
        (let (ok, w1) = require_root opt ''flood ping'' w in
         Some (if ok then Parsed (f\<lparr>flood := True\<rparr>) else Rejected, w1))
      else if opt = CHR ''l'' then do {
        arg \<leftarrow> optarg;
        (case opt_long arg opt 0 LONG_MAX w of
           (None, w1) \<Rightarrow> Some (Rejected, w1)
         | (Some tmp, w1) \<Rightarrow>
             (let (ok, w2) = require_root opt ''preload'' w1 in
              Some (if ok then Parsed (f\<lparr>has_preload := True, preload := i32 tmp\<rparr>) else Rejected, w2)))
      }
      else if opt = CHR ''i'' then do {
        arg \<leftarrow> optarg;
        (case test_strton arg False of
           (True, Double d_tmp) \<Rightarrow>
             Some (if dle d_tmp (Fin 0) then (Rejected, invalid_value arg opt w)
                   else if dlt d_tmp (fl (2 / 1000)) \<and> os_geteuid (env w) \<noteq> 0
                   then (Rejected, emit (Stderr (''ft_ping: -i: intervals below 2ms require root'' @ nl)) w)
                   else (Parsed (f\<lparr>has_interval := True, interval := d_tmp\<rparr>), w))
         | _ \<Rightarrow> Some (Rejected, invalid_value arg opt w))
      }
      else if opt = CHR ''m'' then do {
        arg \<leftarrow> optarg;
        (case opt_long arg opt 0 255 w of
           (None, w1) \<Rightarrow> Some (Rejected, w1)
         | (Some tmp, w1) \<Rightarrow> Some (Parsed (f\<lparr>has_ttl := True, ttl := i32 tmp\<rparr>), w1))
      }
      else if opt = CHR ''o'' then Some (Parsed (f\<lparr>exit_on_reply := True\<rparr>), w)
      else if opt = CHR ''Q'' then Some (Parsed (f\<lparr>quiet_errors := True\<rparr>), w)
      else if opt = CHR ''q'' then Some (Parsed (f\<lparr>quiet := True\<rparr>), w)
      else if opt = CHR ''r'' then Some (Parsed (f\<lparr>bypass_routing := True\<rparr>), w)
      else if opt = CHR ''p'' then do {
        arg \<leftarrow> optarg;
        r \<leftarrow> decode_pattern arg (pattern f);
        Some (case r of
            None \<Rightarrow> (Rejected, emit (Stderr (''ft_ping: patterns must be specified as hex ''
                        @ ''digits (max 32 hex chars / 16 bytes)'' @ nl)) w)
          | Some (bytes, n) \<Rightarrow> (Parsed (f\<lparr>pattern := bytes, pattern_len := n, has_pattern := True\<rparr>), w))
      }
      else if opt = CHR ''S'' then do {
        arg \<leftarrow> optarg;
        Some (Parsed (f\<lparr>has_source_addr := True, source_addr := arg\<rparr>), w)
      }
      else if opt = CHR ''s'' then do {
        arg \<leftarrow> optarg;
        (case opt_long arg opt 0 65507 w of
           (None, w1) \<Rightarrow> Some (Rejected, w1)
         | (Some tmp, w1) \<Rightarrow> Some (Parsed (f\<lparr>has_packet_size := True, packet_size := i32 tmp\<rparr>), w1))
      }
      else if opt = CHR ''T'' then do {
        arg \<leftarrow> optarg;
        (case opt_long arg opt 0 255 w of
           (None, w1) \<Rightarrow> Some (Rejected, w1)
         | (Some tmp, w1) \<Rightarrow> Some (Parsed (f\<lparr>has_multicast_ttl := True, multicast_ttl := i32 tmp\<rparr>), w1))
      }
      else if opt = CHR ''t'' then do {
        arg \<leftarrow> optarg;
        (case opt_long arg opt 1 LONG_MAX w of
           (None, w1) \<Rightarrow> Some (Rejected, w1)
         | (Some tmp, w1) \<Rightarrow> Some (Parsed (f\<lparr>has_timeout := True, timeout := i32 tmp\<rparr>), w1))
      }
      else if opt = CHR ''v'' then Some (Parsed (f\<lparr>verbose := True\<rparr>), w)
      else if opt = CHR ''?'' then
        (if optopt = CHR ''?'' then Some (Exit 0, print_usage w)
         else Some (Rejected, print_usage_hint (emit (Stderr (''unknown option: -'' @ [optopt] @ nl)) w)))
      else if opt = CHR '':'' then
        Some (Rejected, print_usage_hint (emit (Stderr (''-'' @ [optopt] @ '' needs an argument'' @ nl)) w))
      else Some (Parsed f, w))"

section \<open>The command line\<close>

definition optstring :: string where
  "optstring = '':fl:i:m:oQqrp:S:s:T:t:v''"

fun parse_loop ::
  "nat \<Rightarrow> string list \<Rightarrow> getopt_data \<Rightarrow> t_flags \<Rightarrow> world \<Rightarrow> (t_flags parsed \<times> world) option" where
  "parse_loop 0 av d f w = None"
| "parse_loop (Suc fuel) av d f w = do {
     (opt, av1, d1, w1) \<leftarrow> getopt (os_posixly_correct (env w)) optstring av d w;
     (case opt of
        None \<Rightarrow> Some (finalise_flags av1 (g_optind d1) f w1)
      | Some c \<Rightarrow> do {
          (r, w2) \<leftarrow> handle_opt c (g_optarg d1) (char_of (g_optopt d1)) f w1;
          (case r of
             Parsed f1 \<Rightarrow> parse_loop fuel av1 d1 f1 w2
           | Rejected \<Rightarrow> Some (Rejected, w2)
           | Exit n \<Rightarrow> Some (Exit n, w2))
        })
   }"

definition parse_fuel :: "string list \<Rightarrow> nat" where
  "parse_fuel av = Suc (sum_list (map (Suc \<circ> length) av))"

definition parse_info :: "string list \<Rightarrow> t_flags \<Rightarrow> world \<Rightarrow> (t_flags parsed \<times> world) option" where
  "parse_info av f w =
     (case extract_long_opts av f w of
        (Exit n, w1) \<Rightarrow> Some (Exit n, w1)
      | (Rejected, w1) \<Rightarrow> Some (Rejected, w1)
      | (Parsed (av1, f1), w1) \<Rightarrow>
          parse_loop (parse_fuel av1) av1 (getopt_start\<lparr>g_opterr := False\<rparr>) f1 w1)"

end
