(* ===== verification/Ping_Cli_Spec.thy ===== *)
theory Ping_Cli_Spec
  imports Ping_Cli
begin

text \<open>
  What the command line decoder of \<open>Ping_Cli\<close> computes. The loop over \<open>getopt\<close> is first
  shown equal to a loop over the abstract scanner of \<open>Getopt\<close>; long options and patterns have
  an exact description; then every parse ends in one of three ways, an accepted one with
  flags the run can rely on, and a rendered list of settings is read back as those settings.
\<close>

section \<open>The loop over the abstract scanner\<close>

fun parse_scan ::
  "nat \<Rightarrow> string \<times> string list \<times> string list \<Rightarrow> t_flags \<Rightarrow> world \<Rightarrow> (t_flags parsed \<times> world) option" where
  "parse_scan 0 s f w = None"
| "parse_scan (Suc fuel) s f w =
     (case scan_next optstring s of
        Operands os \<Rightarrow> Some (finalise_flags os 0 f w)
      | Scanned c arg opt s1 \<Rightarrow> do {
          (r, w2) \<leftarrow> handle_opt c arg opt f w;
          (case r of
             Parsed f1 \<Rightarrow> parse_scan fuel s1 f1 w2
           | Rejected \<Rightarrow> Some (Rejected, w2)
           | Exit n \<Rightarrow> Some (Exit n, w2))
        })"

lemma finalise_drop: "finalise_flags av i f w = finalise_flags (drop i av) 0 f w"
  by (simp add: finalise_flags_def Let_def)

lemma handle_opt_env:
  "handle_opt c arg opt f w = Some (r, w') \<Longrightarrow> same_kernel w w'"
  by (auto simp: handle_opt_def require_root_def opt_long_def invalid_value_def
      print_usage_hint_def Let_def
      split: if_splits Option.bind_splits option.splits bool.splits num.splits prod.splits)

lemma optstring_facts: "take 1 optstring = '':''" "opt_kind optstring (CHR ''?'') = Unknown"
  by code_simp+

lemma handle_opt_optopt:
  "c \<noteq> CHR ''?'' \<Longrightarrow> c \<noteq> CHR '':'' \<Longrightarrow> handle_opt c arg opt f w = handle_opt c arg opt' f w"
  by (simp add: handle_opt_def)

lemma parse_loop_scan:
  assumes "represents av d s" "\<not> os_posixly_correct (env w)"
  shows "parse_loop fuel av d f w = parse_scan fuel s f w"
  using assms
proof (induction fuel arbitrary: av d s f w)
  case (Suc fuel)
  obtain n ops rest where s: "s = (n, ops, rest)" by (cases s)
  show ?case
  proof (cases "scan_next optstring s")
    case (Operands os)
    obtain av' d' where "getopt False optstring av d w = Some (None, av', d', w)" "drop (g_optind d') av' = os"
      using getopt_step [OF Suc.prems(1) [unfolded s] optstring_facts, of False w]
      unfolding s [symmetric] Operands scanned.case by blast
    then show ?thesis
      using Suc.prems(2) Operands finalise_drop [of av' "g_optind d'" f w] by simp
  next
    case (Scanned c arg opt s1)
    obtain av' d' where g: "getopt False optstring av d w = Some (Some c, av', d', w)" "represents av' d' s1"
      "g_optarg d' = arg" "c = CHR ''?'' \<or> c = CHR '':'' \<longrightarrow> g_optopt d' = char_int opt"
      using getopt_step [OF Suc.prems(1) [unfolded s] optstring_facts, of False w]
      unfolding s [symmetric] Scanned scanned.case by blast
    have h: "handle_opt c arg (char_of (g_optopt d')) f w = handle_opt c arg opt f w"
      using g(4) handle_opt_optopt [of c] by (metis char_of_int)
    show ?thesis
    proof (cases "handle_opt c arg opt f w")
      case None
      then show ?thesis using Suc.prems(2) Scanned g h by simp
    next
      case (Some p)
      obtain r w2 where p: "p = (r, w2)" by (cases p)
      have "\<not> os_posixly_correct (env w2)"
        using handle_opt_env [OF Some [unfolded p]] Suc.prems(2) same_kernelD by metis
      then have "parse_loop fuel av' d' f1 w2 = parse_scan fuel s1 f1 w2" for f1
        using Suc.IH g(2) by blast
      then show ?thesis using Suc.prems(2) Scanned g h Some p by (simp split: parsed.split)
    qed
  qed
qed simp

section \<open>Long options\<close>

definition is_long :: "string \<Rightarrow> bool" where
  "is_long a \<longleftrightarrow> take 2 a = ''--''"

text \<open>What the pre-pass computes: the tokens in front of a bare \<open>--\<close>, without the long ones.\<close>

fun long_spec :: "string list \<Rightarrow> t_flags \<Rightarrow> world \<Rightarrow> (string list \<times> t_flags) parsed \<times> world" where
  "long_spec [] f w = (Parsed ([], f), w)"
| "long_spec (a # as) f w =
     (if a = ''--'' then (Parsed (a # as, f), w)
      else if \<not> is_long a
      then (case long_spec as f w of
              (Parsed (bs, f1), w1) \<Rightarrow> (Parsed (a # bs, f1), w1)
            | r \<Rightarrow> r)
      else if a = ''--help'' then (Exit 0, print_usage w)
      else if a = ''--bsd-flood'' then long_spec as (f\<lparr>bsd_flood := True\<rparr>) w
      else (Rejected, print_usage_hint
        (emit (Stderr (''ft_ping: unrecognized option '' @ [CHR 0x27] @ a @ [CHR 0x27] @ nl)) w)))"

lemma extract_long_eq:
  "extract_long (P @ as) f w (length P) =
     (case long_spec as f w of
        (Parsed (bs, f1), w1) \<Rightarrow> (Parsed (P @ bs, f1), w1)
      | r \<Rightarrow> r)"
proof (induction as arbitrary: P f)
  case Nil
  then show ?case by (subst extract_long.simps) simp
next
  case (Cons a as)
  have step: "extract_long (P @ a # as) f w (length P) =
    (if a = ''--'' then (Parsed (P @ a # as, f), w)
     else if take 2 a \<noteq> ''--'' then extract_long ((P @ [a]) @ as) f w (length (P @ [a]))
     else (case apply_long_opt a f of
             Help \<Rightarrow> (Exit 0, print_usage w)
           | Unrecognised \<Rightarrow> (Rejected, print_usage_hint
               (emit (Stderr (''ft_ping: unrecognized option '' @ [CHR 0x27] @ a @ [CHR 0x27] @ nl)) w))
           | Recognised f1 \<Rightarrow> extract_long (P @ as) f1 w (length P)))"
    by (subst extract_long.simps) (simp add: drop_arg_eq split: long_opt.split)
  show ?case
    unfolding step Cons.IH
    by (auto simp: apply_long_opt_def is_long_def split: parsed.split prod.split)
qed

text \<open>C18. The pre-pass for long options is exact: in front of a bare \<open>--\<close>, every \<open>--bsd-flood\<close> is
  removed from \<open>argv\<close> and sets its flag, the first \<open>--help\<close> exits with status 0, the first other
  long option is rejected, and all other elements keep their place and order. The in-place
  shifting loop never skips the element it moves into the freed slot.\<close>

theorem extract_long_opts_spec:
  "extract_long_opts (prog # as) f w =
     (case long_spec as f w of
        (Parsed (bs, f1), w1) \<Rightarrow> (Parsed (prog # bs, f1), w1)
      | r \<Rightarrow> r)"
  using extract_long_eq [of "[prog]" as f w, unfolded append_Cons append_Nil]
  by (simp add: extract_long_opts_def)

lemma extract_long_opts_eq:
  "extract_long_opts (prog # as) f w =
     (case long_spec as f w of
        (Parsed (bs, f1), w1) \<Rightarrow> (Parsed (prog # bs, f1), w1)
      | r \<Rightarrow> r)"
  using extract_long_eq [of "[prog]" as f w, unfolded append_Cons append_Nil]
  by (simp add: extract_long_opts_def)

lemma parse_info_scan:
  assumes "\<not> os_posixly_correct (env w)"
  shows "parse_info (prog # as) f w =
     (case long_spec as f w of
        (Parsed (bs, f1), w1) \<Rightarrow> parse_scan (parse_fuel (prog # bs)) ([], [], bs) f1 w
      | (Rejected, w1) \<Rightarrow> Some (Rejected, w1)
      | (Exit n, w1) \<Rightarrow> Some (Exit n, w1))"
proof -
  have w: "long_spec as f w = (Parsed x, w1) \<Longrightarrow> w1 = w" for x w1
    by (induction as arbitrary: f x) (auto split: if_splits prod.splits parsed.splits)
  have g: "parse_loop (parse_fuel (prog # bs)) (prog # bs) (getopt_start\<lparr>g_opterr := False\<rparr>) f1 w
      = parse_scan (parse_fuel (prog # bs)) ([], [], bs) f1 w" for bs f1
  proof -
    have px: "os_posixly_correct (env w) = False" using assms by simp
    have "getopt False optstring (prog # bs) (getopt_start\<lparr>g_opterr := False\<rparr>) w
        = getopt False optstring (prog # bs) getopt_ready w"
      using getopt_first [OF optstring_facts(1), of "prog # bs" w] by simp
    then have "parse_loop (parse_fuel (prog # bs)) (prog # bs) (getopt_start\<lparr>g_opterr := False\<rparr>) f1 w
        = parse_loop (parse_fuel (prog # bs)) (prog # bs) getopt_ready f1 w"
      by (simp only: parse_fuel_def parse_loop.simps px)
    then show ?thesis using parse_loop_scan [OF represents_ready assms] by simp
  qed
  show ?thesis
  proof (cases "long_spec as f w")
    case (Pair r w1)
    show ?thesis
    proof (cases r)
      case (Parsed x)
      then obtain bs f1 where x: "x = (bs, f1)" by (cases x)
      have "w1 = w" using w Pair Parsed by blast
      then show ?thesis
        unfolding parse_info_def extract_long_opts_eq Pair Parsed x prod.case parsed.case by (simp add: g)
    qed (simp_all add: parse_info_def extract_long_opts_eq Pair)
  qed
qed

section \<open>Patterns\<close>

text \<open>The byte that two hexadecimal digits denote.\<close>

definition hex_pair :: "char \<Rightarrow> char \<Rightarrow> byte" where
  "hex_pair a b = word_of_int (16 * the (digit_val a) + the (digit_val b))"

lemma isxdigit_facts:
  assumes "c_isxdigit c"
  shows "\<exists>v. digit_val c = Some v \<and> 0 \<le> v \<and> v < 16" "\<not> c_isspace c" "c \<noteq> CHR ''-''" "c \<noteq> CHR ''+''"
    "c_tolower c \<noteq> CHR ''x''"
proof -
  obtain v where v: "digit_val c = Some v" "v < 16"
    using assms by (auto simp: is_base_digit_def split: option.splits)
  define k :: int where "k = of_char (c_tolower c)"
  have d: "(48 \<le> k \<and> k \<le> 57 \<and> v = k - 48) \<or> (97 \<le> k \<and> k \<le> 122 \<and> v = k - 87)"
    using v(1) by (auto simp: Let_def simp flip: k_def split: if_splits)
  then show "\<exists>v. digit_val c = Some v \<and> 0 \<le> v \<and> v < 16" using v by auto
  show "c_tolower c \<noteq> CHR ''x''"
  proof
    assume "c_tolower c = CHR ''x''"
    then have "k = 120" by (simp add: k_def)
    then show False using d v(2) by simp
  qed
  show "c \<noteq> CHR ''-''" "c \<noteq> CHR ''+''"
    using d by (auto simp: k_def c_tolower_def)
  show "\<not> c_isspace c"
  proof
    assume sp: "c_isspace c"
    then have "c_tolower c = c" by (auto simp: c_isspace_def c_tolower_def Let_def)
    then show False using d sp by (auto simp: k_def c_isspace_def Let_def)
  qed
qed

lemma strtol_hex_pair:
  assumes "c_isxdigit a" "c_isxdigit b"
  shows "word_of_int (fst (strtol [a, b] 16)) = hex_pair a b"
proof -
  obtain u v where u: "digit_val a = Some u" "0 \<le> u" "u < 16" and v: "digit_val b = Some v" "0 \<le> v" "v < 16"
    using isxdigit_facts(1) assms by meson
  have "strtol [a, b] 16 = (16 * u + v, [], False)"
    using isxdigit_facts(2-5) [OF assms(1)] isxdigit_facts(5) [OF assms(2)] assms u v
    by (simp add: strtol_def digits_value_def LONG_MAX_def LONG_MIN_def Let_def del: digit_val.simps)
  then show ?thesis using u v by (simp add: hex_pair_def del: digit_val.simps)
qed

lemma decode_loop_eq:
  assumes "\<forall>c \<in> set hex. c_isxdigit c" "length hex = 2 * n" "i \<le> n" "n \<le> length out"
  shows "decode_loop hex (2 * n) (2 * i) out = Some (take i out
    @ map (\<lambda>k. hex_pair (hex ! (2 * k)) (hex ! (2 * k + 1))) [i..<n] @ drop n out)"
  using assms(3,4)
proof (induction "n - i" arbitrary: i out)
  case 0
  then show ?case by (subst decode_loop.simps) simp
next
  case (Suc m)
  then have i: "i < n" by simp
  define b where "b = hex_pair (hex ! (2 * i)) (hex ! (2 * i + 1))"
  have "2 * i + 1 < length hex" using i assms(2) by simp
  then have p: "peek (hex @ [CHR 0x00]) (2 * i) = Some (hex ! (2 * i))"
    "peek (hex @ [CHR 0x00]) (2 * i + 1) = Some (hex ! (2 * i + 1))"
    by (simp_all add: peek_def nth_append)
  have x: "word_of_int (fst (strtol [hex ! (2 * i), hex ! (2 * i + 1)] 16)) = b"
    unfolding b_def using assms(1,2) i by (intro strtol_hex_pair) simp_all
  have w: "poke out (2 * i div 2) b = Some (out[i := b])" using i Suc.prems by (simp add: poke_def)
  have "decode_loop hex (2 * n) (2 * i) out = decode_loop hex (2 * n) (2 * Suc i) (out[i := b])"
    using i by (subst decode_loop.simps) (simp only: p x w Option.bind.simps, simp)
  also have "\<dots> = Some (take (Suc i) (out[i := b])
    @ map (\<lambda>k. hex_pair (hex ! (2 * k)) (hex ! (2 * k + 1))) [Suc i..<n] @ drop n (out[i := b]))"
    using Suc i by (intro Suc.hyps(1)) simp_all
  also have "take (Suc i) (out[i := b]) = take i out @ [b]"
    using i Suc.prems by (simp add: take_Suc_conv_app_nth)
  finally show ?case using i by (simp add: upt_conv_Cons b_def)
qed

lemma decode_pattern_eq:
  assumes "length out = PING_PATTERN_MAX"
  shows "decode_pattern hex out = Some (
    if is_valid_hex hex (length hex)
    then Some (map (\<lambda>k. hex_pair (hex ! (2 * k)) (hex ! (2 * k + 1))) [0..<length hex div 2]
               @ drop (length hex div 2) out, int (length hex div 2))
    else None)"
proof (cases "is_valid_hex hex (length hex)")
  case True
  define n where "n = length hex div 2"
  have v: "length hex = 2 * n" "n \<le> length out" "\<forall>c \<in> set hex. c_isxdigit c"
    using True assms by (auto simp: is_valid_hex_def n_def PING_PATTERN_MAX_def list_all_iff split: if_splits)
  from decode_loop_eq [OF v(3,1), of 0 out] v(2)
  have "decode_loop hex (length hex) 0 out = Some (map (\<lambda>k. hex_pair (hex ! (2 * k)) (hex ! (2 * k + 1))) [0..<n] @ drop n out)"
    by (simp add: v(1))
  then show ?thesis using True by (simp add: decode_pattern_def Let_def n_def)
qed (simp add: decode_pattern_def Let_def)

text \<open>Two digits per byte, as the user writes a pattern.\<close>

fun hex_text :: "byte list \<Rightarrow> string" where
  "hex_text [] = []"
| "hex_text (b # bs) = hex_digit (uint b div 16) # hex_digit (uint b mod 16) # hex_text bs"

lemma length_hex_text [simp]: "length (hex_text bs) = 2 * length bs"
  by (induction bs) simp_all

lemma digit_val_hex_digit:
  assumes "0 \<le> d" "d < 16"
  shows "digit_val (hex_digit d) = Some d" "c_isxdigit (hex_digit d)"
proof -
  have "d \<in> {0, 1, 2, 3, 4, 5, 6, 7, 8, 9, 10, 11, 12, 13, 14, 15}"
    using assms unfolding insert_iff empty_iff by presburger
  then show "digit_val (hex_digit d) = Some d"
    by (elim insertE emptyE) (simp_all add: hex_digit_def c_tolower_def Let_def)
  then show "c_isxdigit (hex_digit d)" using assms by (simp add: is_base_digit_def del: digit_val.simps)
qed

lemma uint_byte_digits: "0 \<le> uint (b :: byte) div 16" "uint b div 16 < 16" "0 \<le> uint b mod 16" "uint b mod 16 < 16"
  using unsigned_less [of b, where ?'a = int] unsigned_greater_eq [of b, where ?'a = int]
  by (simp_all add: pos_imp_zdiv_nonneg_iff)

lemma hex_text_digits: "c \<in> set (hex_text bs) \<Longrightarrow> c_isxdigit c"
  by (induction bs) (auto simp: digit_val_hex_digit uint_byte_digits)

lemma hex_text_pairs:
  "k < length bs \<Longrightarrow> hex_pair (hex_text bs ! (2 * k)) (hex_text bs ! (2 * k + 1)) = bs ! k"
proof (induction bs arbitrary: k)
  case (Cons b bs)
  have "16 * (uint b div 16) + uint b mod 16 = uint b" by simp
  then show ?case
    using Cons by (cases k) (simp_all add: hex_pair_def digit_val_hex_digit uint_byte_digits del: digit_val.simps)
qed simp

lemma decode_hex_text:
  assumes "1 \<le> length bs" "length bs \<le> PING_PATTERN_MAX" "length out = PING_PATTERN_MAX"
  shows "decode_pattern (hex_text bs) out = Some (Some (bs @ drop (length bs) out, int (length bs)))"
proof -
  have "is_valid_hex (hex_text bs) (length (hex_text bs))"
    using assms hex_text_digits by (auto simp: is_valid_hex_def list_all_iff)
  moreover have "map (\<lambda>k. hex_pair (hex_text bs ! (2 * k)) (hex_text bs ! (2 * k + 1))) [0..<length bs] = bs"
    by (rule nth_equalityI) (simp_all add: hex_text_pairs del: One_nat_def)
  ultimately show ?thesis
    using decode_pattern_eq [OF assms(3), of "hex_text bs"] by simp
qed

text \<open>\<open>-p\<close> decodes exactly what it documents: every pattern of 1 to 16 bytes, written as two
  hexadecimal digits per byte, is read back byte for byte into the front of the flag's array;
  no other bytes of it change, and the loop never leaves the array.\<close>

theorem decode_pattern_roundtrip:
  assumes "1 \<le> length bs" "length bs \<le> PING_PATTERN_MAX" "length out = PING_PATTERN_MAX"
  shows "decode_pattern (hex_text bs) out = Some (Some (bs @ drop (length bs) out, int (length bs)))"
  by (rule decode_hex_text [OF assms])

theorem decode_pattern_roundtrip_witness:
  "decode_pattern ''deadbeef'' (replicate 16 0) = Some (Some ([0xDE, 0xAD, 0xBE, 0xEF] @ replicate 12 0, 4))"
proof -
  have "hex_text [0xDE, 0xAD, 0xBE, 0xEF] = ''deadbeef''" by code_simp
  then show ?thesis
    using decode_pattern_roundtrip [of "[0xDE, 0xAD, 0xBE, 0xEF]" "replicate 16 0"]
    by (simp add: PING_PATTERN_MAX_def)
qed

section \<open>What an accepted command line guarantees\<close>

text \<open>The ranges every option keeps while the loop runs.\<close>

definition ranges_ok :: "os \<Rightarrow> t_flags \<Rightarrow> bool" where
  "ranges_ok e f \<longleftrightarrow> wf_flags f \<and>
     (has_ttl f \<longrightarrow> 0 \<le> ttl f \<and> ttl f \<le> 255) \<and>
     (has_multicast_ttl f \<longrightarrow> 0 \<le> multicast_ttl f \<and> multicast_ttl f \<le> 255) \<and>
     (has_packet_size f \<longrightarrow> 0 \<le> packet_size f \<and> packet_size f \<le> 65507) \<and>
     (has_interval f \<longrightarrow> \<not> dle (interval f) (Fin 0)) \<and>
     (flood f \<or> has_preload f \<or> has_interval f \<and> dlt (interval f) (fl (2 / 1000)) \<longrightarrow> os_geteuid e = 0)"

lemma ranges_ok_zero [simp]: "ranges_ok e zero_flags" "ranges_ok e (zero_flags\<lparr>bsd_flood := b\<rparr>)"
  by (simp_all add: ranges_ok_def wf_flags_def zero_flags_def PING_PATTERN_MAX_def)

text \<open>The three ways to end, and what each prints.\<close>

definition only_stderr :: "event list \<Rightarrow> bool" where
  "only_stderr es \<longleftrightarrow> (\<forall>e \<in> set es. \<exists>s. e = Stderr s)"

fun parse_result_ok :: "(t_flags \<Rightarrow> bool) \<Rightarrow> t_flags parsed \<Rightarrow> event list \<Rightarrow> bool" where
  "parse_result_ok good (Parsed f) out = (good f \<and> out = [])"
| "parse_result_ok good Rejected out = (out \<noteq> [] \<and> only_stderr out)"
| "parse_result_ok good (Exit n) out = (n = 0 \<and> out = map Stdout usage_text)"

definition parse_ends :: "(t_flags \<Rightarrow> bool) \<Rightarrow> world \<Rightarrow> (t_flags parsed \<times> world) option \<Rightarrow> bool" where
  "parse_ends good w r \<longleftrightarrow> (\<exists>p w' out. r = Some (p, w') \<and> same_kernel w w' \<and>
     events w' = events w @ out \<and> parse_result_ok good p out)"

lemma parse_ends_reject: "parse_ends good w (Some (Rejected, emit (Stderr m) w))"
  by (auto simp: parse_ends_def only_stderr_def)

lemma parse_ends_hint: "parse_ends good w (Some (Rejected, print_usage_hint (emit (Stderr m) w)))"
  by (auto simp: parse_ends_def only_stderr_def print_usage_hint_def)

lemma parse_ends_exit: "parse_ends good w (Some (Exit 0, print_usage w))"
  by (simp add: parse_ends_def)

lemma parse_ends_parsed: "parse_ends good w (Some (Parsed f, w)) = good f"
  by (auto simp: parse_ends_def)

lemmas parse_ends_intros = parse_ends_reject parse_ends_hint parse_ends_exit

text \<open>\<open>opt_long\<close> leaves a value in its range or one line of complaint.\<close>

lemma opt_long_cases:
  "(\<exists>v. opt_long arg opt lo hi w = (Some v, w) \<and> lo \<le> v \<and> v \<le> hi) \<or>
   (\<exists>m. opt_long arg opt lo hi w = (None, emit (Stderr m) w))"
proof (cases "test_strton arg True")
  case (Pair ok n)
  then show ?thesis
    by (cases ok; cases n) (auto simp: opt_long_def invalid_value_def)
qed

text \<open>The letters that \<open>optstring\<close> gives an argument never come without one.\<close>

lemma scanned_argument:
  assumes "scan_next optstring s = Scanned c arg opt s'" "c \<in> set ''limpSsTt''"
  shows "arg \<noteq> None"
proof -
  have k: "opt_kind optstring c = Argument"
    using assms(2) by simp (elim disjE; hypsubst; code_simp)
  have "scan_char optstring c0 nx ops rest = Scanned c arg opt s' \<Longrightarrow> arg \<noteq> None" for c0 nx ops rest
    using k assms(2) by (auto simp: scan_char_def Let_def split: opt_kind.splits if_splits list.splits)
  then show ?thesis
    using assms(1) by (cases s; cases "fst s") (auto simp: Let_def split: list.splits if_splits)
qed

lemma opt_long_ends:
  assumes "\<And>v. lo \<le> v \<Longrightarrow> v \<le> hi \<Longrightarrow> parse_ends good w (k v w)"
  shows "parse_ends good w (case opt_long a c lo hi w of
    (None, w1) \<Rightarrow> Some (Rejected, w1) | (Some tmp, w1) \<Rightarrow> k tmp w1)"
  using opt_long_cases [of a c lo hi w] by (auto simp: assms parse_ends_intros)

lemma require_root_ends:
  assumes "os_geteuid (env w) = 0 \<Longrightarrow> good f"
  shows "parse_ends good w (let (ok, w1) = require_root c what w in Some (if ok then Parsed f else Rejected, w1))"
  using assms by (simp add: require_root_def parse_ends_intros parse_ends_parsed)

lemma handle_opt_ok:
  assumes inv: "ranges_ok (env w) f" and arg: "c \<in> set ''limpSsTt'' \<Longrightarrow> arg \<noteq> None"
  shows "parse_ends (ranges_ok (env w)) w (handle_opt c arg opt f w)"
proof -
  let ?good = "ranges_ok (env w)"
  have simple: "?good (f\<lparr>exit_on_reply := True\<rparr>)" "?good (f\<lparr>quiet_errors := True\<rparr>)" "?good (f\<lparr>quiet := True\<rparr>)"
    "?good (f\<lparr>bypass_routing := True\<rparr>)" "?good (f\<lparr>verbose := True\<rparr>)"
    "?good (f\<lparr>has_source_addr := True, source_addr := a\<rparr>)"
    "?good (f\<lparr>has_timeout := True, timeout := n\<rparr>)" for a n
    using inv by (simp_all add: ranges_ok_def wf_flags_def)
  have root: "os_geteuid (env w) = 0 \<Longrightarrow> ?good (f\<lparr>flood := True\<rparr>)"
    "os_geteuid (env w) = 0 \<Longrightarrow> ?good (f\<lparr>has_preload := True, preload := n\<rparr>)" for n
    using inv by (simp_all add: ranges_ok_def wf_flags_def)
  consider "c = CHR ''f''" | "c = CHR ''l''" | "c = CHR ''i''" | "c = CHR ''m''" | "c = CHR ''p''"
    | "c = CHR ''S''" | "c = CHR ''s''" | "c = CHR ''T''" | "c = CHR ''t''" | "c = CHR ''?''"
    | "c \<in> set ''oQqrv:''" | "c \<notin> set ''flimpSsTt?oQqrv:''" by auto
  then show ?thesis
  proof cases
    case 1
    then show ?thesis using require_root_ends [where good = ?good, OF root(1)] by (simp add: handle_opt_def)
  next
    case 2
    with arg obtain a where a: "arg = Some a" by auto
    show ?thesis
      unfolding a 2 handle_opt_def Option.bind.simps
      by simp (intro opt_long_ends require_root_ends root(2))
  next
    case 3
    with arg obtain a where a: "arg = Some a" by auto
    show ?thesis
    proof (cases "test_strton a False")
      case (Pair ok x)
      then show ?thesis
        using inv by (cases ok; cases x)
          (auto simp: handle_opt_def a 3 parse_ends_intros parse_ends_parsed invalid_value_def ranges_ok_def wf_flags_def)
    qed
  next
    case 4
    with arg obtain a where a: "arg = Some a" by auto
    have "?good (f\<lparr>has_ttl := True, ttl := i32 v\<rparr>)" if "0 \<le> v" "v \<le> 255" for v
      using inv that by (simp add: ranges_ok_def wf_flags_def)
    then show ?thesis
      unfolding a 4 handle_opt_def Option.bind.simps by simp (intro opt_long_ends, simp add: parse_ends_parsed)
  next
    case 5
    with arg obtain a where a: "arg = Some a" by auto
    have l: "length (pattern f) = PING_PATTERN_MAX" using inv by (simp add: ranges_ok_def wf_flags_def)
    have "?good (f\<lparr>pattern := map g [0..<length a div 2] @ drop (length a div 2) (pattern f),
        pattern_len := int (length a div 2), has_pattern := True\<rparr>)"
      if v: "is_valid_hex a (length a)" for g
    proof -
      have "length a \<noteq> 0" "length a mod 2 = 0" "length a \<le> 32"
        using v unfolding is_valid_hex_def PING_PATTERN_MAX_def by (simp_all split: if_splits)
      then have "1 \<le> length a div 2 \<and> length a div 2 \<le> 16" by presburger
      then show ?thesis using inv l by (simp add: ranges_ok_def wf_flags_def PING_PATTERN_MAX_def)
    qed
    then show ?thesis
      by (simp add: handle_opt_def a 5 decode_pattern_eq [OF l] parse_ends_intros parse_ends_parsed)
  next
    case 6
    with arg obtain a where a: "arg = Some a" by auto
    show ?thesis using simple(6) by (simp add: handle_opt_def a 6 parse_ends_parsed)
  next
    case 7
    with arg obtain a where a: "arg = Some a" by auto
    have "?good (f\<lparr>has_packet_size := True, packet_size := i32 v\<rparr>)" if "0 \<le> v" "v \<le> 65507" for v
      using inv that by (simp add: ranges_ok_def wf_flags_def)
    then show ?thesis
      unfolding a 7 handle_opt_def Option.bind.simps by simp (intro opt_long_ends, simp add: parse_ends_parsed)
  next
    case 8
    with arg obtain a where a: "arg = Some a" by auto
    have "?good (f\<lparr>has_multicast_ttl := True, multicast_ttl := i32 v\<rparr>)" if "0 \<le> v" "v \<le> 255" for v
      using inv that by (simp add: ranges_ok_def wf_flags_def)
    then show ?thesis
      unfolding a 8 handle_opt_def Option.bind.simps by simp (intro opt_long_ends, simp add: parse_ends_parsed)
  next
    case 9
    with arg obtain a where a: "arg = Some a" by auto
    show ?thesis
      unfolding a 9 handle_opt_def Option.bind.simps
      by simp (intro opt_long_ends, simp add: parse_ends_parsed simple)
  next
    case 10
    then show ?thesis by (simp add: handle_opt_def parse_ends_intros)
  next
    case 11
    then show ?thesis
      by simp (elim disjE; hypsubst; simp add: handle_opt_def parse_ends_intros parse_ends_parsed simple)
  next
    case 12
    then show ?thesis using inv by (simp add: handle_opt_def parse_ends_parsed)
  qed
qed

text \<open>The rules between options, and the operand.\<close>

definition flags_ok :: "os \<Rightarrow> string list \<Rightarrow> t_flags \<Rightarrow> bool" where
  "flags_ok e av f \<longleftrightarrow> ranges_ok e f \<and> \<not> (has_interval f \<and> flood f) \<and> (bsd_flood f \<longrightarrow> flood f) \<and>
     (quiet f \<longrightarrow> \<not> quiet_errors f \<and> \<not> verbose f) \<and> host f \<in> set av"

lemma finalise_ends:
  assumes "ranges_ok (env w) f" "set os \<subseteq> set av"
  shows "parse_ends (flags_ok (env w) av) w (Some (finalise_flags os 0 f w))"
proof (cases os)
  case (Cons h t)
  with assms show ?thesis
    by (auto simp: finalise_flags_def Let_def parse_ends_reject parse_ends_parsed flags_ok_def
        ranges_ok_def wf_flags_def)
qed (auto simp: finalise_flags_def Let_def parse_ends_reject)

text \<open>The scanner hands out the elements it was given.\<close>

lemma scan_next_elements:
  "case scan_next opts (n, ops, rest) of
     Operands os \<Rightarrow> set os \<subseteq> set ops \<union> set rest
   | Scanned c arg opt (n', ops', rest') \<Rightarrow> set ops' \<union> set rest' \<subseteq> set ops \<union> set rest"
proof -
  have c: "case scan_char opts c nx ops1 rest1 of Operands os \<Rightarrow> False
      | Scanned ret arg opt (n', ops', rest') \<Rightarrow> ops' = ops1 \<and> set rest' \<subseteq> set rest1" for c nx ops1 rest1
    by (cases rest1) (auto simp: scan_char_def Let_def split: opt_kind.splits list.splits)
  show ?thesis
  proof (cases n)
    case (Cons a nx)
    then show ?thesis using c [where c = a and nx = nx and ?ops1.0 = ops and ?rest1.0 = rest] by (auto split: scanned.splits)
  next
    case Nil
    have d: "set (takeWhile nonoption rest) \<subseteq> set rest" "set (dropWhile nonoption rest) \<subseteq> set rest"
      by (auto dest: set_takeWhileD set_dropWhileD)
    show ?thesis
    proof (cases "dropWhile nonoption rest")
      case e: (Cons a r)
      show ?thesis
      proof (cases "a = ''--'' \<or> drop 1 a = []")
        case True
        then show ?thesis using d e Nil by (auto simp: Let_def split: list.splits)
      next
        case False
        then obtain x nx where x: "drop 1 a = x # nx" by (cases "drop 1 a") auto
        have "scan_next opts (n, ops, rest) = scan_char opts x nx (ops @ takeWhile nonoption rest) (a # r)"
          using False e x Nil by (simp add: Let_def)
        then show ?thesis
          using c [where c = x and nx = nx
              and ?ops1.0 = "ops @ takeWhile nonoption rest" and ?rest1.0 = "a # r"] d e
          by (cases "scan_char opts x nx (ops @ takeWhile nonoption rest) (a # r)")
            (auto simp: scan_char_def Let_def split: opt_kind.splits list.splits)
      qed
    next
      case e: Nil
      have "scan_next opts (n, ops, rest) = Operands (ops @ takeWhile nonoption rest)"
        by (simp only: Nil scan_next.simps e Let_def list.case)
      then show ?thesis using d by auto
    qed
  qed
qed

lemma parse_scan_ends:
  assumes "ranges_ok (env w) f" "scan_size s < fuel" "set (fst (snd s)) \<union> set (snd (snd s)) \<subseteq> set av"
  shows "parse_ends (flags_ok (env w) av) w (parse_scan fuel s f w)"
  using assms
proof (induction fuel arbitrary: s f w)
  case (Suc fuel)
  obtain n ops rest where s: "s = (n, ops, rest)" by (cases s)
  show ?case
  proof (cases "scan_next optstring s")
    case (Operands os)
    then have "set os \<subseteq> set av" using scan_next_elements [where opts = optstring and n = n and ops = ops and rest = rest] Suc.prems(3) by (auto simp: s)
    then show ?thesis using Operands finalise_ends [OF Suc.prems(1)] by simp
  next
    case (Scanned c arg opt s1)
    have el: "set (fst (snd s1)) \<union> set (snd (snd s1)) \<subseteq> set av"
      using scan_next_elements [where opts = optstring and n = n and ops = ops and rest = rest] Suc.prems(3) Scanned by (cases s1) (auto simp: s)
    have sz: "scan_size s1 < fuel" using scan_next_progress [OF Scanned] Suc.prems(2) by simp
    obtain r w' out where h: "handle_opt c arg opt f w = Some (r, w')" "same_kernel w w'"
      "events w' = events w @ out" "parse_result_ok (ranges_ok (env w)) r out"
      using handle_opt_ok [OF Suc.prems(1) scanned_argument [OF Scanned]] unfolding parse_ends_def by blast
    show ?thesis
    proof (cases r)
      case (Parsed f1)
      then have "ranges_ok (env w') f1" using h same_kernelD by auto
      from Suc.IH [OF this sz el] show ?thesis
        using h Parsed Scanned same_kernelD(1) [OF h(2)]
        by (auto simp: parse_ends_def intro: same_kernel_trans)
    qed (use h Scanned in \<open>auto simp: parse_ends_def\<close>)
  qed
qed simp

lemma long_spec_ends:
  "\<exists>p w' out. long_spec as f w = (p, w') \<and> same_kernel w w' \<and> events w' = events w @ out \<and>
    (case p of Parsed (bs, f1) \<Rightarrow> w' = w \<and> set bs \<subseteq> set as \<and> (f1 = f \<or> f1 = f\<lparr>bsd_flood := True\<rparr>)
     | Rejected \<Rightarrow> out \<noteq> [] \<and> only_stderr out | Exit n \<Rightarrow> n = 0 \<and> out = map Stdout usage_text)"
proof (induction as arbitrary: f)
  case (Cons a as)
  consider "a = ''--''" | "a \<noteq> ''--''" "\<not> is_long a" | "a = ''--help''" | "a = ''--bsd-flood''"
    | "a \<noteq> ''--''" "is_long a" "a \<noteq> ''--help''" "a \<noteq> ''--bsd-flood''" by blast
  then show ?case
  proof cases
    case 2
    obtain p w' out where p: "long_spec as f w = (p, w')" "same_kernel w w'" "events w' = events w @ out"
      "case p of Parsed (bs, f1) \<Rightarrow> w' = w \<and> set bs \<subseteq> set as \<and> (f1 = f \<or> f1 = f\<lparr>bsd_flood := True\<rparr>)
       | Rejected \<Rightarrow> out \<noteq> [] \<and> only_stderr out | Exit n \<Rightarrow> n = 0 \<and> out = map Stdout usage_text"
      using Cons.IH by blast
    then show ?thesis using 2 by (cases p) (auto split: prod.splits)
  next
    case 3
    then show ?thesis by (simp add: is_long_def)
  next
    case 4
    obtain p w' out where p: "long_spec as (f\<lparr>bsd_flood := True\<rparr>) w = (p, w')" "same_kernel w w'"
      "events w' = events w @ out"
      "case p of Parsed (bs, f1) \<Rightarrow> w' = w \<and> set bs \<subseteq> set as
           \<and> (f1 = f\<lparr>bsd_flood := True\<rparr> \<or> f1 = f\<lparr>bsd_flood := True, bsd_flood := True\<rparr>)
       | Rejected \<Rightarrow> out \<noteq> [] \<and> only_stderr out | Exit n \<Rightarrow> n = 0 \<and> out = map Stdout usage_text"
      using Cons.IH by blast
    with 4 show ?thesis
      by (intro exI [of _ p] exI [of _ w'] exI [of _ out]) (auto simp: is_long_def split: parsed.splits)
  next
    case 5
    then show ?thesis by (simp add: print_usage_hint_def only_stderr_def)
  qed simp
qed simp

lemma parse_info_ends:
  assumes "\<not> os_posixly_correct (env w)"
  shows "parse_ends (flags_ok (env w) as) w (parse_info (prog # as) zero_flags w)"
proof -
  obtain p w' out where p: "long_spec as zero_flags w = (p, w')" "same_kernel w w'" "events w' = events w @ out"
    "case p of Parsed (bs, f1) \<Rightarrow> w' = w \<and> set bs \<subseteq> set as \<and> (f1 = zero_flags \<or> f1 = zero_flags\<lparr>bsd_flood := True\<rparr>)
     | Rejected \<Rightarrow> out \<noteq> [] \<and> only_stderr out | Exit n \<Rightarrow> n = 0 \<and> out = map Stdout usage_text"
    using long_spec_ends by blast
  show ?thesis
  proof (cases p)
    case (Parsed x)
    then obtain bs f1 where x: "x = (bs, f1)" by (cases x)
    have sz: "scan_size ([], [], bs) < parse_fuel (prog # bs)" by (simp add: scan_size_def parse_fuel_def)
    have r: "ranges_ok (env w) f1" using p(4) Parsed x by auto
    have "set (fst (snd ([], [], bs))) \<union> set (snd (snd ([], [], bs))) \<subseteq> set as" using p(4) Parsed x by simp
    from parse_scan_ends [OF r sz this] show ?thesis
      unfolding parse_info_scan [OF assms] p(1) Parsed x by simp
  qed (use p in \<open>auto simp: parse_info_scan [OF assms] parse_ends_def\<close>)
qed

text \<open>C8. Parsing a command line always ends, for every \<open>argv\<close> with a program name, unless the
  environment sets \<open>POSIXLY_CORRECT\<close> (which changes where \<open>getopt\<close> stops): it touches no memory outside its arrays and ends in one of three ways. It accepts silently, and then the
  flags are ones the program can run with (TTLs fit a byte, the packet fits an IP datagram, the
  pattern has 1 to 16 bytes, a preload, a flood or an interval below 2 ms belongs to root,
  \<open>-f\<close> and \<open>-i\<close> are not combined, \<open>-q\<close> has silenced \<open>-Q\<close> and \<open>-v\<close>, the host is an argument); or it
  rejects with a message on standard error; or it prints the usage,
  exactly that, and exits with status 0.\<close>

theorem parse_info_outcome:
  assumes "\<not> os_posixly_correct (env w)"
  shows "\<exists>p w' out. parse_info (prog # args) zero_flags w = Some (p, w') \<and> same_kernel w w' \<and>
    events w' = events w @ out \<and> parse_result_ok (flags_ok (env w) args) p out"
  using parse_info_ends [OF assms] unfolding parse_ends_def .

theorem parse_info_outcome_witness:
  "\<exists>f w'. parse_info [''ping'', ''h'', ''-qs'', ''9''] zero_flags (boot sample_os) = Some (Parsed f, w') \<and>
     flags_ok sample_os [''h'', ''-qs'', ''9''] f \<and> packet_size f = 9"
proof -
  have px: "\<not> os_posixly_correct (env (boot sample_os))" by (simp add: sample_os_def)
  have s: "(case parse_scan (parse_fuel [''ping'', ''h'', ''-qs'', ''9'']) ([], [], [''h'', ''-qs'', ''9'']) zero_flags (boot sample_os)
      of Some (Parsed f, _) \<Rightarrow> packet_size f = 9 | _ \<Rightarrow> False)" by code_simp
  have l: "long_spec [''h'', ''-qs'', ''9''] zero_flags w = (Parsed ([''h'', ''-qs'', ''9''], zero_flags), w)" for w
    by (simp add: is_long_def)
  have "case parse_info [''ping'', ''h'', ''-qs'', ''9''] zero_flags (boot sample_os) of
      Some (Parsed f, _) \<Rightarrow> packet_size f = 9 | _ \<Rightarrow> False"
    using s unfolding parse_info_scan [OF px] l by simp
  then obtain f w' where f: "parse_info [''ping'', ''h'', ''-qs'', ''9''] zero_flags (boot sample_os) = Some (Parsed f, w')"
    "packet_size f = 9" by (auto split: option.splits prod.splits parsed.splits)
  then show ?thesis
    using parse_info_outcome [OF px, of "''ping''" "[''h'', ''-qs'', ''9'']"] by auto
qed

section \<open>Reading a rendered command line\<close>

text \<open>A list of settings, each as the user would type it and as it acts on the flags.\<close>

datatype setting = Flood | Preload int | Ttl int | ExitOnReply | QuietErrors | Quiet | Route
  | Pattern "byte list" | Source string | Size int | MulticastTtl int | Timeout int | Verbose

fun render :: "setting \<Rightarrow> string list" where
  "render Flood = [''-f'']"
| "render (Preload n) = [''-l'', dec n]"
| "render (Ttl n) = [''-m'', dec n]"
| "render ExitOnReply = [''-o'']"
| "render QuietErrors = [''-Q'']"
| "render Quiet = [''-q'']"
| "render Route = [''-r'']"
| "render (Pattern bs) = [''-p'', hex_text bs]"
| "render (Source a) = [''-S'', a]"
| "render (Size n) = [''-s'', dec n]"
| "render (MulticastTtl n) = [''-T'', dec n]"
| "render (Timeout n) = [''-t'', dec n]"
| "render Verbose = [''-v'']"

fun apply_setting :: "setting \<Rightarrow> t_flags \<Rightarrow> t_flags" where
  "apply_setting Flood f = f\<lparr>flood := True\<rparr>"
| "apply_setting (Preload n) f = f\<lparr>has_preload := True, preload := n\<rparr>"
| "apply_setting (Ttl n) f = f\<lparr>has_ttl := True, ttl := n\<rparr>"
| "apply_setting ExitOnReply f = f\<lparr>exit_on_reply := True\<rparr>"
| "apply_setting QuietErrors f = f\<lparr>quiet_errors := True\<rparr>"
| "apply_setting Quiet f = f\<lparr>quiet := True\<rparr>"
| "apply_setting Route f = f\<lparr>bypass_routing := True\<rparr>"
| "apply_setting (Pattern bs) f = f\<lparr>pattern := bs @ drop (length bs) (pattern f),
     pattern_len := int (length bs), has_pattern := True\<rparr>"
| "apply_setting (Source a) f = f\<lparr>has_source_addr := True, source_addr := a\<rparr>"
| "apply_setting (Size n) f = f\<lparr>has_packet_size := True, packet_size := n\<rparr>"
| "apply_setting (MulticastTtl n) f = f\<lparr>has_multicast_ttl := True, multicast_ttl := n\<rparr>"
| "apply_setting (Timeout n) f = f\<lparr>has_timeout := True, timeout := n\<rparr>"
| "apply_setting Verbose f = f\<lparr>verbose := True\<rparr>"

fun valid_setting :: "os \<Rightarrow> setting \<Rightarrow> bool" where
  "valid_setting e Flood = (os_geteuid e = 0)"
| "valid_setting e (Preload n) = (0 \<le> n \<and> n \<le> 2147483647 \<and> os_geteuid e = 0)"
| "valid_setting e (Ttl n) = (0 \<le> n \<and> n \<le> 255)"
| "valid_setting e (Pattern bs) = (1 \<le> length bs \<and> length bs \<le> 16)"
| "valid_setting e (Source a) = (\<not> is_long a)"
| "valid_setting e (Size n) = (0 \<le> n \<and> n \<le> 65507)"
| "valid_setting e (MulticastTtl n) = (0 \<le> n \<and> n \<le> 255)"
| "valid_setting e (Timeout n) = (1 \<le> n \<and> n \<le> 2147483647)"
| "valid_setting e _ = True"

lemma test_strton_dec: "LONG_MIN \<le> n \<Longrightarrow> n \<le> LONG_MAX \<Longrightarrow> test_strton (dec n) True = (True, Long n)"
proof -
  assume "LONG_MIN \<le> n" "n \<le> LONG_MAX"
  moreover have "dec n \<noteq> []" using digits10_nonempty by (simp add: dec_def)
  ultimately show ?thesis by (simp add: test_strton_def strtol_dec)
qed

lemma opt_long_dec:
  "lo \<le> n \<Longrightarrow> n \<le> hi \<Longrightarrow> 0 \<le> lo \<Longrightarrow> hi \<le> LONG_MAX \<Longrightarrow> opt_long (dec n) c lo hi w = (Some n, w)"
  by (simp add: opt_long_def test_strton_dec LONG_MIN_def)

lemma scan_setting_flag:
  "opt_kind optstring c = Flag \<Longrightarrow> c \<noteq> CHR ''-'' \<Longrightarrow>
     scan_next optstring ([], [], [CHR ''-'', c] # rest) = Scanned c None c ([], [], rest)"
  by (simp add: scan_char_def)

lemma scan_setting_arg:
  "opt_kind optstring c = Argument \<Longrightarrow> c \<noteq> CHR ''-'' \<Longrightarrow>
     scan_next optstring ([], [], [CHR ''-'', c] # a # rest) = Scanned c (Some a) c ([], [], rest)"
  by (simp add: scan_char_def Let_def)

lemma opt_kinds:
  "opt_kind optstring (CHR ''f'') = Flag" "opt_kind optstring (CHR ''l'') = Argument"
  "opt_kind optstring (CHR ''m'') = Argument" "opt_kind optstring (CHR ''o'') = Flag"
  "opt_kind optstring (CHR ''Q'') = Flag" "opt_kind optstring (CHR ''q'') = Flag"
  "opt_kind optstring (CHR ''r'') = Flag" "opt_kind optstring (CHR ''p'') = Argument"
  "opt_kind optstring (CHR ''S'') = Argument" "opt_kind optstring (CHR ''s'') = Argument"
  "opt_kind optstring (CHR ''T'') = Argument" "opt_kind optstring (CHR ''t'') = Argument"
  "opt_kind optstring (CHR ''v'') = Flag"
  by code_simp+

lemma parse_setting:
  assumes "valid_setting (env w) x" "length (pattern f) = PING_PATTERN_MAX"
  shows "parse_scan (Suc fuel) ([], [], render x @ rest) f w
    = parse_scan fuel ([], [], rest) (apply_setting x f) w"
  using assms
  by (cases x) (simp_all add: scan_setting_flag scan_setting_arg opt_kinds handle_opt_def require_root_def
      opt_long_dec decode_hex_text PING_PATTERN_MAX_def LONG_MAX_def del: scan_next.simps)

lemma pattern_apply [simp]: "valid_setting e x \<Longrightarrow> length (pattern f) = PING_PATTERN_MAX \<Longrightarrow>
    length (pattern (apply_setting x f)) = PING_PATTERN_MAX"
  by (cases x) (simp_all add: PING_PATTERN_MAX_def)

lemma parse_settings:
  assumes "\<forall>x \<in> set xs. valid_setting (env w) x" "length (pattern f) = PING_PATTERN_MAX"
  shows "parse_scan (length xs + fuel) ([], [], concat (map render xs) @ rest) f w
    = parse_scan fuel ([], [], rest) (fold apply_setting xs f) w"
  using assms
proof (induction xs arbitrary: f)
  case (Cons x xs)
  then show ?case
    using parse_setting [of w x f "length xs + fuel" "concat (map render xs) @ rest"]
      pattern_apply [of "env w" x f]
    by (simp del: parse_scan.simps scan_next.simps pattern_apply)
qed simp

lemma dec_not_long:
  assumes "0 \<le> n"
  shows "\<not> is_long (dec n)"
proof -
  have "hd (dec n) \<noteq> CHR ''-''" "dec n \<noteq> []"
    using digits10_digits [OF assms] digits10_nonempty [of n] assms is_digit_not_special
    by (auto simp: dec_def dest: hd_in_set)
  then show ?thesis by (cases "dec n") (auto simp: is_long_def)
qed

lemma render_not_long: "valid_setting e x \<Longrightarrow> \<forall>a \<in> set (render x). \<not> is_long a"
proof -
  have h: "\<not> is_long (hex_text bs)" for bs
  proof (cases bs)
    case (Cons b bs)
    have "hex_digit (uint b div 16) \<noteq> CHR ''-''"
      using isxdigit_facts(3) digit_val_hex_digit(2) uint_byte_digits by blast
    then show ?thesis by (simp add: Cons is_long_def)
  qed (simp add: is_long_def)
  assume "valid_setting e x"
  then show ?thesis by (cases x) (auto simp: dec_not_long h, auto simp: is_long_def)
qed

lemma long_spec_none: "\<forall>a \<in> set as. \<not> is_long a \<Longrightarrow> long_spec as f w = (Parsed (as, f), w)"
proof (induction as)
  case (Cons a as)
  then have "a \<noteq> ''--''" by (auto simp: is_long_def)
  with Cons show ?case by simp
qed simp

text \<open>C9. A command line means what it says: for every list of settings with values in the
  documented ranges, rendered the way a user types them (a letter, and a decimal number, a
  hexadecimal pattern or an address as a separate argument) and followed by the host,
  the parser yields exactly the flags that applying the settings in order yields, later ones
  winning, with the rules between options applied at the end.\<close>

theorem parse_rendered:
  assumes "\<not> os_posixly_correct (env w)" "\<forall>x \<in> set xs. valid_setting (env w) x"
    and "nonoption h"
  shows "parse_info (prog # concat (map render xs) @ [h]) zero_flags w =
    Some (finalise_flags [h] 0 (fold apply_setting xs zero_flags) w)"
proof -
  let ?as = "concat (map render xs) @ [h]"
  have "\<not> is_long h" using assms(3) by (cases h rule: nonoption.cases) (auto simp: is_long_def)
  then have "\<forall>a \<in> set ?as. \<not> is_long a" using assms(2) render_not_long by fastforce
  from long_spec_none [OF this]
  have 1: "parse_info (prog # ?as) zero_flags w
      = parse_scan (parse_fuel (prog # ?as)) ([], [], ?as) zero_flags w"
    unfolding parse_info_scan [OF assms(1)] by simp
  have r: "1 \<le> length (render x)" for x by (cases x) simp_all
  have "length ys \<le> length (concat (map render ys))" for ys
  proof (induction ys)
    case (Cons y ys)
    then show ?case using r [of y] by simp
  qed simp
  also have "length zs \<le> sum_list (map (Suc \<circ> length) zs)" for zs :: "string list"
    by (induction zs) simp_all
  finally have le: "length xs \<le> sum_list (map (Suc \<circ> length) (concat (map render xs)))" .
  then have "length xs < parse_fuel (prog # ?as)" by (simp add: parse_fuel_def)
  then obtain k where k: "parse_fuel (prog # ?as) = length xs + Suc k"
    by (metis add_Suc_right less_imp_Suc_add)
  have p: "length (pattern zero_flags) = PING_PATTERN_MAX" by (simp add: zero_flags_def PING_PATTERN_MAX_def)
  have "parse_scan (Suc k) ([], [], [h]) f w = Some (finalise_flags [h] 0 f w)" for f
    using assms(3) by simp
  then show ?thesis unfolding 1 k parse_settings [OF assms(2) p] .
qed

theorem parse_rendered_witness:
  "parse_info [''ping'', ''-s'', ''100'', ''-p'', ''ff'', ''-q'', ''h''] zero_flags (boot sample_os) =
    Some (Parsed (zero_flags\<lparr>has_packet_size := True, packet_size := 100, has_pattern := True,
      pattern := 0xFF # replicate 15 0, pattern_len := 1, quiet := True, host := ''h''\<rparr>), boot sample_os)"
proof -
  let ?xs = "[Size 100, Pattern [0xFF], Quiet]"
  have px: "\<not> os_posixly_correct (env (boot sample_os))" by (simp add: sample_os_def)
  have v: "\<forall>x \<in> set ?xs. valid_setting (env (boot sample_os)) x" by simp
  have r: "concat (map render ?xs) @ [''h''] = [''-s'', ''100'', ''-p'', ''ff'', ''-q'', ''h'']" by code_simp
  have h: "nonoption ''h''" by simp
  show ?thesis
    using parse_rendered [OF px v h, of "''ping''"] unfolding r
    by (simp add: finalise_flags_def zero_flags_def Let_def numeral_eq_Suc)
qed

text \<open>A command line of one option with its argument and the host.\<close>

lemma parse_one_option:
  assumes "\<not> os_posixly_correct (env w)" "nonoption h" "\<not> is_long arg"
    and "opt_kind optstring c = Argument" "c \<noteq> CHR ''-''"
    and "handle_opt c (Some arg) c zero_flags w = Some (Parsed f, w)"
  shows "parse_info [prog, [CHR ''-'', c], arg, h] zero_flags w = Some (finalise_flags [h] 0 f w)"
proof -
  have "\<not> is_long h" using assms(2) by (cases h rule: nonoption.cases) (auto simp: is_long_def)
  then have "\<forall>a \<in> set [[CHR ''-'', c], arg, h]. \<not> is_long a" using assms(3,5) by (simp add: is_long_def)
  from long_spec_none [OF this]
  have 1: "parse_info [prog, [CHR ''-'', c], arg, h] zero_flags w
      = parse_scan (parse_fuel [prog, [CHR ''-'', c], arg, h]) ([], [], [[CHR ''-'', c], arg, h]) zero_flags w"
    unfolding parse_info_scan [OF assms(1)] by simp
  obtain k where k: "parse_fuel [prog, [CHR ''-'', c], arg, h] = Suc (Suc k)"
    by (simp add: parse_fuel_def)
  have "parse_scan (Suc k) ([], [], [h]) f w = Some (finalise_flags [h] 0 f w)"
    using assms(2) by simp
  then show ?thesis
    unfolding 1 k parse_scan.simps(2) [of "Suc k"] scan_setting_arg [OF assms(4,5)] using assms(6)
    by (simp del: parse_scan.simps)
qed

lemma i32_differs: "0 \<le> v \<Longrightarrow> i32 v = v \<longleftrightarrow> v \<le> 2147483647"
  using i32_id [of v] i32_range [of v] by auto

text \<open>C20. Two kinds of value the range checks let through, on whole command lines. A wait that
  reads as not-a-number passes the tests \<open>d_tmp <= 0\<close> and \<open>d_tmp < 0.002\<close>, so \<open>-i nan\<close> is accepted
  from every user and the interval of the run is NaN. Every timeout, and for root every
  preload, from 1 up is accepted up to \<open>LONG_MAX\<close> and then stored in an \<open>int\<close>: what is stored is the
  value modulo 2^32 in two's complement, which is another value exactly from 2^31 on.\<close>

theorem parse_accepts_nan_and_truncates:
  assumes "\<not> os_posixly_correct (env w)" "nonoption h" "1 \<le> v" "v \<le> LONG_MAX"
  shows "parse_info [prog, ''-i'', ''nan'', h] zero_flags w =
      Some (Parsed (zero_flags\<lparr>has_interval := True, interval := NaN, host := h\<rparr>), w) \<and>
    parse_info [prog, ''-t'', dec v, h] zero_flags w =
      Some (Parsed (zero_flags\<lparr>has_timeout := True, timeout := i32 v, host := h\<rparr>), w) \<and>
    (os_geteuid (env w) = 0 \<longrightarrow> parse_info [prog, ''-l'', dec v, h] zero_flags w =
      Some (Parsed (zero_flags\<lparr>has_preload := True, preload := i32 v, host := h\<rparr>), w)) \<and>
    (i32 v = v \<longleftrightarrow> v \<le> 2147483647)"
proof (intro conjI impI)
  have fin: "finalise_flags [h] 0 (zero_flags\<lparr>has_interval := True, interval := NaN\<rparr>) w =
      (Parsed (zero_flags\<lparr>has_interval := True, interval := NaN, host := h\<rparr>), w)"
    "finalise_flags [h] 0 (zero_flags\<lparr>has_timeout := True, timeout := i32 v\<rparr>) w =
      (Parsed (zero_flags\<lparr>has_timeout := True, timeout := i32 v, host := h\<rparr>), w)"
    "finalise_flags [h] 0 (zero_flags\<lparr>has_preload := True, preload := i32 v\<rparr>) w =
      (Parsed (zero_flags\<lparr>has_preload := True, preload := i32 v, host := h\<rparr>), w)"
    by (simp_all add: finalise_flags_def zero_flags_def)
  have k: "opt_kind optstring (CHR ''i'') = Argument" by code_simp
  have n: "test_strton ''nan'' False = (True, Double NaN)" by code_simp
  show "parse_info [prog, ''-i'', ''nan'', h] zero_flags w =
      Some (Parsed (zero_flags\<lparr>has_interval := True, interval := NaN, host := h\<rparr>), w)"
    unfolding fin(1) [symmetric]
    by (rule parse_one_option [OF assms(1,2) _ k]) (simp_all add: handle_opt_def n is_long_def)
  have d: "\<not> is_long (dec v)" using assms(3) dec_not_long by simp
  show "parse_info [prog, ''-t'', dec v, h] zero_flags w =
      Some (Parsed (zero_flags\<lparr>has_timeout := True, timeout := i32 v, host := h\<rparr>), w)"
    unfolding fin(2) [symmetric]
    by (rule parse_one_option [OF assms(1,2) d opt_kinds(12)])
      (use assms(3,4) in \<open>simp_all add: handle_opt_def opt_long_dec\<close>)
  show "parse_info [prog, ''-l'', dec v, h] zero_flags w =
      Some (Parsed (zero_flags\<lparr>has_preload := True, preload := i32 v, host := h\<rparr>), w)"
    if "os_geteuid (env w) = 0"
    unfolding fin(3) [symmetric]
    by (rule parse_one_option [OF assms(1,2) d opt_kinds(2)])
      (use assms(3,4) that in \<open>simp_all add: handle_opt_def opt_long_dec require_root_def\<close>)
  show "i32 v = v \<longleftrightarrow> v \<le> 2147483647" using i32_differs assms(3) by simp
qed

theorem parse_accepts_nan_and_truncates_witness:
  "parse_info [''ping'', ''-i'', ''nan'', ''h''] zero_flags (boot (sample_os\<lparr>os_geteuid := 1000\<rparr>)) =
      Some (Parsed (zero_flags\<lparr>has_interval := True, interval := NaN, host := ''h''\<rparr>),
        boot (sample_os\<lparr>os_geteuid := 1000\<rparr>)) \<and>
   parse_info [''ping'', ''-t'', dec 4294967296, ''h''] zero_flags (boot (sample_os\<lparr>os_geteuid := 1000\<rparr>)) =
      Some (Parsed (zero_flags\<lparr>has_timeout := True, timeout := 0, host := ''h''\<rparr>),
        boot (sample_os\<lparr>os_geteuid := 1000\<rparr>))"
proof -
  have "\<not> os_posixly_correct (env (boot (sample_os\<lparr>os_geteuid := 1000\<rparr>)))" by (simp add: sample_os_def)
  moreover have "i32 4294967296 = 0" by code_simp
  ultimately show ?thesis
    using parse_accepts_nan_and_truncates [of "boot (sample_os\<lparr>os_geteuid := 1000\<rparr>)" "''h''" 4294967296 "''ping''"]
    by (simp add: LONG_MAX_def)
qed

end
