(* ===== verification/Ping_Socket.thy ===== *)
theory Ping_Socket
  imports Ping_Output Samples
begin

text \<open>
  \<open>src/net/ping_resolve.c\<close> and \<open>src/net/ping_socket.c\<close>: turning host text into an address,
  creating the raw socket and applying \<open>-m\<close>, \<open>-T\<close>, \<open>-r\<close>, \<open>-S\<close> to it. The answers of
  \<open>getaddrinfo\<close>, \<open>socket\<close>, \<open>setsockopt\<close> and \<open>bind\<close> are the operating system's. A
  descriptor carries no information the program uses, so \<open>socket_open\<close> returns whether it
  has one.
\<close>

definition resolve_host :: "string \<Rightarrow> ipv4 \<Rightarrow> world \<Rightarrow> int \<times> ipv4 \<times> world" where
  "resolve_host name out w =
     (case os_getaddrinfo (env w) name of
        GaiError msg \<Rightarrow> (- 1, out, emit (Stderr (''ft_ping: '' @ name @ '': '' @ msg @ nl)) w)
      | GaiOk a \<Rightarrow> (0, a, w))"

definition setsockopt :: "sockopt \<Rightarrow> world \<Rightarrow> errno option \<times> world" where
  "setsockopt opt w = (case os_setsockopt (env w) opt of
       None \<Rightarrow> (None, emit (Setsockopt opt) w)
     | Some err \<Rightarrow> (Some err, w))"

text \<open>A guarded option: the rest runs unless the option is requested and refused.\<close>

definition apply_opt ::
  "bool \<Rightarrow> sockopt \<Rightarrow> string \<Rightarrow> (world \<Rightarrow> int \<times> world) \<Rightarrow> world \<Rightarrow> int \<times> world" where
  "apply_opt requested opt msg rest w =
     (if requested
      then (case setsockopt opt w of
              (Some err, w1) \<Rightarrow> (- 1, emit (Perror msg err) w1)
            | (None, w1) \<Rightarrow> rest w1)
      else rest w)"

definition bind_source :: "t_flags \<Rightarrow> world \<Rightarrow> int \<times> world" where
  "bind_source f w =
     (if has_source_addr f
      then (let (rc, src, w1) = resolve_host (source_addr f) (0, 0, 0, 0) w in
        if rc = - 1 then (- 1, w1)
        else (case os_bind (env w1) src of
                Some err \<Rightarrow> (- 1, emit (Perror ''bind'' err) w1)
              | None \<Rightarrow> (0, emit (Bind src) w1)))
      else (0, w))"

definition configure_socket :: "t_flags \<Rightarrow> world \<Rightarrow> int \<times> world" where
  "configure_socket f =
     apply_opt (has_ttl f) (IP_TTL (ttl f)) ''setsockopt IP_TTL''
       (apply_opt (has_multicast_ttl f) (IP_MULTICAST_TTL (multicast_ttl f)) ''setsockopt IP_MULTICAST_TTL''
         (apply_opt (bypass_routing f) (SO_DONTROUTE 1) ''setsockopt SO_DONTROUTE''
           (bind_source f)))"

definition socket_open :: "t_flags \<Rightarrow> world \<Rightarrow> bool \<times> world" where
  "socket_open f w =
     (case os_socket (env w) of
        Some err \<Rightarrow> (False, emit (Perror ''socket'' err) w)
      | None \<Rightarrow> (let (rc, w1) = configure_socket f w in
          if rc = - 1 then (False, emit Close w1) else (True, w1)))"

section \<open>Contract\<close>

text \<open>What the command line asks of the socket, in the order the options are applied.\<close>

definition wanted_opts :: "t_flags \<Rightarrow> sockopt list" where
  "wanted_opts f = (if has_ttl f then [IP_TTL (ttl f)] else [])
     @ (if has_multicast_ttl f then [IP_MULTICAST_TTL (multicast_ttl f)] else [])
     @ (if bypass_routing f then [SO_DONTROUTE 1] else [])"

definition wanted_bind :: "os \<Rightarrow> t_flags \<Rightarrow> event list" where
  "wanted_bind e f = (if has_source_addr f
     then (case os_getaddrinfo e (source_addr f) of GaiOk a \<Rightarrow> [Bind a] | GaiError _ \<Rightarrow> []) else [])"

fun is_message :: "event \<Rightarrow> bool" where
  "is_message (Perror _ _) = True"
| "is_message (Stderr _) = True"
| "is_message _ = False"

lemma apply_opt_cases:
  "apply_opt b opt msg rest w =
     (if \<not> b then rest w
      else case os_setsockopt (env w) opt of
             None \<Rightarrow> rest (emit (Setsockopt opt) w)
           | Some err \<Rightarrow> (- 1, emit (Perror msg err) w))"
  by (simp add: apply_opt_def setsockopt_def split: option.splits)

text \<open>Each stage either hands over with its option applied, or fails having printed one message.\<close>

definition outcome :: "event list \<Rightarrow> int \<Rightarrow> event list \<Rightarrow> bool" where
  "outcome evs rc out \<longleftrightarrow> rc = 0 \<and> out = evs \<or>
     rc = - 1 \<and> (\<exists>k msg. is_message msg \<and> k \<le> length evs \<and> out = take k evs @ [msg])"

definition staged :: "event list \<Rightarrow> (world \<Rightarrow> int \<times> world) \<Rightarrow> world \<Rightarrow> bool" where
  "staged evs step w \<longleftrightarrow> (\<exists>rc w' out. step w = (rc, w') \<and> same_kernel w w' \<and>
     events w' = events w @ out \<and> outcome evs rc out)"

lemma outcome_refused: "is_message msg \<Longrightarrow> outcome evs (- 1) [msg]"
  by (auto simp: outcome_def intro!: exI [of _ 0])

lemma outcome_Cons: "outcome evs rc out \<Longrightarrow> outcome (x # evs) rc (x # out)"
  unfolding outcome_def by (metis append_Cons length_Cons not_less_eq_eq take_Suc_Cons)

lemma staged_apply_opt:
  assumes "\<And>v. env v = env w \<Longrightarrow> staged evs rest v"
  shows "staged ((if b then [Setsockopt opt] else []) @ evs) (apply_opt b opt msg rest) w"
proof (cases "b \<and> os_setsockopt (env w) opt = None")
  case True
  have "staged evs rest (emit (Setsockopt opt) w)" by (rule assms) simp
  then obtain rc w' out where "rest (emit (Setsockopt opt) w) = (rc, w')" "same_kernel w w'"
    "events w' = events w @ Setsockopt opt # out" "outcome evs rc out"
    by (auto simp: staged_def)
  with True show ?thesis
    by (auto simp: staged_def apply_opt_cases intro!: outcome_Cons)
next
  case False
  then show ?thesis using assms [of w]
    by (auto simp: staged_def apply_opt_cases intro!: outcome_refused)
qed

lemma staged_bind_source: "staged (wanted_bind (env w) f) (bind_source f) w"
  by (auto simp: staged_def bind_source_def wanted_bind_def resolve_host_def Let_def outcome_def
      split: gai_result.splits option.splits intro: exI [of _ 0])

lemma staged_configure_socket:
  "staged (map Setsockopt (wanted_opts f) @ wanted_bind (env w) f) (configure_socket f) w"
proof -
  have l: "map Setsockopt (wanted_opts f) @ evs =
      (if has_ttl f then [Setsockopt (IP_TTL (ttl f))] else []) @
      (if has_multicast_ttl f then [Setsockopt (IP_MULTICAST_TTL (multicast_ttl f))] else []) @
      (if bypass_routing f then [Setsockopt (SO_DONTROUTE 1)] else []) @ evs" for evs
    by (simp add: wanted_opts_def)
  have b: "env v = env w \<Longrightarrow> staged (wanted_bind (env w) f) (bind_source f) v" for v
    using staged_bind_source [of v f] by simp
  show ?thesis
    unfolding configure_socket_def l by (intro staged_apply_opt) (simp add: b)
qed

text \<open>C17. Socket set-up is all or nothing: on success the socket carries exactly the options the
  command line asks for, applied in the fixed order \<open>-m\<close>, \<open>-T\<close>, \<open>-r\<close>, \<open>-S\<close>, and nothing was
  printed; on failure exactly one message was printed, no option after the refused one was
  touched, and a descriptor that was opened is closed again.\<close>

theorem socket_open_spec:
  "let evs = map Setsockopt (wanted_opts f) @ wanted_bind (env w) f;
       (ok, w') = socket_open f w
   in same_kernel w w' \<and>
      (if ok then os_socket (env w) = None \<and> events w' = events w @ evs
       else if os_socket (env w) \<noteq> None
       then events w' = events w @ [Perror ''socket'' (the (os_socket (env w)))]
       else \<exists>k msg. k \<le> length evs \<and> is_message msg
              \<and> events w' = events w @ take k evs @ [msg, Close])"
proof (cases "os_socket (env w)")
  case None
  obtain rc w' out where c: "configure_socket f w = (rc, w')" "same_kernel w w'"
    "events w' = events w @ out"
    "outcome (map Setsockopt (wanted_opts f) @ wanted_bind (env w) f) rc out"
    using staged_configure_socket [of f w] unfolding staged_def by blast
  from c(4) consider "rc = 0" "out = map Setsockopt (wanted_opts f) @ wanted_bind (env w) f"
    | k msg where "rc = - 1" "is_message msg"
      "k \<le> length (map Setsockopt (wanted_opts f) @ wanted_bind (env w) f)"
      "out = take k (map Setsockopt (wanted_opts f) @ wanted_bind (env w) f) @ [msg]"
    unfolding outcome_def by blast
  then show ?thesis
  proof cases
    case 1
    then show ?thesis using c None by (simp add: socket_open_def Let_def)
  next
    case (2 k msg)
    then show ?thesis using c(1-3) None
      by (auto simp: socket_open_def Let_def intro!: exI [of _ k] exI [of _ msg])
  qed
next
  case (Some err)
  then show ?thesis by (simp add: socket_open_def Let_def)
qed

text \<open>What success says about a source address: it resolved, and it is the one bound.\<close>

lemma socket_open_bound:
  assumes "socket_open f w = (True, w')" "has_source_addr f"
  shows "\<exists>a. os_getaddrinfo (env w) (source_addr f) = GaiOk a"
proof (rule ccontr)
  assume "\<not> ?thesis"
  then obtain m where g: "os_getaddrinfo (env w) (source_addr f) = GaiError m"
    by (cases "os_getaddrinfo (env w) (source_addr f)") auto
  have "fst (configure_socket f w) = - 1"
    using assms(2) g
    by (auto simp: configure_socket_def apply_opt_cases bind_source_def resolve_host_def Let_def
        split: option.splits)
  with assms(1) show False
    by (auto simp: socket_open_def Let_def split: option.splits prod.splits)
qed

text \<open>When set-up is refused: an option the kernel does not grant, or a source address that does
  not resolve or cannot be bound.\<close>

definition socket_refused :: "os \<Rightarrow> t_flags \<Rightarrow> bool" where
  "socket_refused e f \<longleftrightarrow> list_ex (\<lambda>opt. os_setsockopt e opt \<noteq> None) (wanted_opts f) \<or>
     has_source_addr f \<and> (case os_getaddrinfo e (source_addr f) of
        GaiError _ \<Rightarrow> True | GaiOk a \<Rightarrow> os_bind e a \<noteq> None)"

lemma configure_socket_status:
  "fst (configure_socket f w) = (if socket_refused (env w) f then - 1 else 0)"
  by (simp add: configure_socket_def apply_opt_cases socket_refused_def wanted_opts_def
      bind_source_def resolve_host_def Let_def split: option.splits gai_result.splits)

lemma socket_open_success:
  assumes "os_socket (env w) = None" "\<not> socket_refused (env w) f"
  shows "\<exists>w'. socket_open f w = (True, w') \<and> same_kernel w w' \<and>
    events w' = events w @ map Setsockopt (wanted_opts f) @ wanted_bind (env w) f"
  using staged_configure_socket [of f w] configure_socket_status [of f w] assms
  by (auto simp: staged_def outcome_def socket_open_def)

lemma socket_open_failure:
  assumes "os_socket (env w) = None" "socket_refused (env w) f"
  shows "\<exists>w' k msg. socket_open f w = (False, w') \<and> same_kernel w w' \<and>
    k \<le> length (map Setsockopt (wanted_opts f) @ wanted_bind (env w) f) \<and> is_message msg \<and>
    events w' = events w @ take k (map Setsockopt (wanted_opts f) @ wanted_bind (env w) f) @ [msg, Close]"
proof -
  obtain w1 k msg where c: "configure_socket f w = (- 1, w1)" "same_kernel w w1" "is_message msg"
    "k \<le> length (map Setsockopt (wanted_opts f) @ wanted_bind (env w) f)"
    "events w1 = events w @ take k (map Setsockopt (wanted_opts f) @ wanted_bind (env w) f) @ [msg]"
    using staged_configure_socket [of f w] configure_socket_status [of f w] assms(2)
    unfolding staged_def outcome_def by auto
  then show ?thesis using assms(1)
    by (intro exI [of _ "emit Close w1"] exI [of _ k] exI [of _ msg]) (simp add: socket_open_def)
qed

end
