(* ===== verification/Ping_Context.thy ===== *)
theory Ping_Context
  imports Ping_Cli_Spec Ping_Socket
begin

text \<open>
  \<open>src/core/ping_context.c\<close>: from \<open>argv\<close> to the context of the run. \<open>malloc\<close> and \<open>calloc\<close> are the
  environment's: \<open>os_malloc\<close> yields a block of arbitrary contents or nothing (the two requests
  of the program always differ in size, so one function of the size serves both). The theorem
  is the promise in the code's comment: the context comes back complete, and then satisfies
  everything the send and receive paths assume, or nothing stays allocated.
\<close>

definition ctx_size_buffers :: "t_ping_ctx \<Rightarrow> t_ping_ctx" where
  "ctx_size_buffers ctx =
     (let n = (if has_packet_size (flags ctx)
               then nat (packet_size (flags ctx) mod 18446744073709551616)
               else PING_PAYLOAD_SIZE);
          r = (n + PING_RECVBUF_SLACK) mod 18446744073709551616
      in ctx\<lparr>payload_len := n, recvbuf_len := (if r < PING_RECVBUF_MIN then PING_RECVBUF_MIN else r)\<rparr>)"

definition ctx_alloc_buffers :: "t_ping_ctx \<Rightarrow> world \<Rightarrow> int \<times> t_ping_ctx \<times> world" where
  "ctx_alloc_buffers ctx w =
     (let ctx1 = ctx\<lparr>pkt := os_malloc (env w) (sizeof_icmp_hdr + payload_len ctx),
                     send_ts := (if os_calloc (env w) then Some (\<lambda>_. zero_ts) else None),
                     recvbuf := os_malloc (env w) (recvbuf_len ctx)\<rparr>
      in if pkt ctx1 = None \<or> send_ts ctx1 = None \<or> recvbuf ctx1 = None
         then (- 1, ctx1, emit (Perror ''malloc'' (EOTHER ''ENOMEM'')) w)
         else (0, ctx1, w))"

definition ctx_destroy :: "t_ping_ctx \<Rightarrow> t_ping_ctx" where
  "ctx_destroy ctx = ctx\<lparr>pkt := None, send_ts := None, recvbuf := None\<rparr>"

text \<open>
  \<open>Inl status\<close> is an \<open>exit\<close> inside the parser, \<open>Inr\<close> the return value. After a rejected command
  line the flags of the returned context are not specified further (nothing reads them).
\<close>

definition ctx_init :: "string list \<Rightarrow> world \<Rightarrow> ((int + int \<times> t_ping_ctx) \<times> world) option" where
  "ctx_init av w = do {
     let ctx = zero_ctx;
     (p, w1) \<leftarrow> parse_info av (flags ctx) w;
     Some (case p of
         Exit status \<Rightarrow> (Inl status, w1)
       | Rejected \<Rightarrow> (Inr (- 1, ctx), w1)
       | Parsed f \<Rightarrow>
           (let ctx1 = ctx\<lparr>flags := f, ctx_id := htons (host_endian w1) (word_of_int (os_getpid (env w1)))\<rparr>;
                (rc, addr, w2) = resolve_host (host f) (dst ctx1) w1
            in if rc = - 1 then (Inr (- 1, ctx1), w2)
               else (let ctx2 = ctx_size_buffers (ctx1\<lparr>dst := addr, ipstr := dotted_quad addr\<rparr>);
                         (rc2, ctx3, w3) = ctx_alloc_buffers ctx2 w2
                     in if rc2 = - 1 then (Inr (- 1, ctx_destroy ctx3), w3)
                        else (Inr (0, ctx3), w3))))
   }"

section \<open>Complete or nothing\<close>

definition malloc_ok :: "os \<Rightarrow> bool" where
  "malloc_ok e \<longleftrightarrow> (\<forall>n b. os_malloc e n = Some b \<longrightarrow> length b = n)"

definition allocated :: "t_ping_ctx \<Rightarrow> bool" where
  "allocated ctx \<longleftrightarrow> pkt ctx \<noteq> None \<or> send_ts ctx \<noteq> None \<or> recvbuf ctx \<noteq> None"

text \<open>What a complete context has beyond well-formedness.\<close>

definition ctx_complete :: "os \<Rightarrow> string list \<Rightarrow> t_ping_ctx \<Rightarrow> bool" where
  "ctx_complete e args ctx \<longleftrightarrow> wf_ctx ctx \<and> flags_ok e args (flags ctx) \<and>
     os_getaddrinfo e (host (flags ctx)) = GaiOk (dst ctx) \<and> ipstr ctx = dotted_quad (dst ctx) \<and>
     ctx_id ctx = htons (os_endian e) (word_of_int (os_getpid e)) \<and>
     payload_len ctx = (if has_packet_size (flags ctx) then nat (packet_size (flags ctx)) else 56) \<and>
     60 + 8 + payload_len ctx \<le> recvbuf_len ctx \<and> 1024 \<le> recvbuf_len ctx \<and>
     send_ts ctx = Some (\<lambda>_. zero_ts)"

lemma ctx_sizes:
  assumes "ranges_ok e (flags ctx)"
  shows "payload_len (ctx_size_buffers ctx)
      = (if has_packet_size (flags ctx) then nat (packet_size (flags ctx)) else 56)"
    and "payload_len (ctx_size_buffers ctx) \<le> 65507"
    and "recvbuf_len (ctx_size_buffers ctx) = max 1024 (payload_len (ctx_size_buffers ctx) + 128)"
proof -
  define n where "n = (if has_packet_size (flags ctx) then nat (packet_size (flags ctx)) else 56)"
  have b: "has_packet_size (flags ctx) \<longrightarrow> 0 \<le> packet_size (flags ctx) \<and> packet_size (flags ctx) \<le> 65507"
    using assms by (simp add: ranges_ok_def)
  have n: "(if has_packet_size (flags ctx) then nat (packet_size (flags ctx) mod 18446744073709551616)
      else PING_PAYLOAD_SIZE) = n"
    using b by (cases "has_packet_size (flags ctx)") (simp_all add: n_def PING_PAYLOAD_SIZE_def)
  have n2: "n \<le> 65507"
    using b by (cases "has_packet_size (flags ctx)") (simp_all add: n_def nat_le_iff)
  have "ctx_size_buffers ctx = ctx\<lparr>payload_len := n, recvbuf_len := max 1024 (n + 128)\<rparr>"
    unfolding ctx_size_buffers_def Let_def n using n2
    by (simp add: PING_RECVBUF_SLACK_def PING_RECVBUF_MIN_def max_def)
  then show "payload_len (ctx_size_buffers ctx)
      = (if has_packet_size (flags ctx) then nat (packet_size (flags ctx)) else 56)"
    "payload_len (ctx_size_buffers ctx) \<le> 65507"
    "recvbuf_len (ctx_size_buffers ctx) = max 1024 (payload_len (ctx_size_buffers ctx) + 128)"
    using n2 by (simp_all add: n_def)
qed

lemma ctx_size_frame [simp]:
  "flags (ctx_size_buffers ctx) = flags ctx" "dst (ctx_size_buffers ctx) = dst ctx"
  "ipstr (ctx_size_buffers ctx) = ipstr ctx" "ctx_id (ctx_size_buffers ctx) = ctx_id ctx"
  by (simp_all add: ctx_size_buffers_def Let_def)

text \<open>What set-up may do besides computing: print.\<close>

fun is_print :: "event \<Rightarrow> bool" where
  "is_print (Stdout _) = True"
| "is_print (Stderr _) = True"
| "is_print (Perror _ _) = True"
| "is_print _ = False"

lemma only_stderr_print: "only_stderr out \<Longrightarrow> list_all is_print out"
  by (auto simp: only_stderr_def list_all_iff)

lemma ctx_init_ends:
  assumes "malloc_ok (env w)" "\<not> os_posixly_correct (env w)"
  shows "\<exists>r w' out. ctx_init (prog # args) w = Some (r, w') \<and> same_kernel w w' \<and>
    events w' = events w @ out \<and>
    (case r of Inl n \<Rightarrow> n = 0 \<and> out = map Stdout usage_text
     | Inr (rc, ctx) \<Rightarrow>
         if rc = 0 then ctx_complete (env w) args ctx \<and> out = []
         else rc = - 1 \<and> \<not> allocated ctx \<and> out \<noteq> [] \<and> list_all is_print out)"
proof -
  obtain p w1 out where p: "parse_info (prog # args) zero_flags w = Some (p, w1)" "same_kernel w w1"
    "events w1 = events w @ out" "parse_result_ok (flags_ok (env w) args) p out"
    using parse_info_ends [OF assms(2)] unfolding parse_ends_def by blast
  have z: "flags zero_ctx = zero_flags" "\<not> allocated zero_ctx" by (simp_all add: zero_ctx_def allocated_def)
  have e1: "env w1 = env w" using p(2) same_kernelD by blast
  show ?thesis
  proof (cases p)
    case (Parsed f)
    then have f: "flags_ok (env w) args f" "out = []" using p(4) by simp_all
    define ctx1 where "ctx1 = zero_ctx\<lparr>flags := f, ctx_id := htons (host_endian w1) (word_of_int (os_getpid (env w1)))\<rparr>"
    have na: "\<not> allocated ctx1" using z by (simp add: ctx1_def allocated_def)
    show ?thesis
    proof (cases "os_getaddrinfo (env w) (host f)")
      case (GaiError m)
      then show ?thesis
        using p Parsed f na [unfolded ctx1_def e1]
        by (simp add: ctx_init_def z resolve_host_def e1 Let_def)
    next
      case (GaiOk a)
      define ctx2 where "ctx2 = ctx_size_buffers (ctx1\<lparr>dst := a, ipstr := dotted_quad a\<rparr>)"
      obtain rc2 ctx3 w3 where al: "ctx_alloc_buffers ctx2 w1 = (rc2, ctx3, w3)" by (cases "ctx_alloc_buffers ctx2 w1")
      have run: "ctx_init (prog # args) w = Some
          (if rc2 = - 1 then (Inr (- 1, ctx_destroy ctx3), w3) else (Inr (0, ctx3), w3))"
        using p Parsed by (simp add: ctx_init_def z resolve_host_def e1 GaiOk Let_def
            al [unfolded ctx2_def ctx1_def e1])
      have r: "ranges_ok (env w) (flags (ctx1\<lparr>dst := a, ipstr := dotted_quad a\<rparr>))"
        using f by (simp add: ctx1_def flags_ok_def)
      note sz = ctx_sizes [OF r, folded ctx2_def]
      have fl: "flags ctx2 = f" "dst ctx2 = a" "ipstr ctx2 = dotted_quad a"
        "ctx_id ctx2 = htons (host_endian w) (word_of_int (os_getpid (env w)))"
        by (simp_all add: ctx2_def ctx1_def e1)
      show ?thesis
      proof (cases "rc2 = - 1")
        case True
        then have "w3 = emit (Perror ''malloc'' (EOTHER ''ENOMEM'')) w1"
          using al by (auto simp: ctx_alloc_buffers_def Let_def split: if_splits)
        then show ?thesis
          unfolding run using True p(2,3) f(2) by (simp add: allocated_def ctx_destroy_def)
      next
        case False
        then obtain b1 b2 where b: "os_malloc (env w) (8 + payload_len ctx2) = Some b1"
          "os_malloc (env w) (recvbuf_len ctx2) = Some b2"
          "ctx3 = ctx2\<lparr>pkt := Some b1, send_ts := Some (\<lambda>_. zero_ts), recvbuf := Some b2\<rparr>" "w3 = w1" "rc2 = 0"
          using al by (auto simp: ctx_alloc_buffers_def Let_def e1 sizeof_icmp_hdr_def split: if_splits)
        have len: "length b1 = 8 + payload_len ctx2" "length b2 = recvbuf_len ctx2"
          using b(1,2) assms(1) by (auto simp: malloc_ok_def)
        have "wf_ctx ctx3"
          using len sz(2) f(1) fl(1) unfolding b(3)
          by (simp add: wf_ctx_def flags_ok_def ranges_ok_def sizeof_icmp_hdr_def)
        then have "ctx_complete (env w) args ctx3"
          using f(1) GaiOk fl sz unfolding b(3) by (simp add: ctx_complete_def ctx1_def max_def)
        then show ?thesis unfolding run using False p(2,3) f(2) b(4) by simp
      qed
    qed
  qed (use p z only_stderr_print in \<open>auto simp: ctx_init_def\<close>)
qed

text \<open>C10. A context is complete or nothing: for every command line, with \<open>POSIXLY_CORRECT\<close> unset and
  allocated blocks of the size asked for, \<open>ctx_init\<close> either returns 0, silently, with a context the whole run can rely on (the buffers have the sizes the length
  fields say, the ring is zeroed, the receive buffer holds a reply with the longest IP header,
  the address is the host's), or returns -1 having printed why, with no buffer left
  allocated, or has exited with status 0 after the usage.\<close>

theorem ctx_init_complete_or_nothing:
  assumes "malloc_ok (env w)" "\<not> os_posixly_correct (env w)"
  shows "\<exists>r w' out. ctx_init (prog # args) w = Some (r, w') \<and> same_kernel w w' \<and>
    events w' = events w @ out \<and>
    (case r of Inl n \<Rightarrow> n = 0 \<and> out = map Stdout usage_text
     | Inr (rc, ctx) \<Rightarrow>
         if rc = 0 then ctx_complete (env w) args ctx \<and> out = []
         else rc = - 1 \<and> \<not> allocated ctx \<and> out \<noteq> [] \<and> list_all is_print out)"
  by (rule ctx_init_ends [OF assms])

theorem ctx_init_complete_or_nothing_witness:
  "\<exists>ctx w'. ctx_init [''ping'', ''h''] (boot sample_os) = Some (Inr (0, ctx), w') \<and>
     ctx_complete sample_os [''h''] ctx"
proof -
  let ?w = "boot sample_os"
  have m: "malloc_ok (env ?w)" "\<not> os_posixly_correct (env ?w)"
    by (simp_all add: malloc_ok_def sample_os_def)
  have l: "long_spec [''h''] zero_flags ?w = (Parsed ([''h''], zero_flags), ?w)"
    by (simp add: is_long_def)
  have "parse_info [''ping'', ''h''] zero_flags ?w = Some (Parsed (zero_flags\<lparr>host := ''h''\<rparr>), ?w)"
    unfolding parse_info_scan [OF m(2)] l
    by (simp add: parse_fuel_def finalise_flags_def zero_flags_def Let_def)
  then have run: "\<exists>c. ctx_init [''ping'', ''h''] ?w = Some (Inr (0, c), ?w)"
    by (simp add: ctx_init_def zero_ctx_def resolve_host_def ctx_alloc_buffers_def sample_os_def Let_def)
  from ctx_init_complete_or_nothing [OF m, of "''ping''" "[''h'']"] show ?thesis
    using run by (elim exE conjE) auto
qed

end
