(* ===== verification/Ping_Main.thy ===== *)
theory Ping_Main
  imports Ping_Termination Ping_Context
begin

text \<open>
  \<open>src/main.c\<close>: the order of the run. \<open>main\<close> chains the modules as the code does and yields
  the exit status with the final state of the process; \<open>None\<close> is undefined behaviour or an
  exhausted bound (\<open>rf\<close> passes of a drain, \<open>n\<close> passes of the loop). The theorems say which
  exit status each way through \<open>main\<close> has, what it leaves on the wire, and that it returns.
\<close>

definition main :: "nat \<Rightarrow> nat \<Rightarrow> string list \<Rightarrow> world \<Rightarrow> (int \<times> world) option" where
  "main rf n av w = do {
     (r, w1) \<leftarrow> ctx_init av w;
     (case r of
        Inl status \<Rightarrow> Some (status, w1)
      | Inr (rc, ctx) \<Rightarrow>
          if rc = - 1 then Some (1, w1)
          else (let w2 = print_ping_banner ctx w1;
                    (opened, w3) = socket_open (flags ctx) w2
            in if \<not> opened then Some (1, w3)
               else (let (rc2, w4) = signal_install w3
                 in if rc2 = - 1 then Some (1, emit Close w4)
                    else do {
                      (ctx5, sched5, st, w5) \<leftarrow> ping_run rf n ctx w4;
                      let w6 = emit Close (print_stats (host (flags ctx5)) st w5);
                      Some (if n_recv st = 0 then 1 else 0, w6)
                    })))
   }"

section \<open>Set-up puts nothing on the wire\<close>

text \<open>The banner, and what a socket that is configured completely has had done to it.\<close>

definition banner :: "os \<Rightarrow> t_ping_ctx \<Rightarrow> event list" where
  "banner e ctx = events (print_ping_banner ctx (boot e))"

definition set_up :: "os \<Rightarrow> t_flags \<Rightarrow> event list" where
  "set_up e f = map Setsockopt (wanted_opts f) @ wanted_bind e f"

lemma banner_frame:
  "same_kernel v (print_ping_banner ctx w) = same_kernel v w"
  "env w = e \<Longrightarrow> events (print_ping_banner ctx w) = events w @ banner e ctx"
  "filter is_send (banner e ctx) = []"
  by (simp_all add: print_ping_banner_def banner_def Let_def)

lemma set_up_not_sends: "filter is_send (set_up e f) = []"
proof -
  have "\<forall>x \<in> set (wanted_bind e f). \<not> is_send x"
    unfolding wanted_bind_def
    by (cases "has_source_addr f"; cases "os_getaddrinfo e (source_addr f)")
      (simp_all only: if_True if_False gai_result.case list.set ball_simps is_send.simps, simp_all)
  then show ?thesis by (auto simp: set_up_def filter_empty_conv)
qed

lemma print_stats_frame:
  "same_kernel v (print_stats h st w) = same_kernel v w" "sends (print_stats h st w) = sends w"
  by (simp_all add: print_stats_def print_counts_def Let_def)

section \<open>Every way through \<open>main\<close>\<close>

text \<open>After a successful \<open>ctx_init\<close> the socket and the signal handler decide how far \<open>main\<close>
  gets; the run proper starts in a state in which nothing but set-up has happened.\<close>

lemma main_stages:
  assumes "ctx_init av (boot e) = Some (Inr (0, ctx), w1)" "same_kernel (boot e) w1" "events w1 = []"
  shows "if os_socket e \<noteq> None then
       (\<exists>w'. main rf n av (boot e) = Some (1, w') \<and>
         events w' = banner e ctx @ [Perror ''socket'' (the (os_socket e))])
     else if socket_refused e (flags ctx) then
       (\<exists>w' k msg. main rf n av (boot e) = Some (1, w') \<and> is_message msg \<and>
         events w' = banner e ctx @ take k (set_up e (flags ctx)) @ [msg, Close])
     else if os_sigaction e \<noteq> None then
       (\<exists>w'. main rf n av (boot e) = Some (1, w') \<and> events w' = banner e ctx @
         set_up e (flags ctx) @ [Perror ''sigaction'' (the (os_sigaction e)), Close])
     else
       (\<exists>w2. same_kernel (boot e) w2 \<and> events w2 = banner e ctx @ set_up e (flags ctx) \<and>
         main rf n av (boot e) = do {
           (ctx', sched, st, w3) \<leftarrow> ping_run rf n ctx w2;
           Some (if n_recv st = 0 then 1 else 0, emit Close (print_stats (host (flags ctx')) st w3))
         })"
proof -
  define w2 where "w2 = print_ping_banner ctx w1"
  have e1: "env w1 = e" using assms(2) by (auto dest: same_kernelD)
  have w2: "same_kernel (boot e) w2" "events w2 = banner e ctx" "env w2 = e"
    using assms(2,3) banner_frame(1) [of "boot e" ctx w1] banner_frame(2) [OF e1] e1
    by (auto simp: w2_def dest: same_kernelD)
  show ?thesis
  proof (cases "os_socket e")
    case (Some err)
    then have "socket_open (flags ctx) w2 = (False, emit (Perror ''socket'' err) w2)"
      using w2(3) by (simp add: socket_open_def)
    then show ?thesis using Some assms(1) w2 by (simp add: main_def w2_def Let_def)
  next
    case None
    then have n2: "os_socket (env w2) = None" using w2(3) by simp
    show ?thesis
    proof (cases "socket_refused e (flags ctx)")
      case True
      then obtain w3 k msg where o: "socket_open (flags ctx) w2 = (False, w3)" "is_message msg"
        "events w3 = events w2 @ take k (set_up e (flags ctx)) @ [msg, Close]"
        using socket_open_failure [OF n2, of "flags ctx"] w2(3) unfolding set_up_def by blast
      have "main rf n av (boot e) = Some (1, w3)"
        using assms(1) o(1) by (simp add: main_def w2_def Let_def)
      then show ?thesis using None True o w2(2) by simp blast
    next
      case False
      then obtain w3 where o: "socket_open (flags ctx) w2 = (True, w3)" "same_kernel w2 w3"
        "events w3 = events w2 @ set_up e (flags ctx)"
        using socket_open_success [OF n2, of "flags ctx"] w2(3) unfolding set_up_def by blast
      have k3: "same_kernel (boot e) w3" "env w3 = e"
        using same_kernel_trans [OF w2(1) o(2)] by (auto dest: same_kernelD)
      show ?thesis using assms(1) None False o(1,3) w2(2) k3
        by (cases "os_sigaction e") (auto simp: main_def signal_install_def w2_def [symmetric] Let_def)
    qed
  qed
qed

lemma ctx_init_boot:
  assumes "malloc_ok e" "\<not> os_posixly_correct e"
  obtains (usage) w1 where "ctx_init (prog # args) (boot e) = Some (Inl 0, w1)"
      "events w1 = map Stdout usage_text"
    | (failed) ctx w1 where "ctx_init (prog # args) (boot e) = Some (Inr (- 1, ctx), w1)"
      "\<not> allocated ctx" "events w1 \<noteq> []" "list_all is_print (events w1)"
    | (ready) ctx w1 where "ctx_init (prog # args) (boot e) = Some (Inr (0, ctx), w1)"
      "same_kernel (boot e) w1" "events w1 = []" "ctx_complete e args ctx"
proof -
  have m: "malloc_ok (env (boot e))" "\<not> os_posixly_correct (env (boot e))" using assms by simp_all
  obtain r w1 out where c: "ctx_init (prog # args) (boot e) = Some (r, w1)" "same_kernel (boot e) w1"
    "events w1 = out"
    "case r of Inl n \<Rightarrow> n = 0 \<and> out = map Stdout usage_text
     | Inr (rc, ctx) \<Rightarrow> if rc = 0 then ctx_complete e args ctx \<and> out = []
         else rc = - 1 \<and> \<not> allocated ctx \<and> out \<noteq> [] \<and> list_all is_print out"
    using ctx_init_ends [OF m, of prog args] unfolding boot_simps append_Nil by blast
  show thesis
  proof (cases r)
    case (Inl k)
    then show thesis using c usage by simp
  next
    case (Inr x)
    obtain rc ctx where "x = (rc, ctx)" by (cases x)
    then show thesis using c Inr failed [of ctx w1] ready [of ctx w1] by (cases "rc = 0") simp_all
  qed
qed

text \<open>C1. The exit status and the effects of a whole execution, each tied to its cause, for every
  command line and every operating system whose blocks have the size asked for and where
  \<open>POSIXLY_CORRECT\<close> is unset. A request for help prints the usage, nothing else, and exits with
  0. When \<open>ctx_init\<close> fails, its message is all that happens, no buffer stays allocated, the
  status is 1. Otherwise the context is complete and the banner comes first; then a refused
  socket ends the run with status 1 and its message, a refused option or address with its
  message and the descriptor closed, a refused signal handler the same after the whole set-up;
  none of them sends a packet. Only when all were granted does the loop run: the wire then
  carries exactly the numbered echo requests the kernel accepted, the last thing printed is the
  summary of the loop's counters, the descriptor is closed, and the status is 1 exactly when no
  reply was counted.\<close>

theorem main_outcome:
  assumes "malloc_ok e" "\<not> os_posixly_correct e"
    and "main rf n (prog # args) (boot e) = Some (status, w')"
  shows "\<exists>r w1. ctx_init (prog # args) (boot e) = Some (r, w1) \<and> (case r of
     Inl k \<Rightarrow> status = 0 \<and> w' = w1 \<and> events w' = map Stdout usage_text
   | Inr (rc, ctx) \<Rightarrow>
      if rc \<noteq> 0 then status = 1 \<and> w' = w1 \<and> \<not> allocated ctx \<and>
        events w' \<noteq> [] \<and> list_all is_print (events w')
      else ctx_complete e args ctx \<and> events w1 = [] \<and>
       (if os_socket e \<noteq> None then
          status = 1 \<and> events w' = banner e ctx @ [Perror ''socket'' (the (os_socket e))]
        else if socket_refused e (flags ctx) then
          status = 1 \<and> (\<exists>k msg. is_message msg \<and>
            events w' = banner e ctx @ take k (set_up e (flags ctx)) @ [msg, Close])
        else if os_sigaction e \<noteq> None then
          status = 1 \<and> events w' = banner e ctx @ set_up e (flags ctx) @
            [Perror ''sigaction'' (the (os_sigaction e)), Close]
        else
          (\<exists>w2 ctx' sched st w3 ts. same_kernel (boot e) w2 \<and>
             events w2 = banner e ctx @ set_up e (flags ctx) \<and>
             ping_run rf n ctx w2 = Some (ctx', sched, st, w3) \<and>
             sends w' = wire e ctx ts (k_send w3) \<and> n_sent st = i32 (int (length (sends w'))) \<and>
             w' = emit Close (print_stats (host (flags ctx)) st w3) \<and>
             status = (if n_recv st = 0 then 1 else 0))))"
  using assms(1,2)
proof (cases rule: ctx_init_boot [of e prog args])
  case (ready ctx w1)
  note stages = main_stages [OF ready(1-3), of rf n]
  show ?thesis
  proof (cases "os_socket e \<noteq> None \<or> socket_refused e (flags ctx) \<or> os_sigaction e \<noteq> None")
    case True
    then show ?thesis using stages ready assms(3) by (auto split: if_splits)
  next
    case False
    then obtain w2 where w2: "same_kernel (boot e) w2" "events w2 = banner e ctx @ set_up e (flags ctx)"
      "main rf n (prog # args) (boot e) = do {
         (ctx', sched, st, w3) \<leftarrow> ping_run rf n ctx w2;
         Some (if n_recv st = 0 then 1 else 0, emit Close (print_stats (host (flags ctx')) st w3))
       }" using stages by auto
    obtain ctx' sched st w3 where p: "ping_run rf n ctx w2 = Some (ctx', sched, st, w3)"
      "status = (if n_recv st = 0 then 1 else 0)" "w' = emit Close (print_stats (host (flags ctx')) st w3)"
      using w2(3) assms(3) by (auto split: Option.bind_splits)
    have i: "wf_ctx ctx" "send_ts ctx = Some (\<lambda>_. zero_ts)" "k_send w2 = 0" "sends w2 = []" "env w2 = e"
      using ready(4) w2(1,2) banner_frame(3) set_up_not_sends
      by (auto simp: ctx_complete_def dest: same_kernelD)
    obtain ts where ts: "sends w3 = wire e ctx ts (k_send w3)" "n_sent st = i32 (int (length (sends w3)))"
      using session_sends [OF i(1-4) p(1)] i(5) by auto
    have fl: "flags ctx' = flags ctx" using session_config [OF i(1-4) p(1)] by (simp add: same_config_def)
    have "sends w' = sends w3" by (simp add: p(3) print_stats_frame)
    then have "\<exists>w2 ctx' sched st w3 ts. same_kernel (boot e) w2 \<and>
       events w2 = banner e ctx @ set_up e (flags ctx) \<and>
       ping_run rf n ctx w2 = Some (ctx', sched, st, w3) \<and>
       sends w' = wire e ctx ts (k_send w3) \<and> n_sent st = i32 (int (length (sends w'))) \<and>
       w' = emit Close (print_stats (host (flags ctx)) st w3) \<and>
       status = (if n_recv st = 0 then 1 else 0)"
      using w2(1,2) p ts fl by metis
    then show ?thesis using False ready by simp
  qed
qed (use assms(3) in \<open>auto simp: main_def\<close>)

lemma main_ends:
  assumes "malloc_ok e" "\<not> os_posixly_correct e" "clock_valid e" "drains e m" "m < rf"
    and "os_sigint e K" "Suc K < n"
  shows "\<exists>status w'. main rf n (prog # args) (boot e) = Some (status, w') \<and> (status = 0 \<or> status = 1)"
  using assms(1,2)
proof (cases rule: ctx_init_boot [of e prog args])
  case (ready ctx w1)
  show ?thesis
  proof (cases "os_socket e \<noteq> None \<or> socket_refused e (flags ctx) \<or> os_sigaction e \<noteq> None")
    case True
    then show ?thesis using main_stages [OF ready(1-3), of rf n] by (auto split: if_splits)
  next
    case False
    then obtain w2 where w2: "same_kernel (boot e) w2" "events w2 = banner e ctx @ set_up e (flags ctx)"
      "main rf n (prog # args) (boot e) = do {
         (ctx', sched, st, w3) \<leftarrow> ping_run rf n ctx w2;
         Some (if n_recv st = 0 then 1 else 0, emit Close (print_stats (host (flags ctx')) st w3))
       }" using main_stages [OF ready(1-3), of rf n] by auto
    have i: "wf_ctx ctx" "send_ts ctx = Some (\<lambda>_. zero_ts)" "k_send w2 = 0" "sends w2 = []"
      "env w2 = e" "k_sigint w2 = 0"
      using ready(4) w2(1,2) banner_frame(3) set_up_not_sends
      by (auto simp: ctx_complete_def dest: same_kernelD)
    have "ping_run rf n ctx w2 \<noteq> None"
      by (rule ping_run_ends [OF i(1-4), of m rf K]) (use assms i in auto)
    then show ?thesis using w2(3) by (auto split: Option.bind_splits)
  qed
qed (auto simp: main_def)

lemma session_environment:
  "malloc_ok session_os" "\<not> os_posixly_correct session_os" "clock_valid session_os"
  "drains session_os 0" "os_sigint session_os 2"
  by (simp_all add: session_os_def malloc_ok_def clock_valid_def valid_ts_def drains_def
      sample_os_def min_def)

lemma session_main:
  "\<exists>status w'. main 1 4 [''ping'', ''h''] (boot session_os) = Some (status, w')"
  using main_ends [OF session_environment(1-4) _ session_environment(5), of 1 4 "''ping''" "[''h'']"]
  by (auto simp del: split_paired_Ex)

lemma session_granted:
  "os_socket session_os = None" "os_sigaction session_os = None" "\<not> socket_refused session_os f"
  by (simp_all add: session_os_def sample_os_def socket_refused_def list_ex_iff split: gai_result.split)

lemma session_init: "\<exists>ctx. ctx_init [''ping'', ''h''] (boot session_os) = Some (Inr (0, ctx), boot session_os)"
proof -
  let ?w = "boot session_os"
  have l: "long_spec [''h''] zero_flags ?w = (Parsed ([''h''], zero_flags), ?w)" by (simp add: is_long_def)
  have "parse_info [''ping'', ''h''] zero_flags ?w = Some (Parsed (zero_flags\<lparr>host := ''h''\<rparr>), ?w)"
    using session_environment(2) parse_info_scan [of ?w "''ping''" "[''h'']" zero_flags] unfolding l
    by (simp add: parse_fuel_def finalise_flags_def zero_flags_def Let_def)
  then show ?thesis
    by (simp add: ctx_init_def zero_ctx_def resolve_host_def ctx_alloc_buffers_def session_os_def
        sample_os_def Let_def)
qed

theorem main_outcome_witness:
  "\<exists>status w' ctx ts st w3. main 1 4 [''ping'', ''h''] (boot session_os) = Some (status, w') \<and>
     ctx_complete session_os [''h''] ctx \<and> sends w' = wire session_os ctx ts (k_send w3) \<and>
     w' = emit Close (print_stats (host (flags ctx)) st w3) \<and>
     status = (if n_recv st = 0 then 1 else 0)"
proof -
  obtain status w' where m: "main 1 4 [''ping'', ''h''] (boot session_os) = Some (status, w')"
    using session_main by blast
  obtain ctx where c: "ctx_init [''ping'', ''h''] (boot session_os) = Some (Inr (0, ctx), boot session_os)"
    using session_init by blast
  have "\<exists>ts st w3. sends w' = wire session_os ctx ts (k_send w3) \<and>
      w' = emit Close (print_stats (host (flags ctx)) st w3) \<and> status = (if n_recv st = 0 then 1 else 0)"
    and "ctx_complete session_os [''h''] ctx"
    using main_outcome [OF session_environment(1,2) m] session_granted by (simp_all add: c split del: if_split) blast
  then show ?thesis using m by blast
qed

text \<open>C6. The program terminates: for every command line, if memory and kernel behave as documented,
  \<open>POSIXLY_CORRECT\<close> is unset, the clock is valid, no drain meets more than \<open>m\<close> datagrams in a row
  and SIGINT is delivered at some test \<open>K\<close> of the stop flag, then \<open>main\<close> returns, with no undefined
  behaviour on the way.\<close>

theorem main_returns:
  assumes "malloc_ok e" "\<not> os_posixly_correct e" "clock_valid e" "drains e m" "m < rf"
    and "os_sigint e K" "Suc K < n"
  shows "\<exists>status w'. main rf n (prog # args) (boot e) = Some (status, w') \<and> (status = 0 \<or> status = 1)"
  by (rule main_ends [OF assms])

theorem main_returns_witness:
  "\<exists>status w'. main 1 4 [''ping'', ''h''] (boot session_os) = Some (status, w') \<and>
     (status = 0 \<or> status = 1)"
  by (rule main_returns [OF session_environment(1-4) _ session_environment(5)]) simp_all

end
