(* ===== verification/Ping_Counters.thy ===== *)
theory Ping_Counters
  imports Ping_Termination
begin

text \<open>
  The counters of a session. \<open>n_sent\<close> and \<open>n_recv\<close> are C \<open>int\<close>s whose increments the model writes with
  wrap-around, while in C an overflow is undefined. The theory shows where the difference cannot
  be seen: as long as fewer than 2^31 calls of \<open>sendto\<close> and of \<open>recvfrom\<close> were made, every step of a session leaves
  each counter alone or adds exactly one, so that no increment has overflowed.
\<close>

definition world_of :: "net \<Rightarrow> world" where
  "world_of s = (case s of (ctx, sched, st, w) \<Rightarrow> w)"

definition stats_of :: "net \<Rightarrow> t_ping_stats" where
  "stats_of s = (case s of (ctx, sched, st, w) \<Rightarrow> st)"

lemma net_parts [simp]: "world_of (ctx, sched, st, w) = w" "stats_of (ctx, sched, st, w) = st"
  by (simp_all add: world_of_def stats_of_def)

text \<open>The counters are bounded by the calls made; a step makes at most one call of each kind.\<close>

definition counted :: "net \<Rightarrow> bool" where
  "counted s \<longleftrightarrow> wf_ctx (fst s) \<and>
     0 \<le> n_sent (stats_of s) \<and> n_sent (stats_of s) \<le> int (k_send (world_of s)) \<and>
     0 \<le> n_recv (stats_of s) \<and> n_recv (stats_of s) \<le> int (k_recv (world_of s))"

definition one_more :: "(t_ping_stats \<Rightarrow> int) \<Rightarrow> (world \<Rightarrow> nat) \<Rightarrow> net \<Rightarrow> net \<Rightarrow> bool" where
  "one_more n k s s' \<longleftrightarrow>
     n (stats_of s') = n (stats_of s) \<and> k (world_of s) \<le> k (world_of s') \<or>
     n (stats_of s') = i32 (n (stats_of s) + 1) \<and> k (world_of s') = k (world_of s) + 1"

lemma one_more_same: "n (stats_of s') = n (stats_of s) \<Longrightarrow> k (world_of s) \<le> k (world_of s') \<Longrightarrow> one_more n k s s'"
  by (simp add: one_more_def)

lemma one_more_grows: "one_more n k s s' \<Longrightarrow> k (world_of s) \<le> k (world_of s')"
  by (auto simp: one_more_def)

lemma one_more_exact:
  assumes "one_more n k s s'" "0 \<le> n (stats_of s)" "n (stats_of s) \<le> int (k (world_of s))"
    and "k (world_of s') \<le> 2147483647"
  shows "n (stats_of s') - n (stats_of s) \<in> {0, 1} \<and> 0 \<le> n (stats_of s') \<and> n (stats_of s') \<le> int (k (world_of s'))"
  using assms by (auto simp: one_more_def)

lemma packet_counts:
  assumes "receive_step ctx st w = Some (r, ctx', st', w')" "wf_ctx ctx"
  shows "wf_ctx ctx' \<and> one_more n_sent k_send (ctx, sched, st, w) (ctx', sched, st', w') \<and>
    one_more n_recv k_recv (ctx, sched, st, w) (ctx', sched, st', w')"
proof -
  obtain ring buf where rb: "send_ts ctx = Some ring" "recvbuf ctx = Some buf"
    using wf_ctx_ring [OF assms(2)] wf_ctx_buffer [OF assms(2)] by blast
  show ?thesis
  proof (cases "os_recv (env w) (k_recv w)")
    case (RecvError err)
    then show ?thesis
      using assms by (auto simp: receive_step_error classify_recv_error_def one_more_def Let_def split: if_splits)
  next
    case (RecvData d)
    define dg where "dg = take (recvbuf_len ctx) d"
    obtain st1 w1 where re: "react ctx ring dg st (w\<lparr>k_recv := k_recv w + 1\<rparr>) = (st1, w1)" by fastforce
    have o: "ctx' = ctx\<lparr>recvbuf := Some (dg @ drop (length dg) buf)\<rparr>" "st' = st1" "w' = w1"
      using assms(1) unfolding receive_step_eq [OF assms(2) rb RecvData] Let_def dg_def [symmetric] re by simp_all
    have "wf_ctx ctx'" unfolding o dg_def by (rule wf_ctx_recvbuf [OF assms(2) rb(2)])
    moreover have "n_recv st1 = n_recv st \<or> n_recv st1 = i32 (n_recv st + 1)"
      using re by (auto simp: react_def add_rtt_def Let_def split: verdict.splits)
    ultimately show ?thesis using react_frame [OF re] by (auto simp: one_more_def o)
  qed
qed

lemma probe_counts:
  assumes "send_next s = Some (rc, s')" "wf_ctx (fst s)"
  shows "wf_ctx (fst s') \<and> one_more n_sent k_send s s' \<and> one_more n_recv k_recv s s'"
proof -
  obtain ctx sched st w where s: "s = (ctx, sched, st, w)" by (cases s)
  have wf: "wf_ctx ctx" using assms(2) by (simp add: s)
  obtain ring where ring: "send_ts ctx = Some ring" using wf_ctx_ring [OF wf] by blast
  note eq = send_one_eq [OF wf ring, of w "seq sched" st, unfolded Let_def]
  show ?thesis
    using assms(1) wf_ctx_after_send [OF wf]
    by (auto simp: s send_next_def eq Let_def one_more_def after_send_def split: if_splits)
qed

lemma step_counts:
  "net_step s s' \<Longrightarrow> wf_ctx (fst s) \<Longrightarrow>
     wf_ctx (fst s') \<and> one_more n_sent k_send s s' \<and> one_more n_recv k_recv s s'"
proof (induction rule: net_step.induct)
  case (probe s rc s')
  then show ?case by (rule probe_counts)
next
  case (packet ctx st w r ctx' st' w' sched)
  then show ?case using packet_counts [OF packet(1)] by simp
next
  case (mark s)
  then show ?case by (cases s) (simp add: set_last_send_def now_ms_def clock_gettime_def one_more_def Let_def)
next
  case (test s b s')
  then show ?case by (cases s) (auto simp: test_stop_def split_def one_more_def Let_def)
next
  case (request s)
  then show ?case by (cases s) (simp add: on_world_def one_more_def)
qed (auto simp: one_more_def now_ms_def clock_gettime_def poll_def Let_def)

lemma steps_grow:
  assumes "net_steps s s'" "wf_ctx (fst s)"
  shows "wf_ctx (fst s') \<and> k_send (world_of s) \<le> k_send (world_of s') \<and> k_recv (world_of s) \<le> k_recv (world_of s')"
  using assms
proof (induction rule: rtranclp_induct)
  case (step t u)
  then show ?case using step_counts [OF step(2)] one_more_grows by (meson order_trans)
qed simp

lemma step_counted:
  assumes "net_step s s'" "counted s" "k_send (world_of s') \<le> 2147483647" "k_recv (world_of s') \<le> 2147483647"
  shows "counted s' \<and> n_sent (stats_of s') - n_sent (stats_of s) \<in> {0, 1} \<and>
    n_recv (stats_of s') - n_recv (stats_of s) \<in> {0, 1}"
proof -
  have "wf_ctx (fst s)" using assms(2) by (simp add: counted_def)
  then have "wf_ctx (fst s')" "one_more n_sent k_send s s'" "one_more n_recv k_recv s s'"
    using step_counts [OF assms(1)] by blast+
  then show ?thesis
    using assms(2-4) one_more_exact [of n_sent k_send s s'] one_more_exact [of n_recv k_recv s s'] by (simp add: counted_def)
qed

lemma steps_counted:
  assumes "net_steps s s'" "counted s" "k_send (world_of s') \<le> 2147483647" "k_recv (world_of s') \<le> 2147483647"
  shows "counted s'"
  using assms
proof (induction rule: rtranclp_induct)
  case (step t u)
  have "wf_ctx (fst t)" using steps_grow [OF step(1)] step(4) by (simp add: counted_def)
  then have "k_send (world_of t) \<le> k_send (world_of u)" "k_recv (world_of t) \<le> k_recv (world_of u)"
    using step_counts [OF step(2)] one_more_grows by blast+
  then show ?case using step_counted [OF step(2)] step by simp
qed simp

text \<open>C34. The counters of a session do not overflow and are exact. Take any run from a fresh context in
  which at most 2^31 - 1 calls of \<open>sendto\<close> and as many of \<open>recvfrom\<close> were made. Then every atomic step
  the run consists of leaves \<open>n_sent\<close> and \<open>n_recv\<close> as they are or adds one to them, in the
  integers, without wrap-around; at the end \<open>n_sent\<close> is the number of packets on the wire, and
  \<open>n_recv\<close> is at most the number of calls that could have delivered a datagram.\<close>

theorem counters_exact:
  assumes "wf_ctx ctx" "send_ts ctx = Some (\<lambda>_. zero_ts)" "k_send w = 0" "sends w = []"
    and "ping_run rf n ctx w = Some (ctx', sched', st', w')"
    and "k_send w' \<le> 2147483647" "k_recv w' \<le> 2147483647"
  shows "\<exists>start. net_steps start (ctx', sched', st', w') \<and> fst start = ctx \<and> stats_of start = zero_stats \<and>
    (\<forall>s1 s2. net_steps start s1 \<and> net_step s1 s2 \<and> net_steps s2 (ctx', sched', st', w') \<longrightarrow>
       n_sent (stats_of s2) - n_sent (stats_of s1) \<in> {0, 1} \<and>
       n_recv (stats_of s2) - n_recv (stats_of s1) \<in> {0, 1}) \<and>
    n_sent st' = int (length (sends w')) \<and> 0 \<le> n_recv st' \<and> n_recv st' \<le> int (k_recv w')"
proof -
  let ?fin = "(ctx', sched', st', w')"
  obtain sched where run: "net_steps (ctx, sched, zero_stats, snd (sched_init (flags ctx) w)) ?fin"
    using ping_run_steps [OF assms(5)] by blast
  define start where "start = (ctx, sched, zero_stats, snd (sched_init (flags ctx) w))"
  have c: "counted start" using assms(1) by (simp add: counted_def start_def zero_stats_def)
  have wf: "wf_ctx (fst start)" using assms(1) by (simp add: start_def)
  have "n_sent (stats_of s2) - n_sent (stats_of s1) \<in> {0, 1} \<and> n_recv (stats_of s2) - n_recv (stats_of s1) \<in> {0, 1}"
    if "net_steps start s1" "net_step s1 s2" "net_steps s2 ?fin" for s1 s2
  proof -
    have wf1: "wf_ctx (fst s1)" using steps_grow [OF that(1) wf] by blast
    have wf2: "wf_ctx (fst s2)" using step_counts [OF that(2) wf1] by blast
    have k2: "k_send (world_of s2) \<le> 2147483647" "k_recv (world_of s2) \<le> 2147483647"
      using steps_grow [OF that(3) wf2] assms(6,7) by simp_all
    then have k1: "k_send (world_of s1) \<le> 2147483647" "k_recv (world_of s1) \<le> 2147483647"
      using steps_grow [OF one_step [OF that(2)] wf1] by simp_all
    show ?thesis using step_counted [OF that(2) steps_counted [OF that(1) c k1] k2] by blast
  qed
  moreover have e: "counted ?fin"
    using steps_counted [OF run [folded start_def] c] assms(6,7) by simp
  moreover have "n_sent st' = int (length (sends w'))"
  proof -
    obtain ts where ts: "sends w' = wire (env w) ctx ts (k_send w')" "n_sent st' = i32 (int (length (sends w')))"
      using session_sends [OF assms(1-5)] by blast
    have "length (sends w') \<le> length [0..<k_send w']" unfolding ts(1) wire_def length_map by (rule length_filter_le)
    then show ?thesis using ts(2) assms(6) by simp
  qed
  ultimately show ?thesis using run [folded start_def]
    by (intro exI [of _ start]) (auto simp: counted_def start_def)
qed

text \<open>A session that SIGINT ends after the first probe.\<close>

lemma session_one_probe:
  "case ping_run 1 2 sample_ctx (boot (sample_os\<lparr>os_sigint := \<lambda>k. k = 1\<rparr>)) of
     Some (ctx, sched, st, w) \<Rightarrow> k_send w = 1 \<and> k_recv w = 0 | None \<Rightarrow> False"
proof -
  let ?w = "boot (sample_os\<lparr>os_sigint := \<lambda>k. k = 1\<rparr>)"
  have f: "flags sample_ctx = zero_flags" by (simp add: sample_ctx_def zero_ctx_def)
  obtain sched w1 where i: "sched_init (flags sample_ctx) ?w = (sched, w1)" by fastforce
  have w1: "w1 = ?w" using i by (simp add: sched_init_def f zero_flags_def Let_def)
  have p: "send_preload (sample_ctx, sched, zero_stats, w1) = Some (sample_ctx, sched, zero_stats, w1)"
    by (simp add: send_preload_def f zero_flags_def send_preload_from.simps)
  note one = send_one_eq [OF session_facts(1,2), unfolded Let_def]
  show ?thesis
    unfolding ping_run_def i prod.case Let_def p Option.bind.simps
    by (simp add: first_probe_def test_stop_def ping_should_stop_def on_sigint_def w1 send_next_def one after_send_def
        set_last_send_def now_ms_def clock_gettime_def sample_os_def numeral_2_eq_2 Let_def f zero_flags_def split_def)
qed

theorem counters_exact_witness:
  "\<exists>ctx' sched' st' w'. ping_run 1 2 sample_ctx (boot (sample_os\<lparr>os_sigint := \<lambda>k. k = 1\<rparr>)) =
     Some (ctx', sched', st', w') \<and> n_sent st' = int (length (sends w')) \<and> n_recv st' = 0"
proof -
  let ?w = "boot (sample_os\<lparr>os_sigint := \<lambda>k. k = 1\<rparr>)"
  obtain ctx' sched' st' w' where r: "ping_run 1 2 sample_ctx ?w = Some (ctx', sched', st', w')"
    "k_send w' = 1" "k_recv w' = 0"
    using session_one_probe by (auto split: option.splits prod.splits)
  have "k_send ?w = 0" "sends ?w = []" by simp_all
  from counters_exact [OF session_facts(1,2) this r(1)] have "n_sent st' = int (length (sends w'))" "n_recv st' = 0"
    using r(2,3) by auto
  then show ?thesis using r(1) by blast
qed

end
