(* ===== verification/Inet_Ntop.thy ===== *)
theory Inet_Ntop
  imports Text
begin

text \<open>
  \<open>inetutils-2.0/lib/inet_ntop.c\<close>: the text of an address. The code is that of the C library, which
  the IPv6 ping calls. An address is a list of bytes; a read outside it and the failure with
  \<open>ENOSPC\<close> are \<open>None\<close>. The theorem says that every address fits the temporary buffer of the code and
  the buffers its callers provide.
\<close>

section \<open>Formatting\<close>

text \<open>\<open>%x\<close> of a 32-bit value; the width of \<open>%04x\<close> or \<open>%3u\<close>.\<close>

definition lower_hex :: "nat \<Rightarrow> string" where
  "lower_hex n = (case dropWhile (\<lambda>d. d = 0) (map (\<lambda>k. n div 16 ^ k mod 16) [7, 6, 5, 4, 3, 2, 1, 0]) of
       [] \<Rightarrow> ''0''
     | ds \<Rightarrow> map (\<lambda>d. hex_digit (int d)) ds)"

definition pad_left :: "nat \<Rightarrow> char \<Rightarrow> string \<Rightarrow> string" where
  "pad_left n c s = replicate (n - length s) c @ s"

section \<open>The addresses\<close>

definition INET6_ADDRSTRLEN :: nat where "INET6_ADDRSTRLEN = 46"
definition NS_IN6ADDRSZ :: nat where "NS_IN6ADDRSZ = 16"

definition inet_ntop4 :: "byte list \<Rightarrow> nat \<Rightarrow> string option" where
  "inet_ntop4 src cnt = do {
     a \<leftarrow> peek src 0; b \<leftarrow> peek src 1; c \<leftarrow> peek src 2; d \<leftarrow> peek src 3;
     let tmp = dec (uint a) @ ''.'' @ dec (uint b) @ ''.'' @ dec (uint c) @ ''.'' @ dec (uint d);
     (if cnt < length tmp then None else Some tmp)
   }"

text \<open>The 16-bit words, and the longest run of zero words: its base and its length.\<close>

definition words_of :: "byte list \<Rightarrow> nat list" where
  "words_of src = map (\<lambda>i. unat (src ! (2 * i)) * 256 + unat (src ! (2 * i + 1))) [0..<8]"

type_synonym run = "nat \<times> nat"

definition better_run :: "run option \<Rightarrow> run option \<Rightarrow> run option" where
  "better_run best cur = (case (best, cur) of
       (_, None) \<Rightarrow> best
     | (None, Some c) \<Rightarrow> Some c
     | (Some b, Some c) \<Rightarrow> if snd b < snd c then Some c else Some b)"

fun scan_runs :: "nat \<Rightarrow> nat list \<Rightarrow> run option \<Rightarrow> run option \<Rightarrow> run option" where
  "scan_runs i [] best cur = better_run best cur"
| "scan_runs i (w # ws) best cur =
     (if w = 0
      then scan_runs (i + 1) ws best (case cur of None \<Rightarrow> Some (i, 1) | Some (b, l) \<Rightarrow> Some (b, l + 1))
      else scan_runs (i + 1) ws (better_run best cur) None)"

definition best_run :: "nat list \<Rightarrow> run option" where
  "best_run ws = (case scan_runs 0 ws None None of
       Some (b, l) \<Rightarrow> if l < 2 then None else Some (b, l)
     | None \<Rightarrow> None)"

definition encapsulated :: "nat list \<Rightarrow> run option \<Rightarrow> bool" where
  "encapsulated ws best = (case best of
       Some (b, l) \<Rightarrow> b = 0 \<and> (l = 6 \<or> l = 5 \<and> ws ! 5 = 0xffff)
     | None \<Rightarrow> False)"

definition in_run :: "run option \<Rightarrow> nat \<Rightarrow> bool" where
  "in_run best i = (case best of Some (b, l) \<Rightarrow> b \<le> i \<and> i < b + l | None \<Rightarrow> False)"

definition starts_run :: "run option \<Rightarrow> nat \<Rightarrow> bool" where
  "starts_run best i = (case best of Some (b, l) \<Rightarrow> i = b | None \<Rightarrow> False)"

text \<open>The loop that formats the words from the i-th on; \<open>used\<close> is \<open>tp - tmp\<close>.\<close>

fun format_words :: "byte list \<Rightarrow> bool \<Rightarrow> run option \<Rightarrow> nat \<Rightarrow> nat \<Rightarrow> nat list \<Rightarrow> string option" where
  "format_words src v4 best i used [] = Some []"
| "format_words src v4 best i used (w # ws) =
     (if in_run best i
      then do {
        let sep = (if starts_run best i then '':'' else []);
        rest \<leftarrow> format_words src v4 best (i + 1) (used + length sep) ws;
        Some (sep @ rest)
      }
      else do {
        let sep = (if i \<noteq> 0 then '':'' else []);
        (if i = 6 \<and> v4
         then do { quad \<leftarrow> inet_ntop4 (drop 12 src) (INET6_ADDRSTRLEN - (used + length sep)); Some (sep @ quad) }
         else do {
           let h = lower_hex w;
           rest \<leftarrow> format_words src v4 best (i + 1) (used + length sep + length h) ws;
           Some (sep @ h @ rest)
         })
      })"

definition trailing_run :: "run option \<Rightarrow> bool" where
  "trailing_run best = (case best of Some (b, l) \<Rightarrow> b + l = 8 | None \<Rightarrow> False)"

definition inet_ntop6 :: "byte list \<Rightarrow> nat \<Rightarrow> string option" where
  "inet_ntop6 src cnt =
     (if length src < NS_IN6ADDRSZ then None
      else (let ws = words_of src; best = best_run ws in do {
        text \<leftarrow> format_words src (encapsulated ws best) best 0 0 ws;
        let tmp = text @ (if trailing_run best then '':'' else []);
        (if cnt < length tmp + 1 then None else Some tmp)
      }))"

datatype address_family = AF_INET | AF_INET6 | AF_OTHER

definition inet_ntop :: "address_family \<Rightarrow> byte list \<Rightarrow> nat \<Rightarrow> string option" where
  "inet_ntop af src cnt = (case af of
       AF_INET \<Rightarrow> inet_ntop4 src cnt
     | AF_INET6 \<Rightarrow> inet_ntop6 src cnt
     | AF_OTHER \<Rightarrow> None)"

section \<open>Every address fits\<close>

lemma length_lower_hex:
  assumes "n < 65536"
  shows "length (lower_hex n) \<le> 4"
proof -
  have z: "n div 16 ^ k mod 16 = 0" if "k \<in> {7, 6, 5, 4}" for k
    using that assms by auto
  define ds where "ds = dropWhile (\<lambda>d. d = 0) (map (\<lambda>k. n div 16 ^ k mod 16) [3, 2, 1, 0])"
  have "map (\<lambda>k. n div 16 ^ k mod 16) [7, 6, 5, 4, 3, 2, 1, 0] = [0, 0, 0, 0] @ map (\<lambda>k. n div 16 ^ k mod 16) [3, 2, 1, 0]"
    using z by (simp del: power_numeral)
  then have "dropWhile (\<lambda>d. d = 0) (map (\<lambda>k. n div 16 ^ k mod 16) [7, 6, 5, 4, 3, 2, 1, 0]) = ds"
    by (simp only: ds_def, simp)
  then have "lower_hex n = (case ds of [] \<Rightarrow> ''0'' | a # l \<Rightarrow> map (\<lambda>d. hex_digit (int d)) (a # l))"
    unfolding lower_hex_def by (cases ds) simp_all
  moreover have "length ds \<le> length (map (\<lambda>k. n div 16 ^ k mod 16) [3, 2, 1, 0 :: nat])"
    unfolding ds_def by (rule length_dropWhile_le)
  ultimately show ?thesis by (cases ds) simp_all
qed

lemma length_digits10:
  "n < 10 \<Longrightarrow> length (digits10 n) = 1" "n < 100 \<Longrightarrow> length (digits10 n) \<le> 2" "n < 1000 \<Longrightarrow> length (digits10 n) \<le> 3"
proof -
  have step: "length (digits10 n) = (if n < 10 then 1 else length (digits10 (n div 10)) + 1)" for n
    by (subst digits10.simps) simp
  show one: "n < 10 \<Longrightarrow> length (digits10 n) = 1" for n by (simp add: step [of n])
  show two: "n < 100 \<Longrightarrow> length (digits10 n) \<le> 2" for n using one [of "n div 10"] by (simp add: step [of n])
  show "n < 1000 \<Longrightarrow> length (digits10 n) \<le> 3" using two [of "n div 10"] by (simp add: step [of n])
qed

lemma length_dec_byte: "length (dec (uint (b :: byte))) \<le> 3"
  using unsigned_less [where ?'a = int, of b] length_digits10(3) [of "uint b"] by (simp add: dec_def)

lemma inet_ntop4_fits:
  assumes "4 \<le> length src" "15 \<le> cnt"
  shows "\<exists>t. inet_ntop4 src cnt = Some t \<and> length t \<le> 15"
proof -
  define t where "t = dec (uint (src ! 0)) @ ''.'' @ dec (uint (src ! 1)) @ ''.'' @ dec (uint (src ! 2)) @ ''.'' @ dec (uint (src ! 3))"
  have l: "length t \<le> 15"
    using length_dec_byte [of "src ! 0"] length_dec_byte [of "src ! 1"] length_dec_byte [of "src ! 2"]
      length_dec_byte [of "src ! 3"] by (simp add: t_def)
  have "0 < length src" "1 < length src" "2 < length src" "3 < length src" using assms(1) by linarith+
  note r = this [THEN peek_ok]
  have "inet_ntop4 src cnt = (if cnt < length t then None else Some t)"
    unfolding inet_ntop4_def r Option.bind.simps Let_def t_def ..
  then show ?thesis using l assms(2) by simp
qed

lemma words_of_list:
  "\<exists>a b c d e f g h. words_of src = [a, b, c, d, e, f, g, h] \<and> (\<forall>w \<in> {a, b, c, d, e, f, g, h}. w < 65536)"
proof -
  have "unat (x :: byte) * 256 + unat (y :: byte) < 65536" for x y
    using unat_byte_lt [of x] unat_byte_lt [of y] by simp
  then show ?thesis by (simp add: words_of_def upt_rec)
qed

lemma format_words_plain:
  assumes "\<forall>w \<in> set ws. w < 65536"
  shows "\<exists>t. format_words src False best i used ws = Some t \<and> length t \<le> 5 * length ws"
  using assms
proof (induction ws arbitrary: i used)
  case (Cons w ws)
  then have w: "length (lower_hex w) \<le> 4" by (simp add: length_lower_hex)
  have IH: "\<exists>t. format_words src False best (Suc i) used ws = Some t \<and> length t \<le> 5 * length ws" for used
    using Cons by simp
  show ?case
  proof (cases "in_run best i")
    case True
    then show ?thesis using IH [of "used + length (if starts_run best i then '':'' else [])"] by auto
  next
    case False
    let ?sep = "if i \<noteq> 0 then '':'' else []"
    obtain t where "format_words src False best (Suc i) (used + length ?sep + length (lower_hex w)) ws = Some t"
      "length t \<le> 5 * length ws" using IH by blast
    then show ?thesis using False w by auto
  qed
qed simp

lemma format_words_quad:
  assumes "16 \<le> length src" "f < 65536" "l = 6 \<or> l = 5"
  shows "\<exists>t. format_words src True (Some (0, l)) 0 0 [a, b, c, d, e, f, g, h] = Some t \<and> length t \<le> 22"
  using assms(3)
proof
  assume "l = 6"
  moreover obtain t where "inet_ntop4 (drop 12 src) 44 = Some t" "length t \<le> 15"
    using inet_ntop4_fits [of "drop 12 src" 44] assms(1) by fastforce
  ultimately show ?thesis by (simp add: in_run_def starts_run_def INET6_ADDRSTRLEN_def)
next
  assume l: "l = 5"
  have f: "length (lower_hex f) \<le> 4" by (rule length_lower_hex [OF assms(2)])
  obtain t where "inet_ntop4 (drop 12 src) (43 - length (lower_hex f)) = Some t" "length t \<le> 15"
  proof -
    have "4 \<le> length (drop 12 src)" using assms(1) by simp
    moreover have "15 \<le> 43 - length (lower_hex f)" using f by linarith
    ultimately show thesis using inet_ntop4_fits that by blast
  qed
  then show ?thesis using l f by (simp add: in_run_def starts_run_def INET6_ADDRSTRLEN_def)
qed

lemma inet_ntop6_text:
  assumes "length src = 16"
  shows "\<exists>t. inet_ntop AF_INET6 src INET6_ADDRSTRLEN = Some t \<and> length t + 1 \<le> INET6_ADDRSTRLEN"
proof -
  obtain a b c d e f g h where ws: "words_of src = [a, b, c, d, e, f, g, h]"
    "\<forall>w \<in> {a, b, c, d, e, f, g, h}. w < 65536" using words_of_list by metis
  define best where "best = best_run (words_of src)"
  obtain t where t: "format_words src (encapsulated (words_of src) best) best 0 0 (words_of src) = Some t" "length t \<le> 40"
  proof (cases "encapsulated (words_of src) best")
    case True
    then obtain l where l: "best = Some (0, l)" "l = 6 \<or> l = 5" by (auto simp: encapsulated_def split: option.splits)
    have "16 \<le> length src" "f < 65536" using assms ws(2) by simp_all
    from format_words_quad [OF this l(2), of a b c d e g h] obtain t where
      "format_words src True (Some (0, l)) 0 0 [a, b, c, d, e, f, g, h] = Some t" "length t \<le> 22" by blast
    moreover have e: "encapsulated (words_of src) best = True" using True by (rule eqTrueI)
    ultimately have "format_words src (encapsulated (words_of src) best) best 0 0 (words_of src) = Some t" "length t \<le> 40"
      by (unfold e, unfold l(1) ws(1)) linarith+
    then show ?thesis by (rule that)
  next
    case False
    have "\<forall>w \<in> set (words_of src). w < 65536" using ws by simp
    from format_words_plain [OF this, of src best 0 0] obtain t where
      "format_words src False best 0 0 (words_of src) = Some t" "length t \<le> 5 * length (words_of src)" by blast
    moreover have e: "encapsulated (words_of src) best = False" using False by blast
    moreover have "length (words_of src) = 8" by (simp only: ws(1) list.size)
    ultimately have "format_words src (encapsulated (words_of src) best) best 0 0 (words_of src) = Some t" "length t \<le> 40"
      by (unfold e) linarith+
    then show ?thesis by (rule that)
  qed
  let ?text = "t @ (if trailing_run best then '':'' else [])"
  have "inet_ntop AF_INET6 src INET6_ADDRSTRLEN = (if 46 < length ?text + 1 then None else Some ?text)"
    using assms t(1) by (simp add: inet_ntop_def inet_ntop6_def NS_IN6ADDRSZ_def INET6_ADDRSTRLEN_def Let_def
        del: length_append flip: best_def)
  then show ?thesis using t(2) by (simp add: INET6_ADDRSTRLEN_def)
qed

text \<open>C35. \<open>inet_ntop\<close> turns every IPv6 address into text without leaving its temporary buffer of 46
  characters and without ever failing for the buffers of \<open>INET6_ADDRSTRLEN\<close> characters its callers
  pass, whatever the run of zeros and also in the form that ends with an IPv4 address.\<close>

theorem inet_ntop6_fits:
  assumes "length src = 16"
  shows "\<exists>t. inet_ntop AF_INET6 src INET6_ADDRSTRLEN = Some t \<and> length t + 1 \<le> INET6_ADDRSTRLEN"
  by (rule inet_ntop6_text [OF assms])

section \<open>Examples of RFC 5952\<close>

definition addr6 :: "nat list \<Rightarrow> byte list" where
  "addr6 ws = concat (map (\<lambda>w. [of_nat (w div 256), of_nat (w mod 256)]) ws)"

lemmas ntop_eval = inet_ntop_def inet_ntop6_def NS_IN6ADDRSZ_def best_run_def better_run_def in_run_def starts_run_def
  encapsulated_def trailing_run_def words_of_def upt_rec lower_hex_def hex_digit_def char_of_def inet_ntop4_def
  INET6_ADDRSTRLEN_def dec_def digits10.simps digit_char_def buf_simps addr6_def

theorem inet_ntop6_fits_witness:
  "\<exists>t. inet_ntop AF_INET6 (addr6 [0x2001, 0xdb8, 0, 0, 0, 0, 0, 1]) INET6_ADDRSTRLEN = Some t \<and> length t + 1 \<le> INET6_ADDRSTRLEN"
  by (rule inet_ntop6_fits) (simp add: addr6_def)

lemma rfc5952_examples:
  "inet_ntop AF_INET6 (addr6 [0x2001, 0xdb8, 0, 0, 0, 0, 0, 1]) 46 = Some ''2001:db8::1''"
  "inet_ntop AF_INET6 (addr6 [0x2001, 0xdb8, 0, 0, 1, 0, 0, 1]) 46 = Some ''2001:db8::1:0:0:1''"
  "inet_ntop AF_INET6 (addr6 [0x2001, 0xdb8, 0, 1, 1, 1, 1, 1]) 46 = Some ''2001:db8:0:1:1:1:1:1''"
  "inet_ntop AF_INET6 (addr6 [0, 0, 0, 0, 0, 0, 0, 0]) 46 = Some ''::''"
  "inet_ntop AF_INET6 (addr6 [0, 0, 0, 0, 0, 0, 0, 1]) 46 = Some ''::1''"
  "inet_ntop AF_INET6 (addr6 [0, 0, 0, 0, 0, 0xffff, 0x7f00, 1]) 46 = Some ''::ffff:127.0.0.1''"
  "inet_ntop AF_INET6 (addr6 [0xfe80, 0, 0, 0, 0, 0, 0, 0]) 46 = Some ''fe80::''"
  by (simp add: ntop_eval)+

end
