(* ===== verification/Ping_Tests.thy ===== *)
theory Ping_Tests
  imports Samples Ping_Output Ping_Socket Ping_Checksum Inet_Ntop "HOL-Library.Sublist"
begin

text \<open>
  The unit tests of the repository, \<open>tests/test_stats.c\<close>, \<open>tests/test_checksum.c\<close> and \<open>tests/test_resolve.c\<close>, run
  on the models of the functions they test. The theorems say that they pass: the first two on every
  host, the third whenever the resolver answers as the test expects.
\<close>

section \<open>The test drivers\<close>

text \<open>The three counters \<open>g_pass\<close>, \<open>g_fail\<close> and \<open>g_skip\<close>, and the process.\<close>

record test_run =
  g_pass :: int
  g_fail :: int
  g_skip :: int
  console :: world

definition say :: "string \<Rightarrow> test_run \<Rightarrow> test_run" where
  "say s t = t\<lparr>console := emit (Stdout s) (console t)\<rparr>"

definition pass :: "test_run \<Rightarrow> test_run" where "pass t = t\<lparr>g_pass := g_pass t + 1\<rparr>"
definition fail :: "test_run \<Rightarrow> test_run" where "fail t = t\<lparr>g_fail := g_fail t + 1\<rparr>"
definition skip :: "test_run \<Rightarrow> test_run" where "skip t = t\<lparr>g_skip := g_skip t + 1\<rparr>"

text \<open>\<open>%-46s\<close>.\<close>

definition pad_right :: "nat \<Rightarrow> string \<Rightarrow> string" where
  "pad_right n s = s @ replicate (n - length s) (CHR '' '')"

fun strstr :: "string \<Rightarrow> string \<Rightarrow> bool" where
  "strstr [] n = (n = [])"
| "strstr (c # cs) n = (prefix n (c # cs) \<or> strstr cs n)"

section \<open>\<open>test_stats.c\<close>\<close>

text \<open>\<open>capture\<close>: what \<open>print_stats\<close> prints, as far as it fits the buffer; nothing if there is no temporary file.\<close>

definition text_of :: "event \<Rightarrow> string" where
  "text_of ev = (case ev of Stdout s \<Rightarrow> s | _ \<Rightarrow> [])"

definition capture :: "bool \<Rightarrow> t_ping_stats \<Rightarrow> nat \<Rightarrow> world \<Rightarrow> string" where
  "capture tmpfile st outlen w =
     (if tmpfile then take (outlen - 1) (concat (map text_of (events (print_stats ''host'' st (w\<lparr>events := []\<rparr>))))) else [])"

definition stats_check :: "string \<Rightarrow> string \<Rightarrow> string \<Rightarrow> bool \<Rightarrow> test_run \<Rightarrow> test_run" where
  "stats_check label haystack needle want_present t =
     (if strstr haystack needle = want_present
      then pass (say (''  PASS  '' @ pad_right 46 label @ nl) t)
      else fail (say (''        | '' @ haystack)
             (say (''        actual output:'' @ nl)
             (say (''        expected '' @ (if want_present then ''to contain'' else ''NOT to contain'') @ '': '' @ [CHR 0x22] @ needle @ [CHR 0x22] @ nl)
             (say (''  FAIL  '' @ pad_right 46 label @ nl) t)))))"

definition make :: "int \<Rightarrow> int \<Rightarrow> double \<Rightarrow> double \<Rightarrow> t_ping_stats" where
  "make sent recv lo hi = zero_stats\<lparr>n_sent := sent, n_recv := recv, rtt_min := lo, rtt_max := hi,
     sum_rtt := dadd lo hi, sum_sq := dadd (dmul lo lo) (dmul hi hi)\<rparr>"

text \<open>One summary and the checks made on it.\<close>

definition stats_case :: "bool \<Rightarrow> t_ping_stats \<Rightarrow> (string \<times> string \<times> bool) list \<Rightarrow> test_run \<Rightarrow> test_run" where
  "stats_case tmpfile s checks t =
     (let out = capture tmpfile s 4096 (console t)
      in fold (\<lambda>(label, needle, want). stats_check label out needle want) checks t)"

definition stats_main :: "bool \<Rightarrow> world \<Rightarrow> int \<times> test_run" where
  "stats_main tmpfile w =
     (let t0 = \<lparr>g_pass = 0, g_fail = 0, g_skip = 0, console = w\<rparr>;
          t1 = say (''-- labels (graded against inetutils-2.0) ----------------'' @ nl) t0;
          t2 = stats_case tmpfile (make 2 2 (Fin 1) (Fin 3))
                 [(''uses stddev, the inetutils label'', ''stddev'', True),
                  (''does not use mdev, the iputils label'', ''mdev'', False),
                  (''header wording matches'', ''--- host ping statistics ---'', True),
                  (''no blank line before the header'', nl @ ''---'', False)] t1;
          t3 = say (nl @ ''-- loss percentage truncates, never rounds -------------'' @ nl) t2;
          t4 = stats_case tmpfile (make 3 1 (Fin 1) (Fin 1)) [(''2 of 3 lost prints 66, not 67'', ''66% packet loss'', True)] t3;
          t5 = stats_case tmpfile (make 3 2 (Fin 1) (Fin 1)) [(''1 of 3 lost prints 33'', ''33% packet loss'', True)] t4;
          t6 = stats_case tmpfile (make 6 1 (Fin 1) (Fin 1)) [(''5 of 6 lost prints 83'', ''83% packet loss'', True)] t5;
          t7 = say (nl @ ''-- degenerate cases ------------------------------------'' @ nl) t6;
          t8 = stats_case tmpfile (make 0 0 (Fin 0) (Fin 0))
                 [(''nothing sent: no divide by zero'', ''0 packets transmitted, 0 packets received, 0% packet loss'', True),
                  (''nothing sent: no round-trip line'', ''round-trip'', False)] t7;
          t9 = stats_case tmpfile (make 4 0 (Fin 0) (Fin 0))
                 [(''total loss prints 100%'', ''100% packet loss'', True),
                  (''total loss: no round-trip line'', ''round-trip'', False),
                  (''total loss: never prints nan'', ''nan'', False)] t8;
          t10 = say (nl @ ''-- numerical robustness --------------------------------'' @ nl) t9;
          t11 = stats_case tmpfile (make 2 2 (Fin 1) (Fin 1))
                 [(''identical samples give 0.000, not nan'', ''/0.000 ms'', True),
                  (''identical samples: no nan anywhere'', ''nan'', False)] t10;
          t12 = say (nl @ ''-- forged traffic --------------------------------------'' @ nl) t11;
          t13 = stats_case tmpfile (make 2 3 (Fin 1) (Fin 1))
                 [(''more replies than probes is called out'', ''forged packets'', True),
                  (''...instead of a negative percentage'', ''-50%'', False)] t12;
          t14 = say (nl @ dec (g_pass t13) @ '' passed, '' @ dec (g_fail t13) @ '' failed'' @ nl) t13
      in (if g_fail t14 \<noteq> 0 then 1 else 0, t14))"

section \<open>\<open>test_checksum.c\<close>\<close>

text \<open>A failed assertion ends the program: \<open>None\<close>.\<close>

definition checksum_main :: "world \<Rightarrow> (int \<times> world) option" where
  "checksum_main w = do {
     let e = host_endian w;
     let buf = [8, 0, 0, 0, 0x12, 0x34, 0, 1];
     let c = ft_checksum e buf;
     buf1 \<leftarrow> write_range buf 2 [store16_0 e c, store16_1 e c];
     (if ft_checksum e buf1 \<noteq> 0 then None
      else do {
        let w1 = emit (Stdout (''7-byte: '' @ hex4 (ft_checksum e [0x45, 0, 0, 0x1c, 0, 0, 0]) @ nl)) w;
        let z = replicate 8 0;
        let f = replicate 8 0xff;
        let w2 = emit (Stdout (''zeros: '' @ hex4 (ft_checksum e z) @ ''  ff: '' @ hex4 (ft_checksum e f) @ nl)) w1;
        Some (0, emit (Stdout (''all asserts passed'' @ nl)) w2)
      })
   }"

section \<open>\<open>test_resolve.c\<close>\<close>

text \<open>
  What the caller expects of a name. The resolver is asked for an IPv4 address without a service, so
  the two checks of the family and the port of its answer, which the model has no room for, hold.
\<close>

datatype expectation = AnyAddress | MustFail | Exactly string

definition INET_ADDRSTRLEN :: nat where "INET_ADDRSTRLEN = 16"

definition ntop4 :: "ipv4 \<Rightarrow> string option" where
  "ntop4 a = (case a of (a0, a1, a2, a3) \<Rightarrow> inet_ntop AF_INET [a0, a1, a2, a3] INET_ADDRSTRLEN)"

definition resolve_check :: "string \<Rightarrow> string \<Rightarrow> expectation \<Rightarrow> bool \<Rightarrow> test_run \<Rightarrow> test_run option" where
  "resolve_check label hst expect needs_dns t =
     (let poison = (0xAA, 0xAA, 0xAA, 0xAA);
          (rc, out, w) = resolve_host hst poison (console t);
          t1 = t\<lparr>console := w\<rparr>; tag = (\<lambda>verdict. ''  '' @ verdict @ ''  '' @ pad_right 28 label @ '' '') in
      if expect = MustFail
      then Some (if rc = - 1 then pass (say (tag ''PASS'' @ ''rejected as expected'' @ nl) t1)
                 else fail (say (tag ''FAIL'' @ ''resolved but should have failed'' @ nl) t1))
      else if rc \<noteq> 0
      then Some (if needs_dns then skip (say (tag ''SKIP'' @ ''no DNS in this environment'' @ nl) t1)
                 else fail (say (tag ''FAIL'' @ ''should have resolved'' @ nl) t1))
      else do {
        got \<leftarrow> ntop4 out;
        Some (case expect of
            Exactly want \<Rightarrow>
              if got \<noteq> want then fail (say (tag ''FAIL'' @ ''got '' @ got @ '', want '' @ want @ nl) t1)
              else pass (say (tag ''PASS'' @ ''-> '' @ got @ nl) t1)
          | _ \<Rightarrow> pass (say (tag ''PASS'' @ ''-> '' @ got @ nl) t1))
      })"

fun resolve_checks :: "(string \<times> string \<times> expectation \<times> bool) list \<Rightarrow> test_run \<Rightarrow> test_run option" where
  "resolve_checks [] t = Some t"
| "resolve_checks ((label, hst, expect, dns) # cs) t = do {
     t1 \<leftarrow> resolve_check label hst expect dns t;
     resolve_checks cs t1
   }"

text \<open>\<open>./test_resolve google.com 1.1.1.1 ...\<close>\<close>

fun resolve_args :: "string list \<Rightarrow> world \<Rightarrow> world option" where
  "resolve_args [] w = Some w"
| "resolve_args (a # as) w =
     (let (rc, out, w1) = resolve_host a (0, 0, 0, 0) w in
      if rc = 0
      then do {
        ip \<leftarrow> ntop4 out;
        resolve_args as (emit (Stdout (pad_right 32 a @ '' -> '' @ ip @ nl)) w1)
      }
      else resolve_args as (emit (Stdout (pad_right 32 a @ '' -> (failed)'' @ nl)) w1))"

definition literal_checks :: "(string \<times> string \<times> expectation \<times> bool) list" where
  "literal_checks =
     [(''IPv4 loopback literal'', ''127.0.0.1'', Exactly ''127.0.0.1'', False),
      (''IPv4 public literal'', ''8.8.8.8'', Exactly ''8.8.8.8'', False),
      (''all-zeros literal'', ''0.0.0.0'', Exactly ''0.0.0.0'', False),
      (''broadcast literal'', ''255.255.255.255'', Exactly ''255.255.255.255'', False)]"

definition rejection_checks :: "(string \<times> string \<times> expectation \<times> bool) list" where
  "rejection_checks =
     [(''empty string'', '''', MustFail, False),
      (''octet out of range'', ''256.1.1.1'', MustFail, False),
      (''nonexistent TLD'', ''not.a.real.host.invalid'', MustFail, True),
      (''trailing junk'', ''127.0.0.1.5'', MustFail, False)]"

definition dns_checks :: "(string \<times> string \<times> expectation \<times> bool) list" where
  "dns_checks =
     [(''localhost'', ''localhost'', Exactly ''127.0.0.1'', True),
      (''FQDN'', ''google.com'', AnyAddress, True),
      (''FQDN with trailing dot'', ''google.com.'', AnyAddress, True)]"

definition resolve_main :: "string list \<Rightarrow> world \<Rightarrow> (int \<times> test_run) option" where
  "resolve_main args w =
     (let t0 = \<lparr>g_pass = 0, g_fail = 0, g_skip = 0, console = w\<rparr> in
      if args \<noteq> [] then do { w1 \<leftarrow> resolve_args args w; Some (0, t0\<lparr>console := w1\<rparr>) }
      else do {
        t1 \<leftarrow> resolve_checks literal_checks (say (''-- literals (no DNS) ------------------------------------'' @ nl) t0);
        t2 \<leftarrow> resolve_checks rejection_checks (say (nl @ ''-- must be rejected -------------------------------------'' @ nl) t1);
        t3 \<leftarrow> resolve_checks dns_checks (say (nl @ ''-- needs working DNS ------------------------------------'' @ nl) t2);
        let t4 = say (nl @ dec (g_pass t3) @ '' passed, '' @ dec (g_fail t3) @ '' failed, '' @ dec (g_skip t3) @ '' skipped'' @ nl) t3;
        Some (if g_fail t4 \<noteq> 0 then 1 else 0, t4)
      })"

section \<open>The tests pass\<close>

lemma say_simps [simp]:
  "g_pass (say s t) = g_pass t" "g_fail (say s t) = g_fail t" "g_skip (say s t) = g_skip t"
  "console (say s t) = emit (Stdout s) (console t)"
  "g_pass (pass t) = g_pass t + 1" "g_fail (pass t) = g_fail t" "console (pass t) = console t"
  by (simp_all add: say_def pass_def)

text \<open>The text of a summary, without the process around it.\<close>

definition summary_text :: "t_ping_stats \<Rightarrow> string" where
  "summary_text st = ''--- '' @ ''host'' @ '' ping statistics ---'' @ nl
     @ dec (n_sent st) @ '' packets transmitted, '' @ dec (n_recv st) @ '' packets received, ''
     @ (if n_sent st > 0 \<and> n_recv st > n_sent st then ''-- somebody is printing forged packets!''
        else dec (loss_percent st) @ ''% packet loss'') @ nl
     @ (if n_recv st = 0 then []
        else ''round-trip min/avg/max/stddev = '' @ fmt_f3 (rtt_min st) @ ''/'' @ fmt_f3 (rtt_mean st) @ ''/''
           @ fmt_f3 (rtt_max st) @ ''/'' @ fmt_f3 (dsqrt (rtt_variance st)) @ '' ms'' @ nl)"

lemma capture_text: "capture True st n w = take (n - 1) (summary_text st)"
  by (simp add: capture_def print_stats_def print_counts_def summary_text_def text_of_def Let_def)

text \<open>A case whose checks all find what they look for only counts.\<close>

lemma stats_case_passes:
  assumes "list_all (\<lambda>(label, needle, want). strstr (take 4095 (summary_text s)) needle = want) checks"
  shows "g_pass (stats_case True s checks t) = g_pass t + int (length checks) \<and> g_fail (stats_case True s checks t) = g_fail t"
proof -
  have "g_pass (fold (\<lambda>(label, needle, want). stats_check label (take 4095 (summary_text s)) needle want) checks t) = g_pass t + int (length checks) \<and>
      g_fail (fold (\<lambda>(label, needle, want). stats_check label (take 4095 (summary_text s)) needle want) checks t) = g_fail t"
    using assms by (induction checks arbitrary: t) (auto simp: stats_check_def)
  then show ?thesis by (simp add: stats_case_def capture_text)
qed

lemma make_fields [simp]:
  "n_sent (make a b x y) = a" "n_recv (make a b x y) = b" "rtt_min (make a b x y) = x" "rtt_max (make a b x y) = y"
  by (simp_all add: make_def)

text \<open>The figures of the summaries, evaluated.\<close>

lemma numbers:
  "dec 0 = ''0''" "dec 1 = ''1''" "dec 2 = ''2''" "dec 3 = ''3''"
  "dec 4 = ''4''" "dec 6 = ''6''" "dec 33 = ''33''" "dec 66 = ''66''"
  "dec 83 = ''83''" "dec 100 = ''100''"
  "fmt_f3 (Fin 1) = ''1.000''" "fmt_f3 (Fin 3) = ''3.000''"
  by code_simp+

lemma losses:
  "loss_percent (make 2 2 (Fin 1) (Fin 3)) = 0"
  "loss_percent (make 3 1 (Fin 1) (Fin 1)) = 66"
  "loss_percent (make 3 2 (Fin 1) (Fin 1)) = 33"
  "loss_percent (make 6 1 (Fin 1) (Fin 1)) = 83"
  "loss_percent (make 2 2 (Fin 1) (Fin 1)) = 0"
  "loss_percent (make 0 0 (Fin 0) (Fin 0)) = 0"
  "loss_percent (make 4 0 (Fin 0) (Fin 0)) = 100"
  by code_simp+

lemma figures1:
  "fmt_f3 (rtt_mean (make 2 2 (Fin 1) (Fin 3))) = ''2.000''" "fmt_f3 (dsqrt (rtt_variance (make 2 2 (Fin 1) (Fin 3)))) = ''1.000''"
  by code_simp+

lemma figures2:
  "fmt_f3 (rtt_mean (make 2 2 (Fin 1) (Fin 1))) = ''1.000''" "fmt_f3 (dsqrt (rtt_variance (make 2 2 (Fin 1) (Fin 1)))) = ''0.000''"
  by code_simp+

lemma figures3:
  "fmt_f3 (rtt_mean (make 2 3 (Fin 1) (Fin 1))) = ''0.667''" "fmt_f3 (dsqrt (rtt_variance (make 2 3 (Fin 1) (Fin 1)))) = ''0.471''"
  by code_simp+

lemmas summary_eval = summary_text_def numbers losses figures1 figures2 figures3

lemma test_case1:
  "list_all (\<lambda>(label, needle, want). strstr (take 4095 (summary_text (make 2 2 (Fin 1) (Fin 3)))) needle = want)
     [(''uses stddev, the inetutils label'', ''stddev'', True),
                  (''does not use mdev, the iputils label'', ''mdev'', False),
                  (''header wording matches'', ''--- host ping statistics ---'', True),
                  (''no blank line before the header'', nl @ ''---'', False)]"
  by (simp add: summary_eval del: fmt_f3.simps)

lemma test_case2:
  "list_all (\<lambda>(label, needle, want). strstr (take 4095 (summary_text (make 3 1 (Fin 1) (Fin 1)))) needle = want)
     [(''2 of 3 lost prints 66, not 67'', ''66% packet loss'', True)]"
  by (simp add: summary_eval del: fmt_f3.simps)

lemma test_case3:
  "list_all (\<lambda>(label, needle, want). strstr (take 4095 (summary_text (make 3 2 (Fin 1) (Fin 1)))) needle = want)
     [(''1 of 3 lost prints 33'', ''33% packet loss'', True)]"
  by (simp add: summary_eval del: fmt_f3.simps)

lemma test_case4:
  "list_all (\<lambda>(label, needle, want). strstr (take 4095 (summary_text (make 6 1 (Fin 1) (Fin 1)))) needle = want)
     [(''5 of 6 lost prints 83'', ''83% packet loss'', True)]"
  by (simp add: summary_eval del: fmt_f3.simps)

lemma test_case5:
  "list_all (\<lambda>(label, needle, want). strstr (take 4095 (summary_text (make 0 0 (Fin 0) (Fin 0)))) needle = want)
     [(''nothing sent: no divide by zero'', ''0 packets transmitted, 0 packets received, 0% packet loss'', True),
                  (''nothing sent: no round-trip line'', ''round-trip'', False)]"
  by (simp add: summary_eval del: fmt_f3.simps)

lemma test_case6:
  "list_all (\<lambda>(label, needle, want). strstr (take 4095 (summary_text (make 4 0 (Fin 0) (Fin 0)))) needle = want)
     [(''total loss prints 100%'', ''100% packet loss'', True),
                  (''total loss: no round-trip line'', ''round-trip'', False),
                  (''total loss: never prints nan'', ''nan'', False)]"
  by (simp add: summary_eval del: fmt_f3.simps)

lemma test_case7:
  "list_all (\<lambda>(label, needle, want). strstr (take 4095 (summary_text (make 2 2 (Fin 1) (Fin 1)))) needle = want)
     [(''identical samples give 0.000, not nan'', ''/0.000 ms'', True),
                  (''identical samples: no nan anywhere'', ''nan'', False)]"
  by (simp add: summary_eval del: fmt_f3.simps)

lemma test_case8:
  "list_all (\<lambda>(label, needle, want). strstr (take 4095 (summary_text (make 2 3 (Fin 1) (Fin 1)))) needle = want)
     [(''more replies than probes is called out'', ''forged packets'', True),
                  (''...instead of a negative percentage'', ''-50%'', False)]"
  by (simp add: summary_eval del: fmt_f3.simps)

lemma passes:
  "list_all (\<lambda>(label, needle, want). strstr (take 4095 (summary_text s)) needle = want) checks \<Longrightarrow>
     g_fail (stats_case True s checks t) = g_fail t"
  "list_all (\<lambda>(label, needle, want). strstr (take 4095 (summary_text s)) needle = want) checks \<Longrightarrow>
     g_pass (stats_case True s checks t) = g_pass t + int (length checks)"
  using stats_case_passes by blast+

text \<open>The unit tests of the summary pass: on every host all sixteen checks of \<open>test_stats.c\<close> hold of the
  model of \<open>print_stats\<close>, and the test program exits with 0.\<close>

theorem stats_tests_pass:
  "fst (stats_main True w) = 0 \<and> g_pass (snd (stats_main True w)) = 16 \<and> g_fail (snd (stats_main True w)) = 0"
  unfolding stats_main_def Let_def
  by (simp only: fst_conv snd_conv say_simps test_run.simps list.size passes(1) [OF test_case1] passes(1) [OF test_case2] passes(1) [OF test_case3] passes(1) [OF test_case4] passes(1) [OF test_case5] passes(1) [OF test_case6]
      passes(1) [OF test_case7] passes(1) [OF test_case8] passes(2) [OF test_case1] passes(2) [OF test_case2] passes(2) [OF test_case3] passes(2) [OF test_case4]
      passes(2) [OF test_case5] passes(2) [OF test_case6] passes(2) [OF test_case7] passes(2) [OF test_case8]) simp

text \<open>The unit test of the checksum passes: on hosts of both byte orders no assertion of
  \<open>test_checksum.c\<close> fails, and the three sums it prints are determined.\<close>

theorem checksum_test_passes:
  "checksum_main w = Some (0, emit (Stdout (''all asserts passed'' @ nl))
     (emit (Stdout (''zeros: ffff  ff: 0000'' @ nl))
     (emit (Stdout (''7-byte: '' @ (case host_endian w of LE \<Rightarrow> ''e3ba'' | BE \<Rightarrow> ''bae3'') @ nl)) w)))"
proof -
  have le: "ft_checksum LE [8, 0, 0, 0, 0x12, 0x34, 0, 1] = 0xcae5"
    "ft_checksum LE [8, 0, 0xe5, 0xca, 0x12, 0x34, 0, 1] = 0"
    "hex4 (ft_checksum LE [0x45, 0, 0, 0x1c, 0, 0, 0]) = ''e3ba''"
    "hex4 (ft_checksum LE (replicate 8 0)) = ''ffff''" "hex4 (ft_checksum LE (replicate 8 0xff)) = ''0000''"
    "lo8 0xcae5 = 0xe5" "hi8 0xcae5 = 0xca" by code_simp+
  have be: "ft_checksum BE [8, 0, 0, 0, 0x12, 0x34, 0, 1] = 0xe5ca"
    "ft_checksum BE [8, 0, 0xe5, 0xca, 0x12, 0x34, 0, 1] = 0"
    "hex4 (ft_checksum BE [0x45, 0, 0, 0x1c, 0, 0, 0]) = ''bae3''"
    "hex4 (ft_checksum BE (replicate 8 0)) = ''ffff''" "hex4 (ft_checksum BE (replicate 8 0xff)) = ''0000''"
    "lo8 0xe5ca = 0xca" "hi8 0xe5ca = 0xe5" by code_simp+
  show ?thesis
    by (cases "host_endian w") (simp_all add: checksum_main_def Let_def le be write_range_def)
qed

text \<open>What the test expects of the resolver.\<close>

fun expected :: "os \<Rightarrow> string \<times> string \<times> expectation \<times> bool \<Rightarrow> bool" where
  "expected e (label, hst, expect, dns) = (case (os_getaddrinfo e hst, expect) of
     (GaiOk a, Exactly want) \<Rightarrow> dotted_quad a = want
   | (GaiOk a, AnyAddress) \<Rightarrow> True
   | (GaiOk a, MustFail) \<Rightarrow> False
   | (GaiError _, MustFail) \<Rightarrow> True
   | (GaiError _, _) \<Rightarrow> dns)"

lemma ntop4_quad: "ntop4 a = Some (dotted_quad a)"
proof -
  obtain a0 a1 a2 a3 where a: "a = (a0, a1, a2, a3)" by (cases a) auto
  obtain t where "inet_ntop4 [a0, a1, a2, a3] 16 = Some t" using inet_ntop4_fits [of "[a0, a1, a2, a3]" 16] by auto
  then show ?thesis
    by (auto simp: a ntop4_def inet_ntop_def INET_ADDRSTRLEN_def inet_ntop4_def buf_simps Let_def peek_def split: if_splits)
qed

lemma resolve_check_expected:
  assumes "expected (env (console t)) (label, hst, expect, dns)"
  shows "\<exists>t'. resolve_check label hst expect dns t = Some t' \<and> g_fail t' = g_fail t \<and> env (console t') = env (console t)"
  using assms
  by (cases "os_getaddrinfo (env (console t)) hst"; cases expect)
    (auto simp: resolve_check_def resolve_host_def ntop4_quad Let_def say_def pass_def skip_def)

lemma resolve_checks_expected:
  "list_all (expected (env (console t))) cs \<Longrightarrow>
     \<exists>t'. resolve_checks cs t = Some t' \<and> g_fail t' = g_fail t \<and> env (console t') = env (console t)"
proof (induction cs arbitrary: t)
  case (Cons c cs)
  obtain label hst expect dns where c: "c = (label, hst, expect, dns)" by (cases c) auto
  obtain t1 where t1: "resolve_check label hst expect dns t = Some t1" "g_fail t1 = g_fail t" "env (console t1) = env (console t)"
    using resolve_check_expected Cons.prems c by fastforce
  then show ?case using Cons.IH [of t1] Cons.prems by (simp add: c)
qed simp

text \<open>The unit test of the resolver passes whenever the resolver turns the literals into the
  addresses they denote, refuses the malformed names, and answers the names that need DNS not at
  all or as expected: no check fails, whichever are skipped, and the exit status is 0.\<close>

theorem resolve_tests_pass:
  assumes "list_all (expected (env w)) (literal_checks @ rejection_checks @ dns_checks)"
  shows "\<exists>t. resolve_main [] w = Some (0, t) \<and> g_fail t = 0"
proof -
  let ?t0 = "\<lparr>g_pass = 0, g_fail = 0, g_skip = 0, console = w\<rparr>"
  have a: "list_all (expected (env w)) literal_checks" "list_all (expected (env w)) rejection_checks"
    "list_all (expected (env w)) dns_checks" using assms by simp_all
  obtain t1 where t1: "resolve_checks literal_checks (say (''-- literals (no DNS) ------------------------------------'' @ nl) ?t0) = Some t1"
    "g_fail t1 = 0" "env (console t1) = env w"
    using resolve_checks_expected [of "say _ ?t0" literal_checks] a(1) by fastforce
  obtain t2 where t2: "resolve_checks rejection_checks (say (nl @ ''-- must be rejected -------------------------------------'' @ nl) t1) = Some t2"
    "g_fail t2 = 0" "env (console t2) = env w"
    using resolve_checks_expected [of "say _ t1" rejection_checks] a(2) t1 by fastforce
  obtain t3 where t3: "resolve_checks dns_checks (say (nl @ ''-- needs working DNS ------------------------------------'' @ nl) t2) = Some t3"
    "g_fail t3 = 0" "env (console t3) = env w"
    using resolve_checks_expected [of "say _ t2" dns_checks] a(3) t2 by fastforce
  show ?thesis
    unfolding resolve_main_def Let_def t1(1) using t2(1) t3(1,2) by (simp add: t1(1) Option.bind.simps)
qed

text \<open>A resolver that knows the literals and nothing else.\<close>

definition literals_only :: os where
  "literals_only = sample_os\<lparr>os_getaddrinfo := \<lambda>h.
     if h = ''127.0.0.1'' then GaiOk (127, 0, 0, 1) else if h = ''8.8.8.8'' then GaiOk (8, 8, 8, 8)
     else if h = ''0.0.0.0'' then GaiOk (0, 0, 0, 0) else if h = ''255.255.255.255'' then GaiOk (255, 255, 255, 255)
     else GaiError ''Name or service not known''\<rparr>"

theorem resolve_tests_pass_witness: "\<exists>t. resolve_main [] (boot literals_only) = Some (0, t) \<and> g_fail t = 0"
proof -
  have d: "dotted_quad (127, 0, 0, 1) = ''127.0.0.1''" "dotted_quad (8, 8, 8, 8) = ''8.8.8.8''"
    "dotted_quad (0, 0, 0, 0) = ''0.0.0.0''" "dotted_quad (255, 255, 255, 255) = ''255.255.255.255''" by code_simp+
  show ?thesis
    by (rule resolve_tests_pass)
      (simp add: literals_only_def literal_checks_def rejection_checks_def dns_checks_def d del: dotted_quad.simps)
qed

end
