(* ===== verification/Getopt_Long.thy ===== *)
theory Getopt_Long
  imports Getopt
begin

text \<open>
  The rest of \<open>inetutils-2.0/lib/getopt.c\<close> and \<open>getopt1.c\<close>: long options. \<open>process_long_option\<close> looks an option up
  in a table, exactly or by an abbreviation, and \<open>getopt_internal_r\<close> is the whole function, with
  the short options of theory \<open>Getopt\<close> as the part it shares. The theorems say what the lookup finds, that an
  abbreviation has the effect of the full name, and that without a table the function is the \<open>getopt\<close>
  of theory \<open>Getopt\<close>.

  A pointer \<open>flag\<close> is the number of the variable it points to; \<open>malloc\<close> may fail as elsewhere.
\<close>

section \<open>State\<close>

record long_option =
  o_name :: string
  o_has_arg :: int
  o_flag :: "nat option"
  o_val :: int

text \<open>What a call changes besides \<open>argv\<close>: the scanner's data, \<open>*longind\<close> and the flags.\<close>

record long_state =
  l_data :: getopt_data
  l_longind :: "int option"
  l_flag :: "nat \<Rightarrow> int"

text \<open>The i-th character of a string, the terminating null included.\<close>

definition c_char :: "string \<Rightarrow> nat \<Rightarrow> char option" where
  "c_char a i = peek (a @ [CHR 0x00]) i"

section \<open>Looking an option up\<close>

text \<open>\<open>!strncmp (p->name, nextchar, namelen)\<close> for the name before the equals sign.\<close>

definition starts_with :: "string \<Rightarrow> long_option \<Rightarrow> bool" where
  "starts_with name p \<longleftrightarrow> take (length name) (o_name p) = name"

fun find_exact :: "string \<Rightarrow> nat \<Rightarrow> long_option list \<Rightarrow> (nat \<times> long_option) option" where
  "find_exact name i [] = None"
| "find_exact name i (p # ps) =
     (if starts_with name p \<and> length name = length (o_name p) then Some (i, p)
      else find_exact name (i + 1) ps)"

datatype ambiguity = NoAmbig | AmbigFallback | AmbigSet "bool list"

definition note_ambig :: "bool \<Rightarrow> bool \<Rightarrow> nat \<Rightarrow> nat \<Rightarrow> nat \<Rightarrow> ambiguity \<Rightarrow> ambiguity" where
  "note_ambig print_errors malloc_ok n indfound i amb =
     (case amb of
        AmbigFallback \<Rightarrow> AmbigFallback
      | NoAmbig \<Rightarrow> (if print_errors \<and> malloc_ok
                    then AmbigSet ((replicate n False)[indfound := True, i := True]) else AmbigFallback)
      | AmbigSet bs \<Rightarrow> AmbigSet (bs[i := True]))"

definition differs :: "bool \<Rightarrow> long_option \<Rightarrow> long_option \<Rightarrow> bool" where
  "differs long_only q p \<longleftrightarrow>
     long_only \<or> o_has_arg q \<noteq> o_has_arg p \<or> o_flag q \<noteq> o_flag p \<or> o_val q \<noteq> o_val p"

fun find_abbrev ::
  "bool \<Rightarrow> bool \<Rightarrow> bool \<Rightarrow> string \<Rightarrow> nat \<Rightarrow> nat \<Rightarrow> long_option list \<Rightarrow>
     (nat \<times> long_option) option \<times> ambiguity \<Rightarrow> (nat \<times> long_option) option \<times> ambiguity" where
  "find_abbrev long_only pe ok name n i [] st = st"
| "find_abbrev long_only pe ok name n i (p # ps) (found, amb) =
     find_abbrev long_only pe ok name n (i + 1) ps
       (if starts_with name p
        then (case found of
            None \<Rightarrow> (Some (i, p), amb)
          | Some (j, q) \<Rightarrow> (found, if differs long_only q p then note_ambig pe ok n j i amb else amb))
        else (found, amb))"

definition lookup_long ::
  "bool \<Rightarrow> bool \<Rightarrow> bool \<Rightarrow> string \<Rightarrow> long_option list \<Rightarrow> (nat \<times> long_option) option \<times> ambiguity" where
  "lookup_long long_only pe ok name longopts =
     (case find_exact name 0 longopts of
        Some f \<Rightarrow> (Some f, NoAmbig)
      | None \<Rightarrow> find_abbrev long_only pe ok name (length longopts) 0 longopts (None, NoAmbig))"

section \<open>One long option\<close>

definition say :: "string \<Rightarrow> string \<Rightarrow> string \<Rightarrow> string \<Rightarrow> string \<Rightarrow> world \<Rightarrow> world" where
  "say prog what prefix name tail w =
     emit (Stderr (prog @ '': '' @ what @ '' '' @ [CHR 0x27] @ prefix @ name @ [CHR 0x27] @ tail)) w"

fun possibilities :: "string \<Rightarrow> bool list \<Rightarrow> long_option list \<Rightarrow> world \<Rightarrow> world" where
  "possibilities prefix (b # bs) (p # ps) w =
     possibilities prefix bs ps
       (if b then emit (Stderr ('' '' @ [CHR 0x27] @ prefix @ o_name p @ [CHR 0x27])) w else w)"
| "possibilities prefix _ _ w = w"

definition say_ambiguous ::
  "bool \<Rightarrow> string \<Rightarrow> string \<Rightarrow> string \<Rightarrow> long_option list \<Rightarrow> ambiguity \<Rightarrow> world \<Rightarrow> world" where
  "say_ambiguous pe prog prefix name longopts amb w =
     (if \<not> pe then w
      else (case amb of
          AmbigSet bs \<Rightarrow> emit (Stderr nl) (possibilities prefix bs longopts
            (say prog ''option'' prefix name '' is ambiguous; possibilities:'' w))
        | _ \<Rightarrow> say prog ''option'' prefix name ('' is ambiguous'' @ nl) w))"

abbreviation "code_qm \<equiv> char_int (CHR ''?'')"
abbreviation "code_colon \<equiv> char_int (CHR '':'')"

text \<open>The end of \<open>process_long_option\<close>, the option and its argument consumed.\<close>

definition deliver :: "bool \<Rightarrow> nat \<Rightarrow> long_option \<Rightarrow> long_state \<Rightarrow> int \<times> long_state" where
  "deliver want_index i p l =
     (let l1 = (if want_index then l\<lparr>l_longind := Some (int i)\<rparr> else l)
      in case o_flag p of
           Some v \<Rightarrow> (0, l1\<lparr>l_flag := (l_flag l1)(v := o_val p)\<rparr>)
         | None \<Rightarrow> (o_val p, l1))"

text \<open>A matching option; \<open>rest\<close> is what stands from the equals sign on.\<close>

definition consume_long ::
  "string list \<Rightarrow> string \<Rightarrow> bool \<Rightarrow> bool \<Rightarrow> string \<Rightarrow> nat \<Rightarrow> long_option \<Rightarrow> string \<Rightarrow> long_state \<Rightarrow> world \<Rightarrow>
     (int \<times> long_state \<times> world) option" where
  "consume_long argv optstring want_index pe prefix i p rest l w = do {
     prog \<leftarrow> peek argv 0;
     let d1 = (l_data l)\<lparr>g_optind := g_optind (l_data l) + 1, g_nextchar := []\<rparr>;
     (case rest of
        _ # arg \<Rightarrow>
          if o_has_arg p \<noteq> 0
          then (let (rc, l1) = deliver want_index i p (l\<lparr>l_data := d1\<lparr>g_optarg := Some arg\<rparr>\<rparr>) in Some (rc, l1, w))
          else Some (code_qm, l\<lparr>l_data := d1\<lparr>g_optopt := o_val p\<rparr>\<rparr>,
                     if pe then say prog ''option'' prefix (o_name p) ('' doesn'' @ [CHR 0x27] @ ''t allow an argument'' @ nl) w else w)
      | [] \<Rightarrow>
          if o_has_arg p = 1
          then (if g_optind d1 < length argv
                then do {
                  a \<leftarrow> peek argv (g_optind d1);
                  (let (rc, l1) = deliver want_index i p
                         (l\<lparr>l_data := d1\<lparr>g_optarg := Some a, g_optind := g_optind d1 + 1\<rparr>\<rparr>) in Some (rc, l1, w))
                }
                else Some (if take 1 optstring = '':'' then code_colon else code_qm,
                           l\<lparr>l_data := d1\<lparr>g_optopt := o_val p\<rparr>\<rparr>,
                           if pe then say prog ''option'' prefix (o_name p) ('' requires an argument'' @ nl) w else w))
          else (let (rc, l1) = deliver want_index i p (l\<lparr>l_data := d1\<rparr>) in Some (rc, l1, w)))
   }"

text \<open>Whether something that is no long option is an error, or letters of short options.\<close>

definition is_long_error :: "string list \<Rightarrow> string \<Rightarrow> bool \<Rightarrow> getopt_data \<Rightarrow> bool option" where
  "is_long_error argv optstring long_only d =
     (if \<not> long_only then Some True
      else do {
        a \<leftarrow> peek argv (g_optind d);
        c1 \<leftarrow> c_char a 1;
        Some (c1 = CHR ''-'' \<or> (case g_nextchar d of c # _ \<Rightarrow> strchr optstring c = [] | [] \<Rightarrow> False))
      })"

definition process_long_option ::
  "string list \<Rightarrow> string \<Rightarrow> long_option list \<Rightarrow> bool \<Rightarrow> bool \<Rightarrow> bool \<Rightarrow> string \<Rightarrow> long_state \<Rightarrow> world \<Rightarrow>
     (int \<times> long_state \<times> world) option" where
  "process_long_option argv optstring longopts want_index long_only pe prefix l w =
     (let d = l_data l; name = takeWhile (\<lambda>c. c \<noteq> CHR ''='') (g_nextchar d);
          rest = dropWhile (\<lambda>c. c \<noteq> CHR ''='') (g_nextchar d);
          (found, amb) = lookup_long long_only pe (os_malloc (env w) (length longopts) \<noteq> None) name longopts
      in do {
        prog \<leftarrow> peek argv 0;
        (if amb \<noteq> NoAmbig
         then Some (code_qm, l\<lparr>l_data := d\<lparr>g_nextchar := [], g_optind := g_optind d + 1, g_optopt := 0\<rparr>\<rparr>,
                    say_ambiguous pe prog prefix (g_nextchar d) longopts amb w)
         else (case found of
             Some (i, p) \<Rightarrow> consume_long argv optstring want_index pe prefix i p rest l w
           | None \<Rightarrow> do {
               err \<leftarrow> is_long_error argv optstring long_only d;
               Some (if err
                     then (code_qm, l\<lparr>l_data := d\<lparr>g_nextchar := [], g_optind := g_optind d + 1, g_optopt := 0\<rparr>\<rparr>,
                           if pe then say prog ''unrecognized option'' prefix (g_nextchar d) nl w else w)
                     else (- 1, l, w))
             }))
      })"

section \<open>The whole scanner\<close>

text \<open>The test for a long option at a fresh element; the code to return, if it is one.\<close>

definition try_long ::
  "string list \<Rightarrow> string \<Rightarrow> long_option list option \<Rightarrow> bool \<Rightarrow> bool \<Rightarrow> bool \<Rightarrow> long_state \<Rightarrow> world \<Rightarrow>
     (int option \<times> long_state \<times> world) option" where
  "try_long argv optstring longopts want_index long_only pe l w =
     (case longopts of
        None \<Rightarrow> Some (None, l, w)
      | Some opts \<Rightarrow> do {
          let d = l_data l;
          a \<leftarrow> peek argv (g_optind d);
          c1 \<leftarrow> c_char a 1;
          (if c1 = CHR ''-''
           then do {
             (code, l1, w1) \<leftarrow> process_long_option argv optstring opts want_index long_only pe ''--''
                                (l\<lparr>l_data := d\<lparr>g_nextchar := drop 2 a\<rparr>\<rparr>) w;
             Some (Some code, l1, w1)
           }
           else if long_only \<and> (drop 2 a \<noteq> [] \<or> strchr optstring c1 = [])
           then do {
             (code, l1, w1) \<leftarrow> process_long_option argv optstring opts want_index long_only pe ''-''
                                (l\<lparr>l_data := d\<lparr>g_nextchar := drop 1 a\<rparr>\<rparr>) w;
             (if code \<noteq> - 1 then Some (Some code, l1, w1)
              else do {
                b \<leftarrow> peek argv (g_optind (l_data l1));
                Some (None, l1\<lparr>l_data := (l_data l1)\<lparr>g_nextchar := drop 1 b\<rparr>\<rparr>, w1)
              })
           }
           else Some (None, l, w))
        })"

text \<open>\<open>-W name\<close>, when \<open>optstring\<close> has \<open>W;\<close>.\<close>

definition process_W ::
  "string list \<Rightarrow> string \<Rightarrow> long_option list \<Rightarrow> bool \<Rightarrow> bool \<Rightarrow> string \<Rightarrow> long_state \<Rightarrow> world \<Rightarrow>
     (int \<times> long_state \<times> world) option" where
  "process_W argv optstring opts want_index pe next l w = do {
     let d = l_data l;
     let d1 = d\<lparr>g_nextchar := next, g_optind := (if next = [] then g_optind d + 1 else g_optind d)\<rparr>;
     prog \<leftarrow> peek argv 0;
     (if next = [] \<and> g_optind d1 = length argv
      then Some (if take 1 optstring = '':'' then code_colon else code_qm,
                 l\<lparr>l_data := d1\<lparr>g_optopt := char_int (CHR ''W'')\<rparr>\<rparr>,
                 bad_option pe prog ''option requires an argument'' (CHR ''W'') w)
      else do {
        arg \<leftarrow> (if next \<noteq> [] then Some next else peek argv (g_optind d1));
        process_long_option argv optstring opts want_index False pe ''-W ''
          (l\<lparr>l_data := d1\<lparr>g_nextchar := arg, g_optarg := None\<rparr>\<rparr>) w
      })
   }"

definition short_option ::
  "string list \<Rightarrow> string \<Rightarrow> long_option list option \<Rightarrow> bool \<Rightarrow> bool \<Rightarrow> long_state \<Rightarrow> world \<Rightarrow>
     (int \<times> long_state \<times> world) option" where
  "short_option argv optstring longopts want_index pe l w =
     (case (longopts, g_nextchar (l_data l)) of
        (Some opts, c # next) \<Rightarrow>
          if take 2 (strchr optstring c) = ''W;''
          then process_W argv optstring opts want_index pe next l w
          else do {
            (c, d, w1) \<leftarrow> take_char optstring pe argv (l_data l) w;
            Some (char_int c, l\<lparr>l_data := d\<rparr>, w1)
          }
      | _ \<Rightarrow> do {
          (c, d, w1) \<leftarrow> take_char optstring pe argv (l_data l) w;
          Some (char_int c, l\<lparr>l_data := d\<rparr>, w1)
        })"

definition getopt_internal_r ::
  "bool \<Rightarrow> string \<Rightarrow> long_option list option \<Rightarrow> bool \<Rightarrow> bool \<Rightarrow> string list \<Rightarrow> long_state \<Rightarrow> world \<Rightarrow>
     (int \<times> string list \<times> long_state \<times> world) option" where
  "getopt_internal_r posixly_correct optstring0 longopts want_index long_only argv l w =
     (if length argv < 1 then Some (- 1, argv, l, w)
      else do {
        let d1 = (l_data l)\<lparr>g_optarg := None\<rparr>;
        let (optstring, d) =
          (if g_optind d1 = 0 \<or> \<not> g_initialized d1
           then getopt_initialize posixly_correct optstring0 d1
           else (if take 1 optstring0 = ''-'' \<or> take 1 optstring0 = ''+'' then drop 1 optstring0
                 else optstring0, d1));
        let pe = (g_opterr d \<and> take 1 optstring \<noteq> '':'');
        (s, argv1, d2) \<leftarrow> (if g_nextchar d = [] then advance argv d else Some (Option, argv, d));
        let l2 = l\<lparr>l_data := d2\<rparr>;
        (case s of
           Done \<Rightarrow> Some (- 1, argv1, l2, w)
         | NonOption _ \<Rightarrow> Some (1, argv1, l2, w)
         | Option \<Rightarrow> do {
             (r, l3, w3) \<leftarrow> (if g_nextchar d = [] then try_long argv1 optstring longopts want_index long_only pe l2 w
                             else Some (None, l2, w));
             (case r of
                Some code \<Rightarrow> Some (code, argv1, l3, w3)
              | None \<Rightarrow> do {
                  (code, l4, w4) \<leftarrow> short_option argv1 optstring longopts want_index pe l3 w3;
                  Some (code, argv1, l4, w4)
                })
           })
      })"

text \<open>
  \<open>_getopt_internal\<close> works on the global \<open>optind\<close> and \<open>opterr\<close>, which the caller may have changed
  since the last call; \<open>optarg\<close> and \<open>optopt\<close> are those of the resulting state.
\<close>

definition getopt_internal ::
  "bool \<Rightarrow> string \<Rightarrow> long_option list option \<Rightarrow> bool \<Rightarrow> bool \<Rightarrow> string list \<Rightarrow> nat \<Rightarrow> bool \<Rightarrow> long_state \<Rightarrow> world \<Rightarrow>
     (int \<times> string list \<times> long_state \<times> world) option" where
  "getopt_internal posixly_correct optstring longopts want_index long_only argv optind opterr l w =
     getopt_internal_r posixly_correct optstring longopts want_index long_only argv
       (l\<lparr>l_data := (l_data l)\<lparr>g_optind := optind, g_opterr := opterr\<rparr>\<rparr>) w"

definition getopt_long ::
  "bool \<Rightarrow> string \<Rightarrow> long_option list \<Rightarrow> bool \<Rightarrow> string list \<Rightarrow> nat \<Rightarrow> bool \<Rightarrow> long_state \<Rightarrow> world \<Rightarrow>
     (int \<times> string list \<times> long_state \<times> world) option" where
  "getopt_long env_posix optstring longopts want_index = getopt_internal env_posix optstring (Some longopts) want_index False"

definition getopt_long_only ::
  "bool \<Rightarrow> string \<Rightarrow> long_option list \<Rightarrow> bool \<Rightarrow> string list \<Rightarrow> nat \<Rightarrow> bool \<Rightarrow> long_state \<Rightarrow> world \<Rightarrow>
     (int \<times> string list \<times> long_state \<times> world) option" where
  "getopt_long_only env_posix optstring longopts want_index = getopt_internal env_posix optstring (Some longopts) want_index True"

section \<open>Without a table\<close>

text \<open>Called without long options, as \<open>getopt\<close> does, the whole function computes exactly the
  \<open>getopt\<close> of the short options: the same code, the same permuted \<open>argv\<close>, the same state and the
  same messages, from every state.\<close>

theorem internal_without_table:
  "getopt_internal_r px optstring0 None want_index long_only argv l w =
     map_option (\<lambda>(r, argv', d', w'). (case r of None \<Rightarrow> - 1 | Some c \<Rightarrow> char_int c, argv', l\<lparr>l_data := d'\<rparr>, w'))
       (getopt px optstring0 argv (l_data l) w)"
proof (cases "length argv < 1")
  case False
  define d1 where "d1 = (l_data l)\<lparr>g_optarg := None\<rparr>"
  obtain optstring d where init: "(if g_optind d1 = 0 \<or> \<not> g_initialized d1
           then getopt_initialize px optstring0 d1
           else (if take 1 optstring0 = ''-'' \<or> take 1 optstring0 = ''+'' then drop 1 optstring0
                 else optstring0, d1)) = (optstring, d)"
    by fastforce
  let ?pe = "g_opterr d \<and> take 1 optstring \<noteq> '':''"
  have none: "try_long a b None c e f g w = Some (None, g, w)" for a b c e f g w by (simp add: try_long_def)
  have short: "short_option a b None c e f w = do {
      (c, d, w1) \<leftarrow> take_char b e a (l_data f) w; Some (char_int c, f\<lparr>l_data := d\<rparr>, w1) }" for a b c e f w
    by (simp add: short_option_def split: list.split)
  have one: "char_int (CHR 0x01) = 1" by (simp add: char_int_def)
  note un = getopt_internal_r_def getopt_def Let_def if_not_P [OF False] d1_def [symmetric] init prod.case
  show ?thesis
  proof (cases "if g_nextchar d = [] then advance argv d else Some (Option, argv, d)")
    case None
    then show ?thesis unfolding un by simp
  next
    case (Some r)
    obtain sc argv1 d2 where r: "r = (sc, argv1, d2)" by (cases r)
    show ?thesis
    proof (cases sc)
      case Option
      then show ?thesis unfolding un Some r
        by (cases "take_char optstring ?pe argv1 d2 w") (auto simp: none short)
    qed (unfold un Some r, simp_all add: one)
  qed
qed (simp add: getopt_internal_r_def getopt_def)

section \<open>What the lookup finds\<close>

datatype resolution = Unknown_Name | Ambiguous | Found nat long_option

definition candidates :: "string \<Rightarrow> long_option list \<Rightarrow> (nat \<times> long_option) list" where
  "candidates name opts = filter (\<lambda>(i, p). starts_with name p) (enumerate 0 opts)"

text \<open>The documented rule: an exact name, or an abbreviation all of whose completions mean the same.\<close>

definition resolve :: "bool \<Rightarrow> string \<Rightarrow> long_option list \<Rightarrow> resolution" where
  "resolve long_only name opts =
     (case filter (\<lambda>(i, p). o_name p = name) (enumerate 0 opts) of
        (i, p) # _ \<Rightarrow> Found i p
      | [] \<Rightarrow> (case candidates name opts of
            [] \<Rightarrow> Unknown_Name
          | (i, p) # cs \<Rightarrow> if \<exists>c \<in> set cs. differs long_only p (snd c) then Ambiguous else Found i p))"

lemma exact_iff: "starts_with name p \<and> length name = length (o_name p) \<longleftrightarrow> o_name p = name"
  by (auto simp: starts_with_def)

lemma find_exact_eq:
  "find_exact name i opts = (case filter (\<lambda>(i, p). o_name p = name) (enumerate i opts) of
     [] \<Rightarrow> None | f # _ \<Rightarrow> Some f)"
  by (induction opts arbitrary: i) (simp_all add: exact_iff)

text \<open>The flags raised once a first candidate was found.\<close>

definition marked :: "nat \<Rightarrow> nat \<Rightarrow> nat list \<Rightarrow> bool list" where
  "marked n j is = map (\<lambda>i. i = j \<or> i \<in> set is) [0..<n]"

lemma marked_update: "i < n \<Longrightarrow> (marked n j is)[i := True] = marked n j (is @ [i])"
  by (rule nth_equalityI) (auto simp: marked_def nth_list_update)

lemma marked_first: "j < n \<Longrightarrow> (replicate n False)[j := True] = marked n j []"
  by (rule nth_equalityI) (auto simp: marked_def nth_list_update)

definition amb_of :: "bool \<Rightarrow> nat \<Rightarrow> nat \<Rightarrow> nat list \<Rightarrow> ambiguity" where
  "amb_of track n j is = (if is = [] then NoAmbig else if track then AmbigSet (marked n j is) else AmbigFallback)"

lemma note_ambig_step:
  "j < n \<Longrightarrow> i < n \<Longrightarrow> note_ambig pe ok n j i (amb_of (pe \<and> ok) n j is) = amb_of (pe \<and> ok) n j (is @ [i])"
  by (auto simp: note_ambig_def amb_of_def marked_update marked_first)

lemma find_abbrev_found:
  assumes "j < n" "i + length ps \<le> n"
  shows "find_abbrev long_only pe ok name n i ps (Some (j, q), amb_of (pe \<and> ok) n j is) =
    (Some (j, q), amb_of (pe \<and> ok) n j (is @ map fst (filter (\<lambda>(i, p). starts_with name p \<and> differs long_only q p) (enumerate i ps))))"
  using assms(2)
proof (induction ps arbitrary: i "is")
  case (Cons p ps)
  then show ?case using note_ambig_step [of j n i pe ok "is"] assms(1) by simp
qed simp

lemma find_abbrev_start:
  assumes "i + length ps \<le> n"
  shows "find_abbrev long_only pe ok name n i ps (None, NoAmbig) =
    (case filter (\<lambda>(i, p). starts_with name p) (enumerate i ps) of
       [] \<Rightarrow> (None, NoAmbig)
     | (j, q) # cs \<Rightarrow> (Some (j, q), amb_of (pe \<and> ok) n j
         (map fst (filter (\<lambda>c. differs long_only q (snd c)) cs))))"
  using assms
proof (induction ps arbitrary: i)
  case (Cons p ps)
  show ?case
  proof (cases "starts_with name p")
    case True
    have "filter (\<lambda>(i, p). starts_with name p \<and> differs long_only q p) xs =
        filter (\<lambda>c. differs long_only q (snd c)) (filter (\<lambda>(i, p). starts_with name p) xs)" for q and xs :: "(nat \<times> long_option) list"
      by (induction xs) auto
    moreover have "amb_of (pe \<and> ok) n i [] = NoAmbig" by (simp add: amb_of_def)
    ultimately show ?thesis
      using find_abbrev_found [of i n "Suc i" ps long_only pe ok name p "[]"] Cons.prems True by simp
  qed (use Cons in simp)
qed simp

lemma resolve_lookup:
  "(case resolve long_only name opts of
      Found i p \<Rightarrow> lookup_long long_only pe ok name opts = (Some (i, p), NoAmbig)
    | Unknown_Name \<Rightarrow> lookup_long long_only pe ok name opts = (None, NoAmbig)
    | Ambiguous \<Rightarrow> snd (lookup_long long_only pe ok name opts) \<noteq> NoAmbig)"
proof (cases "filter (\<lambda>(i, p). o_name p = name) (enumerate 0 opts)")
  case Nil
  then have l: "lookup_long long_only pe ok name opts = find_abbrev long_only pe ok name (length opts) 0 opts (None, NoAmbig)"
    by (simp add: lookup_long_def find_exact_eq)
  have s: "find_abbrev long_only pe ok name (length opts) 0 opts (None, NoAmbig) =
    (case candidates name opts of
       [] \<Rightarrow> (None, NoAmbig)
     | (j, q) # cs \<Rightarrow> (Some (j, q), amb_of (pe \<and> ok) (length opts) j
         (map fst (filter (\<lambda>c. differs long_only q (snd c)) cs))))"
    using find_abbrev_start [of 0 opts "length opts"] by (simp add: candidates_def)
  show ?thesis
  proof (cases "candidates name opts")
    case (Cons c cs)
    obtain j q where c: "c = (j, q)" by (cases c)
    show ?thesis
    proof (cases "\<exists>c \<in> set cs. differs long_only q (snd c)")
      case True
      then have "filter (\<lambda>c. differs long_only q (snd c)) cs \<noteq> []" by (simp add: filter_empty_conv)
      then show ?thesis using l s Nil Cons c True by (simp add: resolve_def amb_of_def)
    next
      case False
      then have "filter (\<lambda>c. differs long_only q (snd c)) cs = []" by (simp add: filter_empty_conv)
      then show ?thesis using l s Nil Cons c False by (simp add: resolve_def amb_of_def)
    qed
  qed (use l s Nil in \<open>simp add: resolve_def\<close>)
next
  case (Cons f fs)
  then show ?thesis by (cases f) (simp add: lookup_long_def find_exact_eq resolve_def)
qed

section \<open>What becomes of a long option\<close>

lemma name_and_rest:
  assumes "CHR ''='' \<notin> set name" "rest = [] \<or> hd rest = CHR ''=''"
  shows "takeWhile (\<lambda>c. c \<noteq> CHR ''='') (name @ rest) = name" "dropWhile (\<lambda>c. c \<noteq> CHR ''='') (name @ rest) = rest"
proof -
  have n: "\<And>c. c \<in> set name \<Longrightarrow> c \<noteq> CHR ''=''" using assms(1) by blast
  show "takeWhile (\<lambda>c. c \<noteq> CHR ''='') (name @ rest) = name"
    using assms(2) n by (cases rest) (auto simp: takeWhile_append)
  show "dropWhile (\<lambda>c. c \<noteq> CHR ''='') (name @ rest) = rest"
    using assms(2) n by (cases rest) (auto simp: dropWhile_append)
qed

lemma long_option_found:
  assumes "resolve long_only name opts = Found i p"
    and "CHR ''='' \<notin> set name" "rest = [] \<or> hd rest = CHR ''=''"
    and "g_nextchar (l_data l) = name @ rest"
  shows "process_long_option argv optstring opts want_index long_only pe pre l w =
    consume_long argv optstring want_index pe pre i p rest l w"
proof -
  have l: "lookup_long long_only pe ok name opts = (Some (i, p), NoAmbig)" for ok
    using resolve_lookup [where long_only = long_only and name = name and opts = opts and pe = pe and ok = ok] assms(1) by simp
  show ?thesis
  proof (cases "peek argv 0")
    case None
    then show ?thesis by (simp add: process_long_option_def consume_long_def Let_def split_def)
  next
    case (Some prog)
    then show ?thesis
      using name_and_rest [OF assms(2,3)] assms(4) l by (simp add: process_long_option_def)
  qed
qed

lemma resolve_member:
  assumes "resolve long_only name opts = Found i p"
  shows "i < length opts \<and> p = opts ! i"
proof -
  have "(i, p) \<in> set (enumerate 0 opts)"
  proof (cases "filter (\<lambda>(i, p). o_name p = name) (enumerate 0 opts)")
    case Nil
    then have "\<exists>cs. candidates name opts = (i, p) # cs"
      using assms by (auto simp: resolve_def split: list.splits if_splits)
    then have "(i, p) \<in> set (candidates name opts)" by auto
    then show ?thesis by (simp add: candidates_def)
  next
    case (Cons f fs)
    then have "f = (i, p)" using assms by (cases f) (simp add: resolve_def)
    then have "(i, p) \<in> set (filter (\<lambda>(i, p). o_name p = name) (enumerate 0 opts))" using Cons by simp
    then show ?thesis by simp
  qed
  then show ?thesis by (simp add: in_set_enumerate_eq)
qed

lemma resolve_full_name:
  assumes "i < length opts" "p = opts ! i" "distinct (map o_name opts)"
  shows "resolve long_only (o_name p) opts = Found i p"
proof -
  let ?xs = "filter (\<lambda>(j, q). o_name q = o_name p) (enumerate 0 opts)"
  have only: "z = (i, p)" if "z \<in> set ?xs" for z
  proof -
    obtain j q where z: "z = (j, q)" by (cases z)
    then have "j < length opts" "q = opts ! j" "o_name q = o_name p"
      using that by (simp_all add: in_set_enumerate_eq)
    then have "j = i" using assms nth_eq_iff_index_eq [OF assms(3), of j i] by simp
    then show ?thesis using z \<open>q = opts ! j\<close> assms(2) by simp
  qed
  have "(i, p) \<in> set ?xs" using assms by (simp add: in_set_enumerate_eq)
  then obtain z ys where "?xs = z # ys" by (metis list.exhaust list.set(1) empty_iff)
  moreover have "z = (i, p)" using only [of z] calculation by (metis list.set_intros(1))
  ultimately show ?thesis by (simp add: resolve_def)
qed

text \<open>C26. An abbreviation means what the full name means: whenever the part before the equals sign
  resolves to an option, because it is the option's name or all its completions agree, the call
  does exactly what it does for the option spelled out: the same code, the same argument taken
  from the element or from the next one, the same state, the same messages. The names in the
  table must differ and contain no equals sign.\<close>

theorem abbreviation_is_full_name:
  assumes "resolve long_only name opts = Found i p"
    and "distinct (map o_name opts)" "CHR ''='' \<notin> set name" "CHR ''='' \<notin> set (o_name p)"
    and "rest = [] \<or> hd rest = CHR ''=''"
  shows "process_long_option argv optstring opts want_index long_only pe pre (l\<lparr>l_data := d\<lparr>g_nextchar := name @ rest\<rparr>\<rparr>) w =
    process_long_option argv optstring opts want_index long_only pe pre (l\<lparr>l_data := d\<lparr>g_nextchar := o_name p @ rest\<rparr>\<rparr>) w"
proof -
  have full: "resolve long_only (o_name p) opts = Found i p"
    using resolve_member [OF assms(1)] resolve_full_name assms(2) by blast
  have same: "(l_data (l\<lparr>l_data := d\<lparr>g_nextchar := n\<rparr>\<rparr>))\<lparr>g_optind := g_optind (l_data (l\<lparr>l_data := d\<lparr>g_nextchar := n\<rparr>\<rparr>)) + 1, g_nextchar := []\<rparr> =
      d\<lparr>g_optind := g_optind d + 1, g_nextchar := []\<rparr>"
    "(l\<lparr>l_data := d\<lparr>g_nextchar := n\<rparr>\<rparr>)\<lparr>l_data := d'\<rparr> = l\<lparr>l_data := d'\<rparr>" for n d'
    by simp_all
  have "consume_long argv optstring want_index pe pre i p rest (l\<lparr>l_data := d\<lparr>g_nextchar := n\<rparr>\<rparr>) w =
    consume_long argv optstring want_index pe pre i p rest (l\<lparr>l_data := d\<lparr>g_nextchar := []\<rparr>\<rparr>) w" for n
    unfolding consume_long_def Let_def same ..
  from this [of "name @ rest"] this [of "o_name p @ rest"] show ?thesis
    using long_option_found [OF assms(1,3,5), of "l\<lparr>l_data := d\<lparr>g_nextchar := name @ rest\<rparr>\<rparr>"]
      long_option_found [OF full assms(4,5), of "l\<lparr>l_data := d\<lparr>g_nextchar := o_name p @ rest\<rparr>\<rparr>"] by simp
qed

text \<open>A table with two options of the same effect and one of another.\<close>

definition sample_options :: "long_option list" where
  "sample_options = [\<lparr>o_name = ''colour'', o_has_arg = 1, o_flag = None, o_val = 99\<rparr>,
     \<lparr>o_name = ''color'', o_has_arg = 1, o_flag = None, o_val = 99\<rparr>,
     \<lparr>o_name = ''count'', o_has_arg = 1, o_flag = None, o_val = 110\<rparr>]"

definition sample_long :: long_state where
  "sample_long = \<lparr>l_data = getopt_start, l_longind = None, l_flag = (\<lambda>_. 0)\<rparr>"

theorem abbreviation_is_full_name_witness:
  "process_long_option [''ls'', ''--col=red''] [] sample_options True False True ''--''
      (sample_long\<lparr>l_data := getopt_start\<lparr>g_nextchar := ''col'' @ ''=red''\<rparr>\<rparr>) (boot sample_os) =
    process_long_option [''ls'', ''--col=red''] [] sample_options True False True ''--''
      (sample_long\<lparr>l_data := getopt_start\<lparr>g_nextchar := ''colour'' @ ''=red''\<rparr>\<rparr>) (boot sample_os)"
proof -
  have r: "resolve False ''col'' sample_options = Found 0 (sample_options ! 0)"
    "o_name (sample_options ! 0) = ''colour''" "distinct (map o_name sample_options)"
    by code_simp+
  show ?thesis
    by (rule abbreviation_is_full_name [OF r(1,3), of "''=red''", unfolded r(2)]) simp_all
qed

text \<open>A prefix that two options of different effect share is refused.\<close>

lemma sample_ambiguous: "resolve False ''co'' sample_options = Ambiguous"
  by code_simp

end
