(* ===== verification/Ref_Icmp.thy ===== *)
theory Ref_Icmp
  imports Ping_Receive
begin

text \<open>
  The reference the program is written after is GNU inetutils 2.0, whose source is in
  \<open>inetutils-2.0\<close>. This theory models its \<open>libicmp\<close>: the layout of an ICMP message
  (\<open>libicmp/icmp.h\<close>), the checksum, and the encoders and the decoder of messages. The
  theorems compare it with the program: the two checksums agree on everything an IP datagram
  can hold, the reference encodes byte for byte the packets the program sends, and what
  the reference encodes it decodes again.

  The members of \<open>icmphdr_t\<close> are offsets into a buffer (LP64: \<open>unsigned long\<close> has eight bytes).
\<close>

section \<open>Layout\<close>

definition icmp_type_off :: nat where "icmp_type_off = 0"
definition icmp_code_off :: nat where "icmp_code_off = 1"
definition icmp_cksum_off :: nat where "icmp_cksum_off = 2"
definition icmp_gwaddr_off :: nat where "icmp_gwaddr_off = 4"
definition icmp_id_off :: nat where "icmp_id_off = 4"
definition icmp_seq_off :: nat where "icmp_seq_off = 6"
definition icmp_otime_off :: nat where "icmp_otime_off = 8"
definition icmp_rtime_off :: nat where "icmp_rtime_off = 12"
definition icmp_ttime_off :: nat where "icmp_ttime_off = 16"
definition icmp_ip_off :: nat where "icmp_ip_off = 8"
definition icmp_mask_off :: nat where "icmp_mask_off = 8"
definition icmp_data_off :: nat where "icmp_data_off = 8"
definition sizeof_icmphdr :: nat where "sizeof_icmphdr = 32"

lemmas icmphdr_layout = icmp_type_off_def icmp_code_off_def icmp_cksum_off_def icmp_gwaddr_off_def
  icmp_id_off_def icmp_seq_off_def icmp_otime_off_def icmp_rtime_off_def icmp_ttime_off_def
  icmp_ip_off_def icmp_mask_off_def icmp_data_off_def sizeof_icmphdr_def

definition ICMP_ECHOREPLY :: int where "ICMP_ECHOREPLY = 0"
definition ICMP_DEST_UNREACH :: int where "ICMP_DEST_UNREACH = 3"
definition ICMP_NET_UNREACH :: int where "ICMP_NET_UNREACH = 0"
definition ICMP_HOST_UNREACH :: int where "ICMP_HOST_UNREACH = 1"
definition ICMP_PROT_UNREACH :: int where "ICMP_PROT_UNREACH = 2"
definition ICMP_PORT_UNREACH :: int where "ICMP_PORT_UNREACH = 3"
definition ICMP_FRAG_NEEDED :: int where "ICMP_FRAG_NEEDED = 4"
definition ICMP_SR_FAILED :: int where "ICMP_SR_FAILED = 5"
definition ICMP_NET_UNKNOWN :: int where "ICMP_NET_UNKNOWN = 6"
definition ICMP_HOST_UNKNOWN :: int where "ICMP_HOST_UNKNOWN = 7"
definition ICMP_HOST_ISOLATED :: int where "ICMP_HOST_ISOLATED = 8"
definition ICMP_NET_UNR_TOS :: int where "ICMP_NET_UNR_TOS = 11"
definition ICMP_HOST_UNR_TOS :: int where "ICMP_HOST_UNR_TOS = 12"
definition ICMP_PKT_FILTERED :: int where "ICMP_PKT_FILTERED = 13"
definition ICMP_PREC_VIOLATION :: int where "ICMP_PREC_VIOLATION = 14"
definition ICMP_PREC_CUTOFF :: int where "ICMP_PREC_CUTOFF = 15"
definition ICMP_SOURCE_QUENCH :: int where "ICMP_SOURCE_QUENCH = 4"
definition ICMP_REDIRECT :: int where "ICMP_REDIRECT = 5"
definition ICMP_REDIR_NET :: int where "ICMP_REDIR_NET = 0"
definition ICMP_REDIR_HOST :: int where "ICMP_REDIR_HOST = 1"
definition ICMP_REDIR_NETTOS :: int where "ICMP_REDIR_NETTOS = 2"
definition ICMP_REDIR_HOSTTOS :: int where "ICMP_REDIR_HOSTTOS = 3"
definition ICMP_ECHO :: int where "ICMP_ECHO = 8"
definition ICMP_ROUTERADV :: int where "ICMP_ROUTERADV = 9"
definition ICMP_ROUTERDISCOVERY :: int where "ICMP_ROUTERDISCOVERY = 10"
definition ICMP_TIME_EXCEEDED :: int where "ICMP_TIME_EXCEEDED = 11"
definition ICMP_EXC_TTL :: int where "ICMP_EXC_TTL = 0"
definition ICMP_EXC_FRAGTIME :: int where "ICMP_EXC_FRAGTIME = 1"
definition ICMP_PARAMETERPROB :: int where "ICMP_PARAMETERPROB = 12"
definition ICMP_TIMESTAMP :: int where "ICMP_TIMESTAMP = 13"
definition ICMP_TIMESTAMPREPLY :: int where "ICMP_TIMESTAMPREPLY = 14"
definition ICMP_INFO_REQUEST :: int where "ICMP_INFO_REQUEST = 15"
definition ICMP_INFO_REPLY :: int where "ICMP_INFO_REPLY = 16"
definition ICMP_ADDRESS :: int where "ICMP_ADDRESS = 17"
definition ICMP_ADDRESSREPLY :: int where "ICMP_ADDRESSREPLY = 18"

lemmas icmp_types = ICMP_ECHOREPLY_def ICMP_DEST_UNREACH_def ICMP_SOURCE_QUENCH_def
  ICMP_REDIRECT_def ICMP_ECHO_def ICMP_ROUTERADV_def ICMP_ROUTERDISCOVERY_def
  ICMP_TIME_EXCEEDED_def ICMP_PARAMETERPROB_def ICMP_TIMESTAMP_def ICMP_TIMESTAMPREPLY_def
  ICMP_INFO_REQUEST_def ICMP_INFO_REPLY_def ICMP_ADDRESS_def ICMP_ADDRESSREPLY_def

definition MAXIPLEN :: nat where "MAXIPLEN = 60"
definition MAXICMPLEN :: nat where "MAXICMPLEN = 76"
definition ICMP_MINLEN :: nat where "ICMP_MINLEN = 8"
definition ICMP_TSLEN :: nat where "ICMP_TSLEN = 20"
definition ICMP_MASKLEN :: nat where "ICMP_MASKLEN = 12"

lemmas icmp_sizes = MAXIPLEN_def MAXICMPLEN_def ICMP_MINLEN_def ICMP_TSLEN_def ICMP_MASKLEN_def

section \<open>32-bit fields\<close>

definition be32 :: "u32 \<Rightarrow> byte list" where
  "be32 x = [ucast (drop_bit 24 x), ucast (drop_bit 16 x), ucast (drop_bit 8 x), ucast x]"

definition store32 :: "endian \<Rightarrow> u32 \<Rightarrow> byte list" where
  "store32 e x = (case e of BE \<Rightarrow> be32 x | LE \<Rightarrow> rev (be32 x))"

fun join32 :: "byte \<Rightarrow> byte \<Rightarrow> byte \<Rightarrow> byte \<Rightarrow> u32" where
  "join32 a b c d = 16777216 * ucast a + 65536 * ucast b + 256 * ucast c + ucast d"

fun load32 :: "endian \<Rightarrow> byte list \<Rightarrow> u32" where
  "load32 BE [a, b, c, d] = join32 a b c d"
| "load32 LE [a, b, c, d] = join32 d c b a"
| "load32 _ _ = 0"

definition htonl :: "endian \<Rightarrow> u32 \<Rightarrow> u32" where
  "htonl e x = load32 e (be32 x)"

abbreviation ntohl :: "endian \<Rightarrow> u32 \<Rightarrow> u32" where
  "ntohl \<equiv> htonl"

definition peek32 :: "endian \<Rightarrow> byte list \<Rightarrow> nat \<Rightarrow> u32 option" where
  "peek32 e buf i = do { bs \<leftarrow> read_range buf i 4; Some (load32 e bs) }"

definition poke32 :: "endian \<Rightarrow> byte list \<Rightarrow> nat \<Rightarrow> u32 \<Rightarrow> byte list option" where
  "poke32 e buf i x = write_range buf i (store32 e x)"

section \<open>The checksum\<close>

text \<open>The sum is a signed \<open>int\<close>; \<open>>>\<close> on it is the arithmetic shift.\<close>

fun cksum_words :: "endian \<Rightarrow> byte list \<Rightarrow> int \<Rightarrow> int" where
  "cksum_words e (a # b # p) s = cksum_words e p (i32 (s + uint (load16 e a b)))"
| "cksum_words e [a] s = i32 (s + uint (load16 e a 0))"
| "cksum_words e [] s = s"

definition icmp_cksum :: "endian \<Rightarrow> byte list \<Rightarrow> u16" where
  "icmp_cksum e buf =
     (let sum0 = cksum_words e buf 0;
          sum1 = i32 (sum0 div 65536 + sum0 mod 65536);
          sum2 = i32 (sum1 + sum1 div 65536)
      in word_of_int (NOT sum2))"

section \<open>Encoding and decoding\<close>

text \<open>The return value, and the buffer. \<open>None\<close> is an access outside the buffer.\<close>

definition icmp_generic_encode ::
  "endian \<Rightarrow> byte list \<Rightarrow> nat \<Rightarrow> int \<Rightarrow> int \<Rightarrow> int \<Rightarrow> (int \<times> byte list) option" where
  "icmp_generic_encode e buf bufsize ty ident seqno =
     (if bufsize < ICMP_MINLEN then Some (- 1, buf)
      else do {
        b1 \<leftarrow> poke buf icmp_type_off (word_of_int ty);
        b2 \<leftarrow> poke b1 icmp_code_off 0;
        b3 \<leftarrow> poke16 e b2 icmp_cksum_off 0;
        b4 \<leftarrow> poke16 e b3 icmp_seq_off (htons e (word_of_int seqno));
        b5 \<leftarrow> poke16 e b4 icmp_id_off (htons e (word_of_int ident));
        covered \<leftarrow> read_range b5 0 bufsize;
        b6 \<leftarrow> poke16 e b5 icmp_cksum_off (icmp_cksum e covered);
        Some (0, b6)
      })"

definition icmp_echo_encode ::
  "endian \<Rightarrow> byte list \<Rightarrow> nat \<Rightarrow> int \<Rightarrow> int \<Rightarrow> (int \<times> byte list) option" where
  "icmp_echo_encode e buf bufsize ident seqno =
     icmp_generic_encode e buf bufsize ICMP_ECHO ident seqno"

text \<open>The remainder of the truncating division.\<close>

definition c_mod :: "int \<Rightarrow> int \<Rightarrow> int" where
  "c_mod a b = a - c_div a b * b"

text \<open>\<open>tv\<close> is the reading of \<open>gettimeofday\<close>: seconds and microseconds.\<close>

definition icmp_timestamp_encode ::
  "endian \<Rightarrow> int \<times> int \<Rightarrow> byte list \<Rightarrow> nat \<Rightarrow> int \<Rightarrow> int \<Rightarrow> (int \<times> byte list) option" where
  "icmp_timestamp_encode e tv buf bufsize ident seqno =
     (if bufsize < ICMP_TSLEN then Some (- 1, buf)
      else do {
        let v = htonl e (word_of_int (c_mod (fst tv) 86400 * 1000 + c_div (snd tv) 1000));
        b1 \<leftarrow> poke32 e buf icmp_otime_off v;
        b2 \<leftarrow> poke32 e b1 icmp_rtime_off v;
        b3 \<leftarrow> poke32 e b2 icmp_ttime_off v;
        (_, b4) \<leftarrow> icmp_generic_encode e b3 bufsize ICMP_TIMESTAMP ident seqno;
        Some (0, b4)
      })"

text \<open>\<open>icmp_mask\<close> is an \<open>unsigned long\<close>: the assignment clears eight bytes.\<close>

definition icmp_address_encode ::
  "endian \<Rightarrow> byte list \<Rightarrow> nat \<Rightarrow> int \<Rightarrow> int \<Rightarrow> (int \<times> byte list) option" where
  "icmp_address_encode e buf bufsize ident seqno =
     (if bufsize < ICMP_MASKLEN then Some (- 1, buf)
      else do {
        b1 \<leftarrow> write_range buf icmp_mask_off (replicate 8 0);
        (_, b2) \<leftarrow> icmp_generic_encode e b1 bufsize ICMP_ADDRESS ident seqno;
        Some (0, b2)
      })"

text \<open>
  The IP header is at offset 0, the ICMP header at the second component. The code stores the
  recomputed checksum over the received one.
\<close>

definition icmp_generic_decode ::
  "endian \<Rightarrow> byte list \<Rightarrow> nat \<Rightarrow> (int \<times> nat \<times> byte list) option" where
  "icmp_generic_decode e buf bufsize = do {
     b \<leftarrow> peek buf 0;
     let hlen = ip_hl b * 4;
     (if bufsize < hlen + ICMP_MINLEN then Some (- 1, 0, buf)
      else do {
        cksum \<leftarrow> peek16 e buf (hlen + icmp_cksum_off);
        b1 \<leftarrow> poke16 e buf (hlen + icmp_cksum_off) 0;
        covered \<leftarrow> read_range b1 hlen (bufsize - hlen);
        let computed = icmp_cksum e covered;
        b2 \<leftarrow> poke16 e b1 (hlen + icmp_cksum_off) computed;
        Some (if computed \<noteq> cksum then 1 else 0, hlen, b2)
      })
   }"

definition icmp_echo_decode ::
  "endian \<Rightarrow> byte list \<Rightarrow> nat \<Rightarrow> (int \<times> nat \<times> byte list) option" where
  "icmp_echo_decode e buf bufsize = icmp_generic_decode e buf bufsize"

section \<open>The two checksums agree\<close>

lemma uint_u16_le: "0 \<le> uint (x :: u16)" "uint (x :: u16) \<le> 65535"
  using unsigned_less [where ?'a = int, of x] by simp_all

lemma cksum_words_sum:
  assumes "0 \<le> s" "s + 65535 * ((int (length p) + 1) div 2) < 2147483648"
  shows "cksum_words e p s = s + int (wsum e p)"
  using assms
proof (induction e p s rule: cksum_words.induct)
  case (1 e a b p s)
  define x where "x = uint (load16 e a b)"
  have x: "0 \<le> x" "x \<le> 65535" using uint_u16_le by (simp_all add: x_def)
  have l: "(int (length (a # b # p)) + 1) div 2 = (int (length p) + 1) div 2 + 1" by simp
  have nn: "0 \<le> (int (length p) + 1) div 2" by simp
  have r: "s + x + 65535 * ((int (length p) + 1) div 2) < 2147483648"
    using 1(3) x unfolding l by (simp add: distrib_left)
  then have "i32 (s + x) = s + x" using nn 1(2) x by (intro i32_id) linarith+
  then show ?case using 1(1) r 1(2) x by (simp flip: x_def)
next
  case (2 e a s)
  define x where "x = uint (load16 e a 0)"
  have x: "0 \<le> x" "x \<le> 65535" using uint_u16_le by (simp_all add: x_def)
  have "s + 65535 < 2147483648" using 2(2) by simp
  then have "i32 (s + x) = s + x" using 2(1) x by (intro i32_id) linarith+
  then show ?case by (simp flip: x_def)
qed simp

text \<open>The two folds of the reference reach the same residue as the program's folding loop.\<close>

lemma two_folds:
  fixes s :: int
  assumes "0 \<le> s" "s < 2147483648"
  defines "s1 \<equiv> s div 65536 + s mod 65536"
  shows "(s1 + s1 div 65536) mod 65536 = int (oc (nat s))"
proof -
  have parts: "0 \<le> s div 65536" "s div 65536 \<le> 32767" "0 \<le> s mod 65536" "s mod 65536 \<le> 65535"
    using assms(1,2) by (simp_all add: pos_imp_zdiv_nonneg_iff)
  then have s1: "0 \<le> s1" "s1 \<le> 98302" unfolding s1_def by linarith+
  have d: "s = s1 + 65535 * (s div 65536)" unfolding s1_def using div_mult_mod_eq [of s 65536] by linarith
  define t where "t = (if s1 < 65536 then s1 else s1 - 65535)"
  have t: "(s1 + s1 div 65536) mod 65536 = t" "0 \<le> t" "t \<le> 65535" "s = 0 \<longleftrightarrow> t = 0"
  proof -
    have "s1 div 65536 = (if s1 < 65536 then 0 else 1)" using s1 by simp linarith
    then show "(s1 + s1 div 65536) mod 65536 = t"
      using s1 mod_add_self2 [of "s1 - 65535" 65536] mod_pos_pos_trivial [of "s1 - 65535" 65536]
      by (cases "s1 < 65536") (simp_all add: t_def add.commute)
    show "0 \<le> t" "t \<le> 65535" using s1 by (simp_all add: t_def)
    show "s = 0 \<longleftrightarrow> t = 0"
    proof
      assume "t = 0"
      then have "s1 = 0" using s1 by (simp add: t_def split: if_splits)
      then have "s div 65536 = 0"
        using parts unfolding s1_def by linarith
      then show "s = 0" using d \<open>s1 = 0\<close> by simp
    qed (simp add: t_def s1_def)
  qed
  have "s = t + 65535 * (if s1 < 65536 then s div 65536 else s div 65536 + 1)"
    using d by (simp add: t_def distrib_left)
  then have "s mod 65535 = t mod 65535" by (metis mod_mult_self2)
  then have "nat s mod 65535 = nat t mod 65535"
    using assms(1) t(2) by (metis nat_int nat_mod_distrib zero_le_numeral nat_numeral)
  moreover have "nat s = 0 \<longleftrightarrow> nat t = 0" using t(2,4) assms(1) by auto
  ultimately have "oc (nat s) = oc (nat t)" by (simp add: oc_eq_iff)
  also have "\<dots> = nat t" using t(3) by (intro oc_small) simp
  finally show ?thesis using t by simp
qed

lemma wsum_le: "wsum e buf \<le> 65535 * ((length buf + 1) div 2)"
proof (induction e buf rule: wsum.induct)
  case (1 e a b p)
  then show ?case using unat_u16_lt [of "load16 e a b"] by simp
next
  case (2 e a)
  then show ?case using unat_u16_lt [of "load16 e a 0"] by simp
qed simp

lemma cksum_agrees:
  assumes "length buf \<le> 65536"
  shows "icmp_cksum e buf = ft_checksum e buf"
proof -
  define s s1 where "s = cksum_words e buf 0" and "s1 = s div 65536 + s mod 65536"
  have s: "s = int (wsum e buf)" unfolding s_def
    using assms by (subst cksum_words_sum) simp_all
  have "s < 2147483648" using wsum_le [of e buf] assms unfolding s by linarith
  then have f: "(s1 + s1 div 65536) mod 65536 = int (oc (wsum e buf))"
    using two_folds [of s] by (simp add: s s1_def)
  have s1: "0 \<le> s1" "s1 \<le> 98302"
    using \<open>s < 2147483648\<close> pos_mod_bound [of 65536 s] pos_mod_sign [of 65536 s] s
    unfolding s1_def by (simp_all add: pos_imp_zdiv_nonneg_iff)
  have c: "icmp_cksum e buf = NOT (word_of_int (s1 + s1 div 65536))"
    using s1 by (simp add: icmp_cksum_def of_int_not_eq del: of_int_add flip: s_def s1_def)
  have "unat (icmp_cksum e buf) = 65535 - oc (wsum e buf)"
    unfolding c unat_not_u16 by (simp add: unsigned_of_int take_bit_int_def f del: of_int_add)
  then show ?thesis using assms by (simp add: unat_ft_checksum word_unat_eq_iff)
qed

text \<open>C22. The program's checksum is the reference's, for every message an IP datagram can carry and
  on hosts of either byte order, although the reference sums in a signed \<open>int\<close> and folds exactly
  twice where the program loops.\<close>

theorem checksum_is_reference:
  assumes "length buf \<le> 65536"
  shows "ft_checksum e buf = icmp_cksum e buf"
  using cksum_agrees [OF assms] by simp

theorem checksum_is_reference_witness: "ft_checksum LE [8, 0, 0, 0, 1] = icmp_cksum LE [8, 0, 0, 0, 1]"
  by (rule checksum_is_reference) simp

section \<open>What the encoders write\<close>

text \<open>The message with its checksum in place.\<close>

definition icmp_message :: "endian \<Rightarrow> byte \<Rightarrow> u16 \<Rightarrow> u16 \<Rightarrow> byte list \<Rightarrow> byte list" where
  "icmp_message e ty ident seqno payload =
     (let body = (\<lambda>c0 c1. [ty, 0, c0, c1, hi8 ident, lo8 ident, hi8 seqno, lo8 seqno] @ payload);
          ck = icmp_cksum e (body 0 0)
      in body (store16_0 e ck) (store16_1 e ck))"

lemma length_icmp_message [simp]: "length (icmp_message e ty i q p) = 8 + length p"
  by (simp add: icmp_message_def Let_def)

lemma generic_encode_eq:
  assumes "length hdr = 8"
  shows "icmp_generic_encode e (hdr @ payload @ rest) (8 + length payload) ty ident seqno =
    Some (0, icmp_message e (word_of_int ty) (word_of_int ident) (word_of_int seqno) payload @ rest)"
proof -
  obtain a b c d f g h i q where h8: "hdr = [a, b, c, d, f, g, h, i] @ q"
    using eight_bytes [of hdr] assms by (metis order_refl)
  then have h: "hdr = [a, b, c, d, f, g, h, i]" using assms by simp
  show ?thesis
    by (simp add: icmp_generic_encode_def h icmphdr_layout icmp_sizes poke_def poke16_def
        read_range_def store_htons store_zero icmp_message_def Let_def eval_nat_numeral)
qed

text \<open>C23. Given the same payload, identifier and sequence number, the reference builds byte for byte
  the packet the program sends: wherever the reference encodes an echo request into its buffer,
  what stands there is the program's abstract probe, and nothing after it is touched.\<close>

theorem reference_encodes_probe:
  assumes "wf_ctx ctx" "length hdr = 8" "ctx_id ctx = htons e (word_of_int ident)"
    and "word_of_int seqno = sq"
  shows "icmp_echo_encode e (hdr @ payload_spec ctx e t @ rest) (8 + payload_len ctx) ident seqno =
    Some (0, echo_request ctx e sq t @ rest)"
proof -
  have l: "length ([8, 0, 0, 0, hi8 i, lo8 i, hi8 q, lo8 q] @ payload_spec ctx e t) \<le> 65536" for i q
    using assms(1) by (simp add: wf_ctx_def)
  have "icmp_message e 8 (word_of_int ident) sq (payload_spec ctx e t) = echo_request ctx e sq t"
    unfolding icmp_message_def echo_request_def cksum_agrees [OF l] assms(3) store_htons Let_def ..
  then show ?thesis
    using generic_encode_eq [OF assms(2), of e "payload_spec ctx e t" rest ICMP_ECHO ident seqno] assms(4)
    by (simp add: icmp_echo_encode_def ICMP_ECHO_def)
qed

theorem reference_encodes_probe_witness:
  "icmp_echo_encode LE (replicate 8 0xAA @ payload_spec sample_ctx LE zero_ts @ []) (8 + payload_len sample_ctx) 0x1234 7 =
     Some (0, echo_request sample_ctx LE 7 zero_ts @ [])"
  by (rule reference_encodes_probe, rule wf_sample(1))
    (simp_all add: sample_ctx_def bswap16_def load16.simps lo8_def hi8_def)

section \<open>Decoding\<close>

text \<open>What the decoder does to a datagram at the front of the buffer.\<close>

lemma generic_decode_eq:
  assumes "dg \<noteq> []" "ihl_of dg + 8 \<le> length dg" "length dg \<le> 65535"
  defines "m \<equiv> icmp_of dg"
  shows "\<exists>b. icmp_generic_decode e (dg @ rest) (length dg) =
    Some (if ft_checksum e (clear_field m) \<noteq> field e m then 1 else 0, ihl_of dg, b) \<and>
    (ft_checksum e (clear_field m) = field e m \<longrightarrow> b = dg @ rest)"
proof -
  let ?B = "dg @ rest" and ?i = "ihl_of dg"
  have z: "peek ?B 0 = Some (dg ! 0)" "ip_hl (dg ! 0) * 4 = ?i"
    using assms(1) by (simp_all add: peek_def nth_append ihl_of_def ip_hl_def)
  have f: "peek16 e ?B (?i + 2) = Some (field e m)"
    using assms(2) by (simp add: peek16_def field_def m_def icmp_of_def icmp_layout nth_append eval_nat_numeral)
  have p0: "poke16 e ?B (?i + 2) 0 = Some (dg[?i + 2 := 0, ?i + 2 + 1 := 0] @ rest)"
    using assms(2) by (simp add: poke16_def list_update_append)
  have c: "read_range (dg[?i + 2 := 0, ?i + 2 + 1 := 0] @ rest) ?i (length dg - ?i) = Some (clear_field m)"
    using assms(2) by (simp add: read_range_def drop_update_swap clear_field_def m_def icmp_of_def icmp_layout)
  have l: "length (clear_field m) \<le> 65536" using assms(3) by (simp add: clear_field_def m_def icmp_of_def)
  define ck where "ck = ft_checksum e (clear_field m)"
  have p1: "poke16 e (dg[?i + 2 := 0, ?i + 2 + 1 := 0] @ rest) (?i + 2) ck =
      Some ((dg[?i + 2 := 0, ?i + 2 + 1 := 0] @ rest)[?i + 2 := store16_0 e ck, ?i + 2 + 1 := store16_1 e ck])"
    using assms(2) by (simp add: poke16_def)
  have same: "(dg[?i + 2 := 0, ?i + 2 + 1 := 0] @ rest)[?i + 2 := store16_0 e ck, ?i + 2 + 1 := store16_1 e ck] = ?B"
    if "ck = field e m"
  proof -
    have "poke16 e (dg[?i + 2 := 0, ?i + 2 + 1 := 0] @ rest) (?i + 2) (field e (drop ?i dg)) = Some ?B"
      using checksum_ok_restores [OF assms(2)] .
    then show ?thesis using p1 that by (simp add: m_def icmp_of_def)
  qed
  show ?thesis
    unfolding icmp_generic_decode_def z Option.bind.simps Let_def icmp_cksum_off_def f p0 c
      cksum_agrees [OF l] ck_def [symmetric] p1
    using assms(2) same by (auto simp: ICMP_MINLEN_def)
qed

lemma generic_decode_short:
  assumes "dg \<noteq> []" "length dg < ihl_of dg + 8"
  shows "icmp_generic_decode e (dg @ rest) (length dg) = Some (- 1, 0, dg @ rest)"
  using assms by (simp add: icmp_generic_decode_def peek_def nth_append ihl_of_def ip_hl_def
      ICMP_MINLEN_def mult.commute Let_def)

text \<open>C24. What the reference's decoder and the program's receiver make of the same bytes, for every
  non-empty datagram an IP packet can carry. Where \<open>locate_icmp\<close> finds the ICMP header, the
  decoder finds it at the same place and reports a checksum mismatch exactly when \<open>checksum_ok\<close>
  is false; a message with a correct checksum leaves the buffer restored by both. Where
  \<open>locate_icmp\<close> gives -1, the decoder does so too if the datagram ends before the header is
  complete; otherwise the IP header claims less than 20 bytes, which only the program refuses:
  the reference tests no lower bound and decodes at the claimed offset.\<close>

theorem decode_agrees_with_program:
  assumes "dg \<noteq> []" "length dg \<le> 65535"
  shows "if locate_icmp (dg @ rest) (length dg) = Some (int (ihl_of dg))
    then \<exists>ok b. checksum_ok e (dg @ rest) (ihl_of dg) (length dg - ihl_of dg) = Some (ok, dg @ rest) \<and>
      icmp_generic_decode e (dg @ rest) (length dg) = Some (if ok then 0 else 1, ihl_of dg, b) \<and>
      (ok \<longrightarrow> b = dg @ rest)
    else locate_icmp (dg @ rest) (length dg) = Some (- 1) \<and>
      (if length dg < ihl_of dg + 8
       then icmp_generic_decode e (dg @ rest) (length dg) = Some (- 1, 0, dg @ rest)
       else ihl_of dg < 20 \<and>
         (\<exists>rc b. icmp_generic_decode e (dg @ rest) (length dg) = Some (rc, ihl_of dg, b) \<and> rc \<in> {0, 1}))"
proof (cases "length dg < ihl_of dg + 8")
  case True
  then show ?thesis using locate_icmp_spec [of dg rest] generic_decode_short [OF assms(1)] by simp
next
  case False
  then have b: "ihl_of dg + 8 \<le> length dg" by simp
  obtain bf where d: "icmp_generic_decode e (dg @ rest) (length dg) =
      Some (if ft_checksum e (clear_field (icmp_of dg)) \<noteq> field e (icmp_of dg) then 1 else 0, ihl_of dg, bf)"
    "ft_checksum e (clear_field (icmp_of dg)) = field e (icmp_of dg) \<longrightarrow> bf = dg @ rest"
    using generic_decode_eq [OF assms(1) b assms(2), of e rest] by blast
  show ?thesis
  proof (cases "20 \<le> ihl_of dg")
    case True
    then show ?thesis
      using b d locate_icmp_spec [of dg rest] checksum_ok_spec [OF b, of e rest] by (auto simp: icmp_of_def)
  next
    case False
    then show ?thesis using b d locate_icmp_spec [of dg rest] by auto
  qed
qed

theorem decode_agrees_with_program_witness:
  "(\<exists>b. checksum_ok LE (sample_reply @ []) 20 12 = Some (True, sample_reply @ []) \<and>
     icmp_generic_decode LE (sample_reply @ []) 32 = Some (0, 20, b)) \<and>
   locate_icmp (replicate 32 0 @ []) 32 = Some (- 1) \<and>
   (\<exists>rc b. icmp_generic_decode LE (replicate 32 0 @ []) 32 = Some (rc, 0, b))"
proof -
  have s: "ihl_of sample_reply = 20" "length sample_reply = 32" "sample_reply \<noteq> []"
    "locate_icmp (sample_reply @ []) 32 = Some 20"
    "checksum_ok LE (sample_reply @ []) 20 12 = Some (True, sample_reply @ [])"
    by code_simp+
  have z: "ihl_of (replicate 32 0) = 0" "locate_icmp (replicate 32 0 @ []) 32 = Some (- 1)"
    by code_simp+
  show ?thesis
    using decode_agrees_with_program [OF s(3), of "[]" LE]
      decode_agrees_with_program [of "replicate 32 0" "[]" LE] by (auto simp: s z simp del: append_Nil2)
qed

lemma clear_icmp_message:
  "clear_field (icmp_message e ty i q p) = [ty, 0, 0, 0, hi8 i, lo8 i, hi8 q, lo8 q] @ p"
  "field e (icmp_message e ty i q p) = icmp_cksum e ([ty, 0, 0, 0, hi8 i, lo8 i, hi8 q, lo8 q] @ p)"
  by (simp_all add: icmp_message_def clear_field_def field_def icmp_layout Let_def eval_nat_numeral)

lemma load16_BE_bytes [simp]: "load16 BE (hi8 w) (lo8 w) = w"
  by (rule load16_hi_lo)

text \<open>C25. What the reference encodes it decodes: a message behind an IP header whose length field is
  right is found at its place, with an intact checksum and the type, identifier and sequence
  number it was encoded with.\<close>

theorem decode_encoded:
  assumes "iph \<noteq> []" "ihl_of iph = length iph" "length hdr = 8"
    and "length iph + 8 + length payload \<le> 65535"
    and "icmp_generic_encode e (hdr @ payload) (8 + length payload) ty ident seqno = Some (rc, msg)"
  shows "rc = 0 \<and>
    icmp_generic_decode e (iph @ msg @ rest) (length iph + length msg) = Some (0, length iph, iph @ msg @ rest) \<and>
    msg ! icmp_type_off = word_of_int ty \<and>
    load16 BE (msg ! icmp_id_off) (msg ! (icmp_id_off + 1)) = word_of_int ident \<and>
    load16 BE (msg ! icmp_seq_off) (msg ! (icmp_seq_off + 1)) = word_of_int seqno"
proof -
  have m: "msg = icmp_message e (word_of_int ty) (word_of_int ident) (word_of_int seqno) payload" "rc = 0"
    using generic_encode_eq [OF assms(3), of e payload "[]" ty ident seqno] assms(5) by simp_all
  have i: "ihl_of (iph @ msg) = length iph" using assms(1,2) by (simp add: ihl_of_def nth_append)
  then have o: "icmp_of (iph @ msg) = msg" by (simp add: icmp_of_def)
  have l: "length ([word_of_int ty, 0, 0, 0, hi8 i, lo8 i, hi8 q, lo8 q] @ payload) \<le> 65536" for i q
    using assms(4) by simp
  have ok: "ft_checksum e (clear_field msg) = field e msg"
    unfolding m(1) clear_icmp_message cksum_agrees [OF l] ..
  have f: "msg ! 0 = word_of_int ty" "msg ! 4 = hi8 (word_of_int ident)" "msg ! 5 = lo8 (word_of_int ident)"
    "msg ! 6 = hi8 (word_of_int seqno)" "msg ! 7 = lo8 (word_of_int seqno)"
    by (simp_all add: m(1) icmp_message_def Let_def)
  have lm: "length msg = 8 + length payload" by (simp add: m(1))
  have "iph @ msg \<noteq> []" "ihl_of (iph @ msg) + 8 \<le> length (iph @ msg)" "length (iph @ msg) \<le> 65535"
    using assms(1,4) i lm by simp_all
  from generic_decode_eq [OF this, of e rest] have
    "icmp_generic_decode e (iph @ msg @ rest) (length iph + length msg) = Some (0, length iph, iph @ msg @ rest)"
    using ok unfolding o i by auto
  then show ?thesis using m(2) f by (simp add: icmphdr_layout)
qed

theorem decode_encoded_witness:
  "\<exists>msg. icmp_generic_encode LE (replicate 8 0xAA @ [1, 2, 3]) (8 + length [1, 2, 3 :: byte]) 13 0x1234 7 = Some (0, msg) \<and>
     icmp_generic_decode LE ((0x45 # replicate 19 0) @ msg @ []) (length (0x45 # replicate 19 (0 :: byte)) + length msg) =
       Some (0, length (0x45 # replicate 19 (0 :: byte)), (0x45 # replicate 19 0) @ msg @ []) \<and>
     msg ! icmp_type_off = 13"
proof -
  let ?iph = "0x45 # replicate 19 0 :: byte list"
  have e: "icmp_generic_encode LE (replicate 8 0xAA @ [1, 2, 3]) (8 + length [1, 2, 3 :: byte]) 13 0x1234 7 =
      Some (0, icmp_message LE 13 0x1234 7 [1, 2, 3] @ [])"
    using generic_encode_eq [where hdr = "replicate 8 0xAA" and e = LE and payload = "[1, 2, 3]"
        and rest = "[]" and ty = 13 and ident = "0x1234" and seqno = 7] by simp
  have "?iph \<noteq> []" "ihl_of ?iph = length ?iph" "length (replicate 8 0xAA :: byte list) = 8"
    "length ?iph + 8 + length [1, 2, 3 :: byte] \<le> 65535"
    by (simp_all add: ihl_of_def)
  from decode_encoded [OF this e [unfolded append_Nil2], where rest = "[]"] show ?thesis using e by auto
qed

end
