(* ===== verification/Ref_Common.thy ===== *)
theory Ref_Common
  imports Ref_Icmp
begin

text \<open>
  \<open>inetutils-2.0/ping/ping_common.h\<close> and \<open>ping_common.c\<close>: the state of the reference and the
  helpers its parts share. The state of a run is the record \<open>ref_state\<close>: the \<open>PING\<close> structure (every
  pointer to one in the code points to the single one the global variable \<open>ping\<close> holds), the
  global variables of \<open>ping.c\<close>, the two static variables of \<open>print_ip_opt\<close>, the kernel of the
  other theories, and the answers of the calls only the reference makes (\<open>ref_os\<close>).

  \<open>xmalloc\<close> and \<open>xstrdup\<close> are taken to succeed (they end the program otherwise); \<open>malloc\<close> may
  fail. \<open>error\<close> with a non-zero status ends the program: such an end is \<open>Inl status\<close> of a result,
  a normal return \<open>Inr\<close>, and \<open>None\<close> is an access outside an object or a loop without end.
  Counters of type \<open>size_t\<close> are natural numbers.
\<close>

section \<open>Constants\<close>

definition MAXWAIT :: int where "MAXWAIT = 10"
definition MAXPATTERN :: nat where "MAXPATTERN = 16"
definition OPT_FLOOD :: u32 where "OPT_FLOOD = 0x001"
definition OPT_INTERVAL :: u32 where "OPT_INTERVAL = 0x002"
definition OPT_NUMERIC :: u32 where "OPT_NUMERIC = 0x004"
definition OPT_QUIET :: u32 where "OPT_QUIET = 0x008"
definition OPT_RROUTE :: u32 where "OPT_RROUTE = 0x010"
definition OPT_VERBOSE :: u32 where "OPT_VERBOSE = 0x020"
definition OPT_IPTIMESTAMP :: u32 where "OPT_IPTIMESTAMP = 0x040"
definition SOPT_TSONLY :: u32 where "SOPT_TSONLY = 0x001"
definition SOPT_TSADDR :: u32 where "SOPT_TSADDR = 0x002"
definition SOPT_TSPRESPEC :: u32 where "SOPT_TSPRESPEC = 0x004"

lemmas opt_bits = OPT_FLOOD_def OPT_INTERVAL_def OPT_NUMERIC_def OPT_QUIET_def OPT_RROUTE_def
  OPT_VERBOSE_def OPT_IPTIMESTAMP_def SOPT_TSONLY_def SOPT_TSADDR_def SOPT_TSPRESPEC_def

definition PEV_RESPONSE :: int where "PEV_RESPONSE = 0"
definition PEV_DUPLICATE :: int where "PEV_DUPLICATE = 1"
definition PEV_NOECHO :: int where "PEV_NOECHO = 2"
definition PING_CKTABSIZE :: nat where "PING_CKTABSIZE = 128"
definition DEFAULT_PING_COUNT :: nat where "DEFAULT_PING_COUNT = 0"
definition PING_HEADER_LEN :: nat where "PING_HEADER_LEN = ICMP_MINLEN"
definition sizeof_timeval :: nat where "sizeof_timeval = 16"
definition PING_TIMING :: "nat \<Rightarrow> bool" where "PING_TIMING s \<longleftrightarrow> sizeof_timeval \<le> s"
definition PING_DATALEN :: nat where "PING_DATALEN = 64 - PING_HEADER_LEN"
definition PING_DEFAULT_INTERVAL :: nat where "PING_DEFAULT_INTERVAL = 1000"
definition PING_PRECISION :: int where "PING_PRECISION = 1000"

type_synonym timeval = "int \<times> int"

definition PING_SET_INTERVAL :: "nat \<Rightarrow> timeval" where
  "PING_SET_INTERVAL i = (int i div PING_PRECISION, int i mod PING_PRECISION * (1000000 div PING_PRECISION))"

definition PING_MIN_USER_INTERVAL :: int where "PING_MIN_USER_INTERVAL = 200000 div PING_PRECISION"

text \<open>\<open>_PING_BUFLEN (p, u)\<close>, a \<open>size_t\<close>.\<close>

definition sizeof_icmp6_hdr :: nat where "sizeof_icmp6_hdr = 8"

definition ping_buflen :: "bool \<Rightarrow> nat \<Rightarrow> nat" where
  "ping_buflen use_ipv6 datalen =
     (if use_ipv6 then datalen + sizeof_icmp6_hdr else MAXIPLEN + datalen + ICMP_TSLEN) mod 18446744073709551616"

section \<open>State\<close>

record ping_stat =
  tmin :: double
  tmax :: double
  tsum :: double
  tsumsq :: double

text \<open>The functions the code stores in \<open>ping_event.handler\<close>.\<close>

datatype event_handler = EchoHandler | RecvTimestamp | RecvAddress

record 'n ping_data =
  ping_type :: int
  ping_count :: nat
  ping_start_time :: timeval
  ping_interval :: nat
  ping_dest :: 'n
  ping_hostname :: string
  ping_datalen :: nat
  ping_ident :: int
  ping_event :: "event_handler option"
  ping_closure :: ping_stat
  ping_cktab_size :: nat
  ping_cktab :: "byte list option"
  ping_buffer :: "byte list option"
  ping_from :: 'n
  ping_num_xmit :: nat
  ping_num_recv :: nat
  ping_num_rept :: nat

text \<open>
  Answers to the calls of the reference alone: the sender of the k-th datagram and the control messages that came with it, the bytes the
  k-th accepted \<open>sendto\<close> reports, the two uses of \<open>getnameinfo\<close> (a message on failure), \<open>gethostbyaddr\<close>
  with a name that may be null, \<open>getaddrinfo\<close> with a canonical name that may be null, and the
  privileges. \<open>'n\<close> is the type of addresses.
\<close>

text \<open>A control message: its level, its type, and the \<open>int\<close> its data starts with.\<close>

type_synonym cmsg = "int \<times> int \<times> int"

record 'n ref_os =
  n_from :: "nat \<Rightarrow> 'n"
  n_cmsg :: "nat \<Rightarrow> cmsg list"
  n_wrote :: "nat \<Rightarrow> int"
  n_numeric :: "'n \<Rightarrow> string + string"
  n_named :: "'n \<Rightarrow> string option"
  n_byaddr :: "ipv4 \<Rightarrow> string option option"
  n_getaddrinfo :: "string \<Rightarrow> ('n \<times> string option) option"
  n_malloc_ping :: bool
  n_malloc_buffer :: "nat \<Rightarrow> byte list option"
  n_malloc_cktab :: "nat \<Rightarrow> byte list option"
  n_protocol :: bool
  n_socket_raw :: "errno option"
  n_socket_dgram :: "errno option"
  n_setsockopt :: "string \<Rightarrow> byte list \<Rightarrow> errno option"
  n_getuid :: int
  n_setuid :: "errno option"

datatype request = Echo | Timestamp | AddressMask

record 'n ref_state =
  kern :: world
  r_prog :: string
  net_os :: "'n ref_os"
  r_ping :: "'n ping_data"
  r_is_root :: bool
  r_data_buffer :: "byte list option"
  r_patptr :: "byte list option"
  r_pattern_len :: int
  r_socket_type :: u32
  r_count :: nat
  r_interval :: nat
  r_data_length :: nat
  r_options :: u32
  r_suboptions :: u32
  r_preload :: nat
  r_tos :: int
  r_ttl :: int
  r_timeout :: int
  r_linger :: int
  r_ping_type :: request
  r_useless_ident :: nat
  r_old_rrlen :: int
  r_old_rr :: "byte list"

text \<open>The two programs: \<open>ping\<close> with IPv4 addresses; \<open>ping6\<close> is in the theories \<open>Ref6_Lib\<close> and \<open>Ref6_Main\<close>.\<close>

type_synonym PING = "ipv4 ping_data"
type_synonym ref = "ipv4 ref_state"

definition has_opt :: "'n ref_state \<Rightarrow> u32 \<Rightarrow> bool" where
  "has_opt s flag \<longleftrightarrow> r_options s AND flag \<noteq> 0"

definition out :: "string \<Rightarrow> 'n ref_state \<Rightarrow> 'n ref_state" where
  "out t s = s\<lparr>kern := emit (Stdout t) (kern s)\<rparr>"

definition complain :: "string \<Rightarrow> 'n ref_state \<Rightarrow> 'n ref_state" where
  "complain t s = s\<lparr>kern := emit (Stderr t) (kern s)\<rparr>"

text \<open>\<open>error (EXIT_FAILURE, 0, \<dots>)\<close> and \<open>error (EXIT_FAILURE, errno, \<dots>)\<close>.\<close>

definition die :: "string \<Rightarrow> 'n ref_state \<Rightarrow> (int + 'a) \<times> 'n ref_state" where
  "die msg s = (Inl 1, complain (r_prog s @ '': '' @ msg @ nl) s)"

definition die_errno :: "errno \<Rightarrow> string \<Rightarrow> 'n ref_state \<Rightarrow> (int + 'a) \<times> 'n ref_state" where
  "die_errno err msg s = (Inl 1, s\<lparr>kern := emit (Perror (r_prog s @ '': '' @ msg) err) (kern s)\<rparr>)"

text \<open>Going on unless the program has ended.\<close>

definition unless_ended ::
  "(int + 'a) \<times> 'n ref_state \<Rightarrow> ('a \<Rightarrow> 'n ref_state \<Rightarrow> ((int + 'b) \<times> 'n ref_state) option) \<Rightarrow> ((int + 'b) \<times> 'n ref_state) option" where
  "unless_ended r f = (case r of (Inl status, s) \<Rightarrow> Some (Inl status, s) | (Inr x, s) \<Rightarrow> f x s)"

definition ref_endian :: "'n ref_state \<Rightarrow> endian" where
  "ref_endian s = host_endian (kern s)"

text \<open>\<open>gettimeofday\<close>: the next reading of the clock, in microseconds.\<close>

definition gettimeofday :: "'n ref_state \<Rightarrow> timeval \<times> 'n ref_state" where
  "gettimeofday s = (let (t, w) = clock_gettime (kern s) in ((tv_sec t, tv_nsec t div 1000), s\<lparr>kern := w\<rparr>))"

text \<open>\<open>inet_ntoa\<close>.\<close>

abbreviation inet_ntoa :: "ipv4 \<Rightarrow> string" where
  "inet_ntoa \<equiv> dotted_quad"

section \<open>The table of received sequence numbers\<close>

text \<open>\<open>_C_IND\<close>, \<open>_PING_SET\<close>, \<open>_PING_CLR\<close> and \<open>_PING_TST\<close>: one bit per sequence number modulo the table size.\<close>

definition c_ind :: "'n ping_data \<Rightarrow> nat \<Rightarrow> nat" where
  "c_ind p sq = sq mod (8 * ping_cktab_size p)"

definition c_mask :: "nat \<Rightarrow> byte" where
  "c_mask n = push_bit (n mod 8) 1"

definition ping_set :: "'n ping_data \<Rightarrow> nat \<Rightarrow> 'n ping_data option" where
  "ping_set p sq = do {
     tab \<leftarrow> ping_cktab p;
     let n = c_ind p sq;
     b \<leftarrow> peek tab (n div 8);
     tab1 \<leftarrow> poke tab (n div 8) (b OR c_mask n);
     Some (p\<lparr>ping_cktab := Some tab1\<rparr>)
   }"

definition ping_clr :: "'n ping_data \<Rightarrow> nat \<Rightarrow> 'n ping_data option" where
  "ping_clr p sq = do {
     tab \<leftarrow> ping_cktab p;
     let n = c_ind p sq;
     b \<leftarrow> peek tab (n div 8);
     tab1 \<leftarrow> poke tab (n div 8) (b AND NOT (c_mask n));
     Some (p\<lparr>ping_cktab := Some tab1\<rparr>)
   }"

definition ping_tst :: "'n ping_data \<Rightarrow> nat \<Rightarrow> bool option" where
  "ping_tst p sq = do {
     tab \<leftarrow> ping_cktab p;
     let n = c_ind p sq;
     b \<leftarrow> peek tab (n div 8);
     Some (b AND c_mask n \<noteq> 0)
   }"

end
