(* ===== verification/Ref_Helpers.thy ===== *)
theory Ref_Helpers
  imports Ref_Common
begin

text \<open>
  The functions of \<open>inetutils-2.0/ping/ping_common.c\<close>: number and pattern arguments, the data
  buffer, time differences, the square root, the buffers of a \<open>PING\<close>, and the text of addresses.
\<close>

section \<open>Arguments\<close>

text \<open>
  \<open>strtoul (s, &end, 0)\<close> for a 64-bit \<open>unsigned long\<close>: the base comes from the prefix, a minus sign
  negates in unsigned arithmetic, a value out of range is \<open>ULONG_MAX\<close>. The value and the rest.
\<close>

definition strtoul0 :: "string \<Rightarrow> int \<times> string" where
  "strtoul0 s =
     (let (neg, s1) = strip_sign (dropWhile c_isspace s);
          (b, s2) = (if hex_prefix s1 \<and> starts_hex (drop 2 s1) then (16, drop 2 s1)
                     else if take 1 s1 = ''0'' then (8, s1) else (10, s1));
          ds = takeWhile (is_base_digit b) s2;
          v = digits_value b ds
      in if ds = [] then (0, s)
         else (if 18446744073709551615 < v then 18446744073709551615
               else if neg then (- v) mod 18446744073709551616 else v,
               dropWhile (is_base_digit b) s2))"

definition ping_cvt_number :: "string \<Rightarrow> int \<Rightarrow> bool \<Rightarrow> 'n ref_state \<Rightarrow> (int + int) \<times> 'n ref_state" where
  "ping_cvt_number arg maxval allow_zero s =
     (let (n, p) = strtoul0 arg in
      if p \<noteq> [] then die (''invalid value (`'' @ arg @ [CHR 0x27] @ '' near `'' @ p @ [CHR 0x27] @ '')'') s
      else if n = 0 \<and> \<not> allow_zero then die (''option value too small: '' @ arg) s
      else if maxval \<noteq> 0 \<and> maxval < n then die (''option value too big: '' @ arg) s
      else (Inr n, s))"

text \<open>The loop over the data buffer: \<open>*p = pat[i]; if (++i >= len) i = 0\<close>.\<close>

fun repeat_pattern :: "byte list \<Rightarrow> nat \<Rightarrow> nat \<Rightarrow> nat \<Rightarrow> byte list option" where
  "repeat_pattern pat len i 0 = Some []"
| "repeat_pattern pat len i (Suc n) = do {
     b \<leftarrow> peek pat i;
     bs \<leftarrow> repeat_pattern pat len (if len \<le> i + 1 then 0 else i + 1) n;
     Some (b # bs)
   }"

definition init_data_buffer :: "byte list option \<Rightarrow> nat \<Rightarrow> 'n ref_state \<Rightarrow> 'n ref_state option" where
  "init_data_buffer pat len s =
     (if r_data_length s = 0 then Some s
      else (case pat of
          Some p \<Rightarrow> do {
            bs \<leftarrow> repeat_pattern p len 0 (r_data_length s);
            Some (s\<lparr>r_data_buffer := Some bs\<rparr>)
          }
        | None \<Rightarrow> Some (s\<lparr>r_data_buffer := Some (map of_nat [0..<r_data_length s])\<rparr>)))"

text \<open>
  \<open>sscanf (text, "%2x%n", &c, &off)\<close>: white space, then at most two characters of an optional sign
  and hexadecimal digits; the two characters \<open>0x\<close> are a prefix of a number, not a number. The
  value and the characters used, or a matching failure.
\<close>

definition scan_2x :: "string \<Rightarrow> (int \<times> nat) option" where
  "scan_2x txt =
     (let sp = length (takeWhile c_isspace txt);
          r = dropWhile c_isspace txt;
          (neg, r1) = strip_sign r;
          sg = length r - length r1;
          item = take (2 - sg) r1;
          ds = takeWhile (is_base_digit 16) item
      in if ds = [] \<or> hex_prefix item then None
         else Some ((if neg then - digits_value 16 ds else digits_value 16 ds), sp + sg + length ds))"

function ref_decode_loop ::
  "string \<Rightarrow> nat \<Rightarrow> nat \<Rightarrow> byte list \<Rightarrow> 'n ref_state \<Rightarrow> (((int + nat \<times> byte list) \<times> 'n ref_state) option)" where
  "ref_decode_loop txt len i data s =
     (if txt \<noteq> [] \<and> i < len
      then (case scan_2x txt of
          None \<Rightarrow> Some (die (''error in pattern near '' @ txt) s)
        | Some (c, off) \<Rightarrow> do {
            data1 \<leftarrow> poke data i (word_of_int c);
            ref_decode_loop (drop off txt) len (i + 1) data1 s
          })
      else Some (Inr (i, data), s))"
  by pat_completeness auto
termination
  by (relation "measure (\<lambda>(txt, len, i, data, s). len - i)") auto

declare ref_decode_loop.simps [simp del]

definition ref_decode_pattern ::
  "string \<Rightarrow> int \<Rightarrow> byte list \<Rightarrow> 'n ref_state \<Rightarrow> (((int + nat \<times> byte list) \<times> 'n ref_state) option)" where
  "ref_decode_pattern txt plen data s = ref_decode_loop txt (nat plen) 0 data s"

section \<open>Time\<close>

definition tvsub :: "timeval \<Rightarrow> timeval \<Rightarrow> timeval" where
  "tvsub t1 t0 =
     (let usec = snd t1 - snd t0;
          (sec, usec1) = (if usec < 0 then (fst t1 - 1, usec + 1000000) else (fst t1, usec))
      in (sec - fst t0, usec1))"

definition ping_timeout_p :: "timeval \<Rightarrow> int \<Rightarrow> 'n ref_state \<Rightarrow> bool \<times> 'n ref_state" where
  "ping_timeout_p start_time limit s =
     (let (now, s1) = gettimeofday s in
      (limit \<noteq> - 1 \<and> limit \<le> fst (tvsub now start_time), s1))"

definition is_normed_time :: "u32 \<Rightarrow> bool" where
  "is_normed_time t \<longleftrightarrow> t AND push_bit 31 1 = 0"

definition ping_cvt_time :: "nat \<Rightarrow> u32 \<Rightarrow> string" where
  "ping_cvt_time buflen t =
     (let t_red = t AND (push_bit 31 1 - 1)
      in take (buflen - 1) (if is_normed_time t then dec (uint t_red)
                            else ''<'' @ dec (uint t_red) @ ''>''))"

section \<open>The square root\<close>

definition nabs :: "double \<Rightarrow> double" where
  "nabs a = (if dlt a (Fin 0) then dneg a else a)"

definition nsqrt_next :: "double \<Rightarrow> double \<Rightarrow> double" where
  "nsqrt_next a x0 = ddiv (dadd x0 (ddiv a x0)) (Fin 2)"

partial_function (option) nsqrt_loop :: "double \<Rightarrow> double \<Rightarrow> double \<Rightarrow> double option" where
  "nsqrt_loop a prec x0 =
     (let x1 = nsqrt_next a x0 in
      if dlt prec (nabs (dsub x1 x0)) then nsqrt_loop a prec x1 else Some x1)"

definition nsqrt :: "double \<Rightarrow> double \<Rightarrow> double option" where
  "nsqrt a prec =
     (if dlt a (Fin 0) then Some (Fin 0)
      else if dlt a prec then Some (Fin 0)
      else nsqrt_loop a prec (ddiv a (Fin 2)))"

section \<open>The buffers of a \<open>PING\<close>\<close>

text \<open>\<open>_ping_setbuf\<close>: 0, or -1 when \<open>malloc\<close> fails.\<close>

definition ping_setbuf :: "bool \<Rightarrow> 'n ref_state \<Rightarrow> int \<times> 'n ref_state" where
  "ping_setbuf use_ipv6 s =
     (let p = r_ping s;
          p1 = (if ping_buffer p = None
                then p\<lparr>ping_buffer := n_malloc_buffer (net_os s) (ping_buflen use_ipv6 (ping_datalen p))\<rparr> else p)
      in if ping_buffer p1 = None then (- 1, s\<lparr>r_ping := p1\<rparr>)
         else if ping_cktab p1 \<noteq> None then (0, s\<lparr>r_ping := p1\<rparr>)
         else (case n_malloc_cktab (net_os s) (ping_cktab_size p1) of
             None \<Rightarrow> (- 1, s\<lparr>r_ping := p1\<rparr>)
           | Some tab \<Rightarrow> (0, s\<lparr>r_ping := p1\<lparr>ping_cktab := Some (replicate (ping_cktab_size p1) 0)\<rparr>\<rparr>)))"

definition ping_set_data :: "bool \<Rightarrow> byte list \<Rightarrow> nat \<Rightarrow> nat \<Rightarrow> 'n ref_state \<Rightarrow> (int \<times> 'n ref_state) option" where
  "ping_set_data use_ipv6 data off len s =
     (let (rc, s1) = ping_setbuf use_ipv6 s; p = r_ping s1 in
      if rc \<noteq> 0 then Some (- 1, s1)
      else if ping_datalen p < off + len then Some (- 1, s1)
      else do {
        buf \<leftarrow> ping_buffer p;
        bytes \<leftarrow> read_range data 0 len;
        buf1 \<leftarrow> write_range buf (icmp_data_off + off) bytes;
        Some (0, s1\<lparr>r_ping := p\<lparr>ping_buffer := Some buf1\<rparr>\<rparr>)
      })"

definition ping_set_count :: "nat \<Rightarrow> 'n ref_state \<Rightarrow> 'n ref_state" where
  "ping_set_count n s = s\<lparr>r_ping := (r_ping s)\<lparr>ping_count := n\<rparr>\<rparr>"

definition ping_set_interval :: "nat \<Rightarrow> 'n ref_state \<Rightarrow> 'n ref_state" where
  "ping_set_interval n s = s\<lparr>r_ping := (r_ping s)\<lparr>ping_interval := n\<rparr>\<rparr>"

definition ping_freebuf :: "'n ping_data \<Rightarrow> 'n ping_data" where
  "ping_freebuf p = p\<lparr>ping_buffer := None, ping_cktab := None\<rparr>"

definition ping_unset_data :: "'n ref_state \<Rightarrow> 'n ref_state" where
  "ping_unset_data s = s\<lparr>r_ping := ping_freebuf (r_ping s)\<rparr>"

section \<open>Addresses as text\<close>

definition ipaddr2str :: "'n \<Rightarrow> 'n ref_state \<Rightarrow> string \<times> 'n ref_state" where
  "ipaddr2str a s =
     (case n_numeric (net_os s) a of
        Inl errmsg \<Rightarrow> (''unknown'', complain (''ping: getnameinfo: '' @ errmsg @ nl) s)
      | Inr numeric \<Rightarrow>
          if has_opt s OPT_NUMERIC then (numeric, s)
          else (case n_named (net_os s) a of
              None \<Rightarrow> (numeric, s)
            | Some hoststr \<Rightarrow> (hoststr @ '' ('' @ numeric @ '')'', s)))"

definition sinaddr2str :: "ipv4 \<Rightarrow> 'n ref_state \<Rightarrow> string" where
  "sinaddr2str a s =
     (if has_opt s OPT_NUMERIC then inet_ntoa a
      else (case n_byaddr (net_os s) a of
          None \<Rightarrow> inet_ntoa a
        | Some None \<Rightarrow> inet_ntoa a
        | Some (Some name) \<Rightarrow> name @ '' ('' @ inet_ntoa a @ '')''))"

section \<open>The bit table is a set\<close>

text \<open>The sequence numbers, modulo 1024, whose bit is set.\<close>

definition table_ok :: "'n ping_data \<Rightarrow> bool" where
  "table_ok p \<longleftrightarrow> 0 < ping_cktab_size p \<and>
     (\<exists>tab. ping_cktab p = Some tab \<and> length tab = ping_cktab_size p)"

lemma c_ind_less: "0 < ping_cktab_size p \<Longrightarrow> c_ind p n div 8 < ping_cktab_size p"
  by (simp add: c_ind_def less_mult_imp_div_less mult.commute)

lemma c_mask_bit: "bit (c_mask n) i \<longleftrightarrow> i = n mod 8"
  by (auto simp: c_mask_def bit_simps)

lemma and_mask_nonzero: "b AND c_mask n \<noteq> 0 \<longleftrightarrow> bit b (n mod 8)"
proof -
  have "b AND c_mask n \<noteq> 0 \<longleftrightarrow> (\<exists>i. bit (b AND c_mask n) i)"
    by (metis bit_0_eq bit_eqI bot_apply bot_bool_def)
  then show ?thesis by (simp add: bit_and_iff c_mask_bit)
qed

lemma ping_tst_eq:
  assumes "ping_cktab p = Some tab" "length tab = ping_cktab_size p" "0 < ping_cktab_size p"
  shows "ping_tst p n = Some (bit (tab ! (c_ind p n div 8)) (c_ind p n mod 8))"
  using assms c_ind_less [of p n] by (simp add: ping_tst_def and_mask_nonzero buf_simps Let_def)

definition seen :: "'n ping_data \<Rightarrow> nat set" where
  "seen p = {i. i < 8 * ping_cktab_size p \<and> bit (the (ping_cktab p) ! (i div 8)) (i mod 8)}"

lemma c_ind_mem: "0 < ping_cktab_size p \<Longrightarrow> c_ind p n < 8 * ping_cktab_size p"
  by (simp add: c_ind_def)

lemma div_mod_8_eq: "(i :: nat) div 8 = j div 8 \<and> i mod 8 = j mod 8 \<longleftrightarrow> i = j"
  by (metis div_mult_mod_eq)

lemma table_update:
  assumes tab: "ping_cktab p = Some tab" "length tab = ping_cktab_size p" "0 < ping_cktab_size p"
    and k: "k < 8 * ping_cktab_size p"
    and b: "\<And>i. i < 8 \<Longrightarrow> bit b i = (if i = k mod 8 then v else bit (tab ! (k div 8)) i)"
  defines "q \<equiv> p\<lparr>ping_cktab := Some (tab[k div 8 := b])\<rparr>"
  shows "table_ok q \<and> seen q = (if v then insert k (seen p) else seen p - {k})"
proof
  show "table_ok q" using tab by (simp add: q_def table_ok_def)
  have kd: "k div 8 < length tab" using k tab(2) by (simp add: less_mult_imp_div_less mult.commute)
  have "i \<in> seen q \<longleftrightarrow> i < 8 * ping_cktab_size p \<and> (if i = k then v else bit (tab ! (i div 8)) (i mod 8))" for i
    using kd b [of "i mod 8"] div_mod_8_eq [of i k]
    by (cases "i div 8 = k div 8") (auto simp: seen_def q_def)
  then show "seen q = (if v then insert k (seen p) else seen p - {k})"
    using k tab(1) by (auto simp: seen_def)
qed

lemma ping_set_seen:
  assumes "table_ok p"
  shows "\<exists>q. ping_set p n = Some q \<and> table_ok q \<and> seen q = insert (c_ind p n) (seen p) \<and>
    (\<exists>t. q = p\<lparr>ping_cktab := t\<rparr>)"
proof -
  obtain tab where t: "ping_cktab p = Some tab" "length tab = ping_cktab_size p" "0 < ping_cktab_size p"
    using assms by (auto simp: table_ok_def)
  let ?k = "c_ind p n"
  have "ping_set p n = Some (p\<lparr>ping_cktab := Some (tab[?k div 8 := tab ! (?k div 8) OR c_mask ?k])\<rparr>)"
    using t c_ind_less [of p n] by (simp add: ping_set_def buf_simps Let_def)
  then show ?thesis
    using table_update [OF t c_ind_mem [OF t(3)], of "tab ! (?k div 8) OR c_mask ?k" n True]
    by (auto simp: bit_or_iff c_mask_bit)
qed

lemma ping_clr_seen:
  assumes "table_ok p"
  shows "\<exists>q. ping_clr p n = Some q \<and> table_ok q \<and> seen q = seen p - {c_ind p n} \<and>
    (\<exists>t. q = p\<lparr>ping_cktab := t\<rparr>)"
proof -
  obtain tab where t: "ping_cktab p = Some tab" "length tab = ping_cktab_size p" "0 < ping_cktab_size p"
    using assms by (auto simp: table_ok_def)
  let ?k = "c_ind p n"
  have "ping_clr p n = Some (p\<lparr>ping_cktab := Some (tab[?k div 8 := tab ! (?k div 8) AND NOT (c_mask ?k)])\<rparr>)"
    using t c_ind_less [of p n] by (simp add: ping_clr_def buf_simps Let_def)
  then show ?thesis
    using table_update [OF t c_ind_mem [OF t(3)], of "tab ! (?k div 8) AND NOT (c_mask ?k)" n False]
    by (auto simp: bit_and_iff bit_not_iff c_mask_bit)
qed

lemma ping_tst_seen: "table_ok p \<Longrightarrow> ping_tst p n = Some (c_ind p n \<in> seen p)"
  by (auto simp: table_ok_def ping_tst_eq seen_def c_ind_mem)

text \<open>
  The interface of the table towards \<open>libping.c\<close>: a set of keys with insertion, removal and a
  membership test that never fail on a well-formed table and keep the keys of sequence numbers.
\<close>

locale seq_set =
  fixes ok :: "'t \<Rightarrow> bool"
    and elems :: "'t \<Rightarrow> nat set"
    and key :: "'t \<Rightarrow> nat \<Rightarrow> nat"
    and ins :: "'t \<Rightarrow> nat \<Rightarrow> 't option"
    and del :: "'t \<Rightarrow> nat \<Rightarrow> 't option"
    and mem :: "'t \<Rightarrow> nat \<Rightarrow> bool option"
  assumes ins: "ok t \<Longrightarrow> \<exists>u. ins t n = Some u \<and> ok u \<and> elems u = insert (key t n) (elems t) \<and> key u = key t"
    and del: "ok t \<Longrightarrow> \<exists>u. del t n = Some u \<and> ok u \<and> elems u = elems t - {key t n} \<and> key u = key t"
    and mem: "ok t \<Longrightarrow> mem t n = Some (key t n \<in> elems t)"
begin

lemma mem_after_ins:
  assumes "ok t" "ins t n = Some u"
  shows "mem u m = Some (key t m = key t n \<or> key t m \<in> elems t)"
  using ins [OF assms(1), of n] mem [of u m] assms(2) by auto

lemma mem_after_del:
  assumes "ok t" "del t n = Some u"
  shows "mem u m = Some (key t m \<noteq> key t n \<and> key t m \<in> elems t)"
  using del [OF assms(1), of n] mem [of u m] assms(2) by auto

lemma del_ins:
  assumes "ok t" "ins t n = Some u" "del u n = Some v"
  shows "elems v = elems t - {key t n}"
  using ins [OF assms(1), of n] del [of u n] assms(2,3) by auto

text \<open>A number that was added is seen until a number with the same key is removed.\<close>

lemma seen_until_removed:
  assumes "ok t" "ins t n = Some u" "del u m = Some v" "key t m \<noteq> key t n"
  shows "mem v n = Some True"
  using ins [OF assms(1), of n] mem_after_del [of u m v n] assms(2-4) by auto

end

lemma c_ind_table [simp]: "c_ind (p\<lparr>ping_cktab := t\<rparr>) = c_ind p"
  by (simp add: fun_eq_iff c_ind_def)

interpretation ck: seq_set table_ok seen c_ind ping_set ping_clr ping_tst
proof
  fix p :: "'n ping_data" and n :: nat
  assume ok: "table_ok p"
  show "\<exists>u. ping_set p n = Some u \<and> table_ok u \<and> seen u = insert (c_ind p n) (seen p) \<and> c_ind u = c_ind p"
    using ping_set_seen [OF ok, of n] by auto
  show "\<exists>u. ping_clr p n = Some u \<and> table_ok u \<and> seen u = seen p - {c_ind p n} \<and> c_ind u = c_ind p"
    using ping_clr_seen [OF ok, of n] by auto
  show "ping_tst p n = Some (c_ind p n \<in> seen p)"
    by (rule ping_tst_seen [OF ok])
qed

text \<open>C40. The bit table of received sequence numbers is a finite set: setting, clearing and testing a
  bit never leave the table and are insertion, removal and membership of the sequence number
  modulo eight times the table size, for every table and every sequence number.\<close>

theorem table_is_set:
  assumes "table_ok p"
  shows "(\<exists>q. ping_set p n = Some q \<and> table_ok q \<and> seen q = insert (c_ind p n) (seen p)) \<and>
    (\<exists>q. ping_clr p n = Some q \<and> table_ok q \<and> seen q = seen p - {c_ind p n}) \<and>
    ping_tst p n = Some (c_ind p n \<in> seen p)"
  using ck.ins [OF assms, of n] ck.del [OF assms, of n] ck.mem [OF assms, of n] by blast

definition fresh_ping :: PING where
  "fresh_ping = \<lparr>ping_type = ICMP_ECHO, ping_count = 0, ping_start_time = (0, 0), ping_interval = 1000,
     ping_dest = (127, 0, 0, 1), ping_hostname = ''localhost'', ping_datalen = 56, ping_ident = 0x1234,
     ping_event = Some EchoHandler,
     ping_closure = \<lparr>tmin = Fin 999999999, tmax = Fin 0, tsum = Fin 0, tsumsq = Fin 0\<rparr>,
     ping_cktab_size = 128, ping_cktab = Some (replicate 128 0), ping_buffer = Some (replicate 136 0),
     ping_from = (0, 0, 0, 0), ping_num_xmit = 0, ping_num_recv = 0, ping_num_rept = 0\<rparr>"

theorem table_is_set_witness:
  "\<exists>q. ping_set fresh_ping 5 = Some q \<and> table_ok q \<and> seen q = insert (c_ind fresh_ping 5) (seen fresh_ping)"
  using table_is_set [of fresh_ping 5] by (simp add: table_ok_def fresh_ping_def)

section \<open>Time differences and patterns\<close>

definition usecs :: "timeval \<Rightarrow> int" where
  "usecs t = fst t * 1000000 + snd t"

definition normed :: "timeval \<Rightarrow> bool" where
  "normed t \<longleftrightarrow> 0 \<le> snd t \<and> snd t < 1000000"

lemma tvsub_usecs: "usecs (tvsub a b) = usecs a - usecs b"
  by (simp add: tvsub_def usecs_def Let_def algebra_simps)

lemma tvsub_normed: "normed a \<Longrightarrow> normed b \<Longrightarrow> normed (tvsub a b)"
  by (simp add: tvsub_def normed_def Let_def)

lemma ping_timeout_iff:
  assumes "normed t0" "normed (fst (gettimeofday s))" "0 \<le> limit"
  shows "fst (ping_timeout_p t0 limit s) \<longleftrightarrow> limit * 1000000 \<le> usecs (fst (gettimeofday s)) - usecs t0"
proof -
  define d where "d = tvsub (fst (gettimeofday s)) t0"
  have "normed d" using tvsub_normed [OF assms(2,1)] by (simp add: d_def)
  then have "limit \<le> fst d \<longleftrightarrow> limit * 1000000 \<le> usecs d" by (auto simp: normed_def usecs_def)
  then show ?thesis
    using assms(3) by (auto simp: ping_timeout_p_def d_def tvsub_usecs split: prod.splits)
qed

lemma repeat_pattern_eq:
  assumes "1 \<le> len" "len \<le> length pat" "i < len"
  shows "repeat_pattern pat len i n = Some (map (\<lambda>k. pat ! ((i + k) mod len)) [0..<n])"
  using assms(3)
proof (induction n arbitrary: i)
  case (Suc n)
  define j where "j = (if len \<le> i + 1 then 0 else i + 1)"
  have j: "j < len" "(j + k) mod len = (i + Suc k) mod len" for k
    using Suc.prems assms(1) mod_add_self1 [of "Suc i" k] by (auto simp: j_def le_Suc_eq)
  have "map (\<lambda>k. pat ! ((i + k) mod len)) [0..<Suc n] = pat ! i # map (\<lambda>k. pat ! ((j + k) mod len)) [0..<n]"
    unfolding map_upt_Suc using Suc.prems j(2) by simp
  moreover have "repeat_pattern pat len i (Suc n) = do {
      bs \<leftarrow> repeat_pattern pat len j n; Some (pat ! i # bs) }"
    using Suc.prems assms(2) by (simp add: buf_simps j_def)
  ultimately show ?case using Suc.IH [OF j(1)] by simp
qed simp

lemma init_data_buffer_pattern:
  assumes "1 \<le> len" "len \<le> length pat" "r_data_length s \<noteq> 0"
  shows "init_data_buffer (Some pat) len s =
    Some (s\<lparr>r_data_buffer := Some (map (\<lambda>k. pat ! (k mod len)) [0..<r_data_length s])\<rparr>)"
  using assms by (simp add: init_data_buffer_def repeat_pattern_eq)

end
