(* ===== verification/Ref_Print.thy ===== *)
theory Ref_Print
  imports Ref_Helpers
begin

text \<open>
  What the reference prints for an ICMP error: the functions of \<open>inetutils-2.0/ping/ping_echo.c\<close> from
  \<open>print_icmp_code\<close> to \<open>print_icmp_header\<close>. The IP header is at the front of \<open>ping_buffer\<close>, the ICMP
  header at the offset \<open>icmp\<close>, and a pointer into the buffer is an offset; reading past the
  buffer is \<open>None\<close>.
\<close>

section \<open>Reading the buffer\<close>

definition byte_at :: "'n ref_state \<Rightarrow> nat \<Rightarrow> byte option" where
  "byte_at s i = do { buf \<leftarrow> ping_buffer (r_ping s); peek buf i }"

definition u16_at :: "'n ref_state \<Rightarrow> nat \<Rightarrow> u16 option" where
  "u16_at s i = do { buf \<leftarrow> ping_buffer (r_ping s); peek16 (ref_endian s) buf i }"

definition u32_at :: "'n ref_state \<Rightarrow> nat \<Rightarrow> u32 option" where
  "u32_at s i = do { buf \<leftarrow> ping_buffer (r_ping s); peek32 (ref_endian s) buf i }"

definition bytes_at :: "'n ref_state \<Rightarrow> nat \<Rightarrow> nat \<Rightarrow> byte list option" where
  "bytes_at s i n = do { buf \<leftarrow> ping_buffer (r_ping s); read_range buf i n }"

definition addr_at :: "'n ref_state \<Rightarrow> nat \<Rightarrow> ipv4 option" where
  "addr_at s i = do { a \<leftarrow> byte_at s i; b \<leftarrow> byte_at s (i + 1); c \<leftarrow> byte_at s (i + 2);
     d \<leftarrow> byte_at s (i + 3); Some (a, b, c, d) }"

text \<open>\<open>%02x\<close>, \<open>%1x\<close> and \<open>%08x\<close>; \<open>%u\<close> of a negative \<open>int\<close>.\<close>

definition hex2 :: "byte \<Rightarrow> string" where
  "hex2 b = [hex_digit (uint b div 16), hex_digit (uint b mod 16)]"

definition hex1 :: "int \<Rightarrow> string" where
  "hex1 n = (if n < 16 then [hex_digit n] else [hex_digit (n div 16), hex_digit (n mod 16)])"

definition hex8 :: "u32 \<Rightarrow> string" where
  "hex8 x = concat (map hex2 (be32 x))"

definition udec :: "int \<Rightarrow> string" where
  "udec n = dec (n mod 4294967296)"

text \<open>The members of \<open>struct ip\<close>, as offsets.\<close>

definition ip_v :: "byte \<Rightarrow> int" where "ip_v b = uint (drop_bit 4 b)"
definition ip_tos_off :: nat where "ip_tos_off = 1"
definition ip_len_off :: nat where "ip_len_off = 2"
definition ip_id_off :: nat where "ip_id_off = 4"
definition ip_off_off :: nat where "ip_off_off = 6"
definition ip_p_off :: nat where "ip_p_off = 9"
definition ip_sum_off :: nat where "ip_sum_off = 10"
definition ip_dst_off :: nat where "ip_dst_off = 16"

lemmas ref_ip_layout = ip_tos_off_def ip_len_off_def ip_id_off_def ip_off_off_def ip_p_off_def
  ip_sum_off_def ip_dst_off_def sizeof_ip_def ip_ttl_off_def ip_src_off_def

definition IPPROTO_ICMP :: byte where "IPPROTO_ICMP = 1"
definition IPPROTO_TCP :: byte where "IPPROTO_TCP = 6"
definition IPPROTO_UDP :: byte where "IPPROTO_UDP = 17"

section \<open>ICMP messages that are not replies\<close>

definition icmp_code_descr :: "(int \<times> int \<times> string) list" where
  "icmp_code_descr =
    [(ICMP_DEST_UNREACH, ICMP_NET_UNREACH, ''Destination Net Unreachable''),
     (ICMP_DEST_UNREACH, ICMP_HOST_UNREACH, ''Destination Host Unreachable''),
     (ICMP_DEST_UNREACH, ICMP_PROT_UNREACH, ''Destination Protocol Unreachable''),
     (ICMP_DEST_UNREACH, ICMP_PORT_UNREACH, ''Destination Port Unreachable''),
     (ICMP_DEST_UNREACH, ICMP_FRAG_NEEDED, ''Fragmentation needed and DF set''),
     (ICMP_DEST_UNREACH, ICMP_SR_FAILED, ''Source Route Failed''),
     (ICMP_DEST_UNREACH, ICMP_NET_UNKNOWN, ''Network Unknown''),
     (ICMP_DEST_UNREACH, ICMP_HOST_UNKNOWN, ''Host Unknown''),
     (ICMP_DEST_UNREACH, ICMP_HOST_ISOLATED, ''Host Isolated''),
     (ICMP_DEST_UNREACH, ICMP_NET_UNR_TOS, ''Destination Network Unreachable At This TOS''),
     (ICMP_DEST_UNREACH, ICMP_HOST_UNR_TOS, ''Destination Host Unreachable At This TOS''),
     (ICMP_DEST_UNREACH, ICMP_PKT_FILTERED, ''Packet Filtered''),
     (ICMP_DEST_UNREACH, ICMP_PREC_VIOLATION, ''Precedence Violation''),
     (ICMP_DEST_UNREACH, ICMP_PREC_CUTOFF, ''Precedence Cutoff''),
     (ICMP_REDIRECT, ICMP_REDIR_NET, ''Redirect Network''),
     (ICMP_REDIRECT, ICMP_REDIR_HOST, ''Redirect Host''),
     (ICMP_REDIRECT, ICMP_REDIR_NETTOS, ''Redirect Type of Service and Network''),
     (ICMP_REDIRECT, ICMP_REDIR_HOSTTOS, ''Redirect Type of Service and Host''),
     (ICMP_TIME_EXCEEDED, ICMP_EXC_TTL, ''Time to live exceeded''),
     (ICMP_TIME_EXCEEDED, ICMP_EXC_FRAGTIME, ''Frag reassembly time exceeded'')]"

definition print_icmp_code :: "int \<Rightarrow> int \<Rightarrow> string \<Rightarrow> ref \<Rightarrow> ref" where
  "print_icmp_code ty code prefix s =
     (case find (\<lambda>(t, c, _). t = ty \<and> c = code) icmp_code_descr of
        Some (_, _, diag) \<Rightarrow> out (diag @ nl) s
      | None \<Rightarrow> out (prefix @ '', Unknown Code: '' @ dec code @ nl) s)"

text \<open>\<open>while (hlen-- > sizeof (*ip)) printf ("%02x", *cp++)\<close>.\<close>

fun dump_options :: "nat \<Rightarrow> nat \<Rightarrow> ref \<Rightarrow> ref option" where
  "dump_options cp 0 s = Some s"
| "dump_options cp (Suc n) s = do { b \<leftarrow> byte_at s cp; dump_options (cp + 1) n (out (hex2 b) s) }"

definition hdr_dump :: "byte list \<Rightarrow> string" where
  "hdr_dump bs = concat (map (\<lambda>j. hex2 (bs ! j) @ (if odd j then '' '' else [])) [0..<length bs])"

definition print_ip_header :: "nat \<Rightarrow> ref \<Rightarrow> ref option" where
  "print_ip_header ip s = do {
     b0 \<leftarrow> byte_at s ip;
     let hlen = ip_hl b0 * 4;
     s1 \<leftarrow> (if has_opt s OPT_VERBOSE
            then do { bs \<leftarrow> bytes_at s ip sizeof_ip;
                      Some (out nl (out (hdr_dump bs) (out (''IP Hdr Dump:'' @ nl @ '' '') s))) }
            else Some s);
     let s2 = out (''Vr HL TOS  Len   ID Flg  off TTL Pro  cks      Src'' @ [CHR 0x09] @ ''Dst''
                   @ [CHR 0x09] @ ''Data'' @ nl) s1;
     tos \<leftarrow> byte_at s (ip + ip_tos_off);
     let s3 = out ('' '' @ hex1 (ip_v b0) @ ''  '' @ hex1 (int (ip_hl b0)) @ ''  '' @ hex2 tos) s2;
     len \<leftarrow> u16_at s (ip + ip_len_off);
     ident \<leftarrow> u16_at s (ip + ip_id_off);
     let s4 = out ('' '' @ hex4 (if 0x2000 < len then ntohs (ref_endian s) len else len) @ '' ''
                   @ hex4 (ntohs (ref_endian s) ident)) s3;
     off \<leftarrow> u16_at s (ip + ip_off_off);
     let o1 = ntohs (ref_endian s) off;
     let s5 = out (''   '' @ hex1 (uint (drop_bit 13 (o1 AND 0xe000))) @ '' '' @ hex4 (o1 AND 0x1fff)) s4;
     hops \<leftarrow> byte_at s (ip + ip_ttl_off);
     proto \<leftarrow> byte_at s (ip + ip_p_off);
     sum \<leftarrow> u16_at s (ip + ip_sum_off);
     let s6 = out (''  '' @ hex2 hops @ ''  '' @ hex2 proto @ '' '' @ hex4 (ntohs (ref_endian s) sum)) s5;
     src \<leftarrow> addr_at s (ip + ip_src_off);
     dest \<leftarrow> addr_at s (ip + ip_dst_off);
     let s7 = out ('' '' @ inet_ntoa dest @ '' '') (out ('' '' @ inet_ntoa src @ '' '') s6);
     s8 \<leftarrow> dump_options (ip + sizeof_ip) (hlen - sizeof_ip) s7;
     Some (out nl s8)
   }"

definition port_line :: "string \<Rightarrow> nat \<Rightarrow> ref \<Rightarrow> ref option" where
  "port_line proto cp s = do {
     a \<leftarrow> byte_at s cp; b \<leftarrow> byte_at s (cp + 1); c \<leftarrow> byte_at s (cp + 2); d \<leftarrow> byte_at s (cp + 3);
     Some (out (proto @ '': from port '' @ dec (uint a * 256 + uint b) @ '', to port ''
       @ dec (uint c * 256 + uint d) @ '' (decimal)'' @ nl) s)
   }"

definition print_ip_data :: "nat \<Rightarrow> ref \<Rightarrow> ref option" where
  "print_ip_data icmp s = do {
     let ip = icmp + icmp_ip_off;
     s1 \<leftarrow> print_ip_header ip s;
     b0 \<leftarrow> byte_at s1 ip;
     let hlen = ip_hl b0 * 4;
     let cp = ip + hlen;
     proto \<leftarrow> byte_at s1 (ip + ip_p_off);
     (if proto = IPPROTO_TCP then port_line ''TCP'' cp s1
      else if proto = IPPROTO_UDP then port_line ''UDP'' cp s1
      else if proto = IPPROTO_ICMP then do {
        ty \<leftarrow> byte_at s1 cp;
        code \<leftarrow> byte_at s1 (cp + 1);
        len \<leftarrow> u16_at s1 (ip + ip_len_off);
        let s2 = out (''ICMP: type '' @ dec (uint ty) @ '', code '' @ dec (uint code) @ '', size ''
                      @ udec (uint (ntohs (ref_endian s) len) - int hlen)) s1;
        s3 \<leftarrow> (if uint ty = ICMP_ECHOREPLY \<or> uint ty = ICMP_ECHO
               then do {
                 a \<leftarrow> byte_at s2 (cp + 4); b \<leftarrow> byte_at s2 (cp + 5);
                 c \<leftarrow> byte_at s2 (cp + 6); d \<leftarrow> byte_at s2 (cp + 7);
                 Some (out ('', id 0x'' @ hex2 a @ hex2 b @ '', seq 0x'' @ hex2 c @ hex2 d) s2)
               }
               else Some s2);
        Some (out nl s3)
      }
      else Some s1)
   }"

definition print_icmp :: "nat \<Rightarrow> string \<Rightarrow> ref \<Rightarrow> ref option" where
  "print_icmp icmp prefix s = do {
     ty \<leftarrow> byte_at s (icmp + icmp_type_off);
     code \<leftarrow> byte_at s (icmp + icmp_code_off);
     let s1 = print_icmp_code (uint ty) (uint code) prefix s;
     (if has_opt s1 OPT_VERBOSE then print_ip_data icmp s1 else Some s1)
   }"

definition print_parameterprob :: "nat \<Rightarrow> ref \<Rightarrow> ref option" where
  "print_parameterprob icmp s = do {
     gw \<leftarrow> addr_at s (icmp + icmp_gwaddr_off);
     print_ip_data icmp (out (''Parameter problem: IP address = '' @ inet_ntoa gw @ nl) s)
   }"

datatype diag_fun = PrintIcmp string | PrintIpData | PrintParameterprob

definition icmp_diag :: "(int \<times> string option \<times> diag_fun option) list" where
  "icmp_diag =
    [(ICMP_ECHOREPLY, Some ''Echo Reply'', None),
     (ICMP_DEST_UNREACH, None, Some (PrintIcmp ''Dest Unreachable'')),
     (ICMP_SOURCE_QUENCH, Some ''Source Quench'', Some PrintIpData),
     (ICMP_REDIRECT, None, Some (PrintIcmp ''Redirect'')),
     (ICMP_ECHO, Some ''Echo Request'', None),
     (ICMP_ROUTERADV, Some ''Router Advertisement'', None),
     (ICMP_ROUTERDISCOVERY, Some ''Router Discovery'', None),
     (ICMP_TIME_EXCEEDED, None, Some (PrintIcmp ''Time exceeded'')),
     (ICMP_PARAMETERPROB, None, Some PrintParameterprob),
     (ICMP_TIMESTAMP, Some ''Timestamp'', None),
     (ICMP_TIMESTAMPREPLY, Some ''Timestamp Reply'', None),
     (ICMP_INFO_REQUEST, Some ''Information Request'', None),
     (ICMP_INFO_REPLY, Some ''Information Reply'', None),
     (ICMP_ADDRESS, Some ''Address Mask Request'', None),
     (ICMP_ADDRESSREPLY, Some ''Address Mask Reply'', None)]"

definition run_diag :: "nat \<Rightarrow> diag_fun option \<Rightarrow> ref \<Rightarrow> ref option" where
  "run_diag icmp f s = (case f of
       None \<Rightarrow> Some s
     | Some (PrintIcmp prefix) \<Rightarrow> print_icmp icmp prefix s
     | Some PrintIpData \<Rightarrow> print_ip_data icmp s
     | Some PrintParameterprob \<Rightarrow> print_parameterprob icmp s)"

definition print_icmp_header :: "ipv4 \<Rightarrow> nat \<Rightarrow> int \<Rightarrow> ref \<Rightarrow> ref option" where
  "print_icmp_header from icmp len s = do {
     b0 \<leftarrow> byte_at s 0;
     let hlen = ip_hl b0 * 4;
     concerns \<leftarrow> (if has_opt s OPT_VERBOSE then Some True
                  else do { d \<leftarrow> addr_at s (icmp + icmp_ip_off + ip_dst_off);
                            Some (d = ping_dest (r_ping s)) });
     (if \<not> concerns then Some s
      else do {
        let (name, s1) = ipaddr2str from s;
        let s2 = out (dec (len - int hlen) @ '' bytes from '' @ name @ '': '') s1;
        ty \<leftarrow> byte_at s2 (icmp + icmp_type_off);
        (case find (\<lambda>(t, _, _). t = uint ty) icmp_diag of
           Some (_, txt, f) \<Rightarrow>
             run_diag icmp f (case txt of Some t \<Rightarrow> out (t @ nl) s2 | None \<Rightarrow> s2)
         | None \<Rightarrow> Some (out (''Bad ICMP type: '' @ dec (uint ty) @ nl) s2))
      })
   }"

end
