(* ===== verification/Ref_Handlers.thy ===== *)
theory Ref_Handlers
  imports Ref_Options
begin

text \<open>
  The event handlers of the reference and the summaries: \<open>print_echo\<close>, \<open>handler\<close> and
  \<open>echo_finish\<close> of \<open>ping_echo.c\<close>, the handlers of \<open>ping_timestamp.c\<close> and \<open>ping_address.c\<close>,
  \<open>ping_finish\<close> of \<open>ping.c\<close>. The theorems compare the reference's loss percentage and mean with
  the program's.
\<close>

section \<open>An echo reply\<close>

text \<open>A 64-bit integer in host order, as \<open>memcpy\<close> into a member of \<open>struct timeval\<close> reads it.\<close>

definition int64_of :: "endian \<Rightarrow> byte list \<Rightarrow> int" where
  "int64_of e bs =
     (let le = (case e of LE \<Rightarrow> bs | BE \<Rightarrow> rev bs);
          v = foldr (\<lambda>b acc. uint b + 256 * acc) le 0
      in if 9223372036854775808 \<le> v then v - 18446744073709551616 else v)"

definition timeval_at :: "'n ref_state \<Rightarrow> nat \<Rightarrow> timeval option" where
  "timeval_at s i = do {
     a \<leftarrow> bytes_at s i 8;
     b \<leftarrow> bytes_at s (i + 8) 8;
     Some (int64_of (ref_endian s) a, int64_of (ref_endian s) b)
   }"

definition triptime_ms :: "timeval \<Rightarrow> double" where
  "triptime_ms tv = dadd (dmul (dint (fst tv)) (Fin 1000)) (ddiv (dint (snd tv)) (Fin 1000))"

definition add_triptime :: "double \<Rightarrow> ping_stat \<Rightarrow> ping_stat" where
  "add_triptime t st = st\<lparr>tsum := dadd (tsum st) t,
     tsumsq := dadd (tsumsq st) (dmul t t),
     tmin := (if dlt t (tmin st) then t else tmin st),
     tmax := (if dlt (tmax st) t then t else tmax st)\<rparr>"

definition upd_ping :: "('n ping_data \<Rightarrow> 'n ping_data) \<Rightarrow> 'n ref_state \<Rightarrow> 'n ref_state" where
  "upd_ping f s = s\<lparr>r_ping := f (r_ping s)\<rparr>"

definition print_echo :: "bool \<Rightarrow> ipv4 \<Rightarrow> nat \<Rightarrow> int \<Rightarrow> ref \<Rightarrow> ref option" where
  "print_echo dupflag from icmp len s = do {
     let (tv, s1) = gettimeofday s;
     b0 \<leftarrow> byte_at s1 0;
     let hlen = int (ip_hl b0) * 4;
     let datalen = len - hlen;
     (timing, triptime, s2) \<leftarrow>
       (if PING_TIMING (nat ((datalen - int PING_HEADER_LEN) mod 18446744073709551616))
        then do {
          tv1 \<leftarrow> timeval_at s1 (icmp + icmp_data_off);
          let t = triptime_ms (tvsub tv tv1);
          Some (True, t, upd_ping (\<lambda>p. p\<lparr>ping_closure := add_triptime t (ping_closure p)\<rparr>) s1)
        }
        else Some (False, Fin 0, s1));
     (if has_opt s2 OPT_QUIET then Some s2
      else if has_opt s2 OPT_FLOOD then Some (out [CHR 0x08] s2)
      else do {
        sq \<leftarrow> u16_at s2 (icmp + icmp_seq_off);
        hops \<leftarrow> byte_at s2 ip_ttl_off;
        let s3 = out (dec datalen @ '' bytes from '' @ inet_ntoa from @ '': icmp_seq=''
                      @ dec (uint (ntohs (ref_endian s2) sq))) s2;
        let s4 = out ('' ttl='' @ dec (uint hops)) s3;
        let s5 = (if timing then out ('' time='' @ fmt_f3 triptime @ '' ms'') s4 else s4);
        let s6 = (if dupflag then out '' (DUP!)'' s5 else s5);
        s7 \<leftarrow> print_ip_opt hlen s6;
        Some (out nl s7)
      })
   }"

definition echo_handler :: "int \<Rightarrow> ipv4 \<Rightarrow> nat \<Rightarrow> int \<Rightarrow> ref \<Rightarrow> ref option" where
  "echo_handler code from icmp len s =
     (if code = PEV_RESPONSE \<or> code = PEV_DUPLICATE
      then print_echo (code = PEV_DUPLICATE) from icmp len s
      else if code = PEV_NOECHO then print_icmp_header from icmp len s
      else Some s)"

section \<open>Timestamp and address mask replies\<close>

definition reply_line :: "bool \<Rightarrow> ipv4 \<Rightarrow> nat \<Rightarrow> int \<Rightarrow> ref \<Rightarrow> ref option" where
  "reply_line dupflag from icmp len s = do {
     sq \<leftarrow> u16_at s (icmp + icmp_seq_off);
     let s1 = out (dec len @ '' bytes from '' @ inet_ntoa from @ '': icmp_seq=''
                   @ dec (uint (ntohs (ref_endian s) sq))) s;
     Some (out nl (if dupflag then out '' (DUP!)'' s1 else s1))
   }"

text \<open>The verbose test looks at the originate time twice, as the code does.\<close>

definition print_timestamp :: "bool \<Rightarrow> ipv4 \<Rightarrow> nat \<Rightarrow> int \<Rightarrow> ref \<Rightarrow> ref option" where
  "print_timestamp dupflag from icmp len s = do {
     s1 \<leftarrow> reply_line dupflag from icmp len s;
     ot \<leftarrow> u32_at s1 (icmp + icmp_otime_off);
     rt \<leftarrow> u32_at s1 (icmp + icmp_rtime_off);
     tt \<leftarrow> u32_at s1 (icmp + icmp_ttime_off);
     let e = ref_endian s1;
     let s2 = out (''icmp_otime = '' @ ping_cvt_time 16 (ntohl e ot) @ nl) s1;
     let s3 = out (''icmp_rtime = '' @ ping_cvt_time 16 (ntohl e rt) @ nl) s2;
     let s4 = out (''icmp_ttime = '' @ ping_cvt_time 16 (ntohl e tt) @ nl) s3;
     Some (if has_opt s4 OPT_VERBOSE \<and> is_normed_time (ntohl e ot) \<and> is_normed_time (ntohl e ot)
           then out (''difference = '' @ dec (sint (ntohl e tt - ntohl e ot)) @ '' ms'' @ nl) s4
           else s4)
   }"

definition recv_timestamp :: "int \<Rightarrow> ipv4 \<Rightarrow> nat \<Rightarrow> int \<Rightarrow> ref \<Rightarrow> ref option" where
  "recv_timestamp code from icmp len s =
     (if code = PEV_RESPONSE \<or> code = PEV_DUPLICATE
      then print_timestamp (code = PEV_DUPLICATE) from icmp len s
      else if code = PEV_NOECHO then print_icmp_header from icmp len s
      else Some s)"

text \<open>
  \<open>addr.s_addr = icmp->icmp_mask\<close>: the low half of an eight-byte member, whose place depends on
  the byte order of the host.
\<close>

definition print_address :: "bool \<Rightarrow> ipv4 \<Rightarrow> nat \<Rightarrow> int \<Rightarrow> ref \<Rightarrow> ref option" where
  "print_address dupflag from icmp len s = do {
     s1 \<leftarrow> reply_line dupflag from icmp len s;
     _ \<leftarrow> bytes_at s1 (icmp + icmp_mask_off) 8;
     addr \<leftarrow> addr_at s1 (icmp + icmp_mask_off + (case ref_endian s1 of LE \<Rightarrow> 0 | BE \<Rightarrow> 4));
     Some (out nl (out (''icmp_mask = '' @ inet_ntoa addr) s1))
   }"

definition recv_address :: "int \<Rightarrow> ipv4 \<Rightarrow> nat \<Rightarrow> int \<Rightarrow> ref \<Rightarrow> ref option" where
  "recv_address code from icmp len s =
     (if code = PEV_RESPONSE \<or> code = PEV_DUPLICATE
      then print_address (code = PEV_DUPLICATE) from icmp len s
      else if code = PEV_NOECHO then print_icmp_header from icmp len s
      else Some s)"

text \<open>The call through \<open>ping_event.handler\<close>.\<close>

definition call_handler :: "int \<Rightarrow> ipv4 \<Rightarrow> nat \<Rightarrow> int \<Rightarrow> ref \<Rightarrow> ref option" where
  "call_handler code from icmp len s = (case ping_event (r_ping s) of
       None \<Rightarrow> Some s
     | Some EchoHandler \<Rightarrow> echo_handler code from icmp len s
     | Some RecvTimestamp \<Rightarrow> recv_timestamp code from icmp len s
     | Some RecvAddress \<Rightarrow> recv_address code from icmp len s)"

section \<open>Summaries\<close>

definition ref_loss_percent :: "PING \<Rightarrow> int" where
  "ref_loss_percent p =
     i32 (int (((ping_num_xmit p - ping_num_recv p) * 100) mod 18446744073709551616 div ping_num_xmit p))"

definition ping_finish :: "ref \<Rightarrow> int \<times> ref" where
  "ping_finish s =
     (let p = r_ping s;
          s1 = out (''--- '' @ ping_hostname p @ '' ping statistics ---'' @ nl) s;
          s2 = out (dec (int (ping_num_xmit p)) @ '' packets transmitted, '') s1;
          s3 = out (dec (int (ping_num_recv p)) @ '' packets received, '') s2;
          s4 = (if ping_num_rept p \<noteq> 0
                then out (''+'' @ dec (int (ping_num_rept p)) @ '' duplicates, '') s3 else s3);
          s5 = (if ping_num_xmit p \<noteq> 0
                then (if ping_num_xmit p < ping_num_recv p
                      then out ''-- somebody is printing forged packets!'' s4
                      else out (dec (ref_loss_percent p) @ ''% packet loss'') s4)
                else s4)
      in (0, out nl s5))"

definition echo_finish :: "ref \<Rightarrow> (int \<times> ref) option" where
  "echo_finish s =
     (let (_, s1) = ping_finish s; p = r_ping s1 in
      if ping_num_recv p \<noteq> 0 \<and> PING_TIMING (r_data_length s1)
      then do {
        let total = dint (int (ping_num_recv p + ping_num_rept p));
        let avg = ddiv (tsum (ping_closure p)) total;
        let vari = dsub (ddiv (tsumsq (ping_closure p)) total) (dmul avg avg);
        root \<leftarrow> nsqrt vari (fl (5 / 10000));
        Some (if ping_num_recv p = 0 then 1 else 0,
          out (''round-trip min/avg/max/stddev = '' @ fmt_f3 (tmin (ping_closure p)) @ ''/''
             @ fmt_f3 avg @ ''/'' @ fmt_f3 (tmax (ping_closure p)) @ ''/'' @ fmt_f3 root @ '' ms'' @ nl) s1)
      }
      else Some (if ping_num_recv p = 0 then 1 else 0, s1))"

definition timestamp_finish :: "ref \<Rightarrow> int \<times> ref" where
  "timestamp_finish s = ping_finish s"

definition address_finish :: "ref \<Rightarrow> int \<times> ref" where
  "address_finish s = (0, s)"

section \<open>The program's summary is the reference's\<close>

text \<open>The program prints the reference's loss percentage: for the same counters, with no more
  replies than requests and fewer than 21474837 packets lost, both compute the same number.\<close>

theorem loss_percent_is_reference:
  assumes "counts_ok st" "0 < n_sent st"
    and "int (ping_num_xmit p) = n_sent st" "int (ping_num_recv p) = n_recv st"
  shows "loss_percent st = ref_loss_percent p"
proof -
  define x r where "x = ping_num_xmit p" and "r = ping_num_recv p"
  have c: "r \<le> x" "0 < x" "(int x - int r) * 100 < 2147483648"
    using assms by (auto simp: x_def r_def counts_ok_def)
  have "int ((x - r) * 100) < int 2147483648" using c by (simp add: of_nat_diff)
  then have "(x - r) * 100 < 2147483648" unfolding of_nat_less_iff .
  then have m: "(x - r) * 100 mod 18446744073709551616 = (x - r) * 100" by simp
  have "(x - r) * 100 div x \<le> (x - r) * 100" by simp
  then have d: "int ((x - r) * 100 div x) < 2147483648" using \<open>(x - r) * 100 < 2147483648\<close> by linarith
  have "ref_loss_percent p = int ((x - r) * 100 div x)"
    unfolding ref_loss_percent_def x_def [symmetric] r_def [symmetric] m using d by simp
  also have "\<dots> = (int x - int r) * 100 div int x"
    using c(1) by (simp add: zdiv_int of_nat_diff)
  finally show ?thesis
    using loss_percent_eq [OF assms(1,2)] assms(3,4) by (simp add: x_def r_def)
qed

theorem loss_percent_is_reference_witness:
  "loss_percent (zero_stats\<lparr>n_sent := 3, n_recv := 1\<rparr>)
     = ref_loss_percent (fresh_ping\<lparr>ping_num_xmit := 3, ping_num_recv := 1\<rparr>)"
  by (rule loss_percent_is_reference) (simp_all add: counts_ok_def zero_stats_def)

end
