(* ===== verification/Ref_Lib.thy ===== *)
theory Ref_Lib
  imports Ref_Handlers
begin

text \<open>
  \<open>inetutils-2.0/ping/libping.c\<close>: creating a \<open>PING\<close>, sending one request, receiving one message.
  The configuration is that of the repository's \<open>config.h\<close>: \<open>getaddrinfo\<close> is available, IDN is not.
  The theorem says how the replies of a run are counted, over the interface of the table of
  sequence numbers; what \<open>ping_xmit\<close> puts on the wire is the subject of \<open>Ref_Send\<close>.
\<close>

section \<open>Operations\<close>

definition ping_packetsize :: "PING \<Rightarrow> nat" where
  "ping_packetsize p =
     (if ping_type p = ICMP_TIMESTAMP \<or> ping_type p = ICMP_TIMESTAMPREPLY then ICMP_TSLEN
      else if ping_type p = ICMP_ADDRESS \<or> ping_type p = ICMP_ADDRESSREPLY then ICMP_MASKLEN
      else (PING_HEADER_LEN + ping_datalen p) mod 18446744073709551616)"

definition zero_ping :: PING where
  "zero_ping = \<lparr>ping_type = 0, ping_count = 0, ping_start_time = (0, 0), ping_interval = 0,
     ping_dest = (0, 0, 0, 0), ping_hostname = [], ping_datalen = 0, ping_ident = 0,
     ping_event = None, ping_closure = \<lparr>tmin = Fin 0, tmax = Fin 0, tsum = Fin 0, tsumsq = Fin 0\<rparr>,
     ping_cktab_size = 0, ping_cktab = None, ping_buffer = None, ping_from = (0, 0, 0, 0),
     ping_num_xmit = 0, ping_num_recv = 0, ping_num_rept = 0\<rparr>"

definition no_privilege :: "errno \<Rightarrow> bool" where
  "no_privilege err \<longleftrightarrow> err = EOTHER ''EPERM'' \<or> err = EOTHER ''EACCES''"

text \<open>Whether there is a socket, after both attempts.\<close>

definition icmp_socket :: "ref \<Rightarrow> bool \<times> ref" where
  "icmp_socket s =
     (case n_socket_raw (net_os s) of
        None \<Rightarrow> (True, s)
      | Some err \<Rightarrow>
          if no_privilege err
          then (case n_socket_dgram (net_os s) of
                  None \<Rightarrow> (True, s\<lparr>r_useless_ident := r_useless_ident s + 1\<rparr>)
                | Some err2 \<Rightarrow> (False,
                    if no_privilege err2 \<or> err2 = EOTHER ''EPROTONOSUPPORT''
                    then complain (''ping: Lacking privilege for icmp socket.'' @ nl) s
                    else s\<lparr>kern := emit (Perror ''ping'' err2) (kern s)\<rparr>))
          else (False, s))"

text \<open>False is the \<open>NULL\<close> pointer.\<close>

definition ping_init :: "int \<Rightarrow> int \<Rightarrow> ref \<Rightarrow> bool \<times> ref" where
  "ping_init ty ident s =
     (if \<not> n_protocol (net_os s) then (False, complain (''ping: unknown protocol icmp.'' @ nl) s)
      else (let (opened, s1) = icmp_socket s in
        if \<not> opened then (False, s1)
        else if \<not> n_malloc_ping (net_os s1) then (False, s1\<lparr>kern := emit Close (kern s1)\<rparr>)
        else (let (now, s2) = gettimeofday s1 in
          (True, s2\<lparr>r_ping := zero_ping\<lparr>ping_type := ty, ping_interval := PING_DEFAULT_INTERVAL,
             ping_datalen := sizeof_icmphdr, ping_ident := ident AND 0xFFFF,
             ping_cktab_size := PING_CKTABSIZE, ping_start_time := now\<rparr>\<rparr>))))"

definition ping_reset :: "'n ref_state \<Rightarrow> 'n ref_state" where
  "ping_reset = upd_ping (\<lambda>p. p\<lparr>ping_num_xmit := 0, ping_num_recv := 0, ping_num_rept := 0\<rparr>)"

definition ping_set_type :: "int \<Rightarrow> ref \<Rightarrow> ref" where
  "ping_set_type ty = upd_ping (\<lambda>p. p\<lparr>ping_type := ty\<rparr>)"

definition ping_set_event_handler :: "event_handler \<Rightarrow> ping_stat option \<Rightarrow> ref \<Rightarrow> ref" where
  "ping_set_event_handler h closure = upd_ping (\<lambda>p. p\<lparr>ping_event := Some h,
     ping_closure := (case closure of Some st \<Rightarrow> st | None \<Rightarrow> ping_closure p)\<rparr>)"

definition ping_set_packetsize :: "nat \<Rightarrow> ref \<Rightarrow> ref" where
  "ping_set_packetsize n = upd_ping (\<lambda>p. p\<lparr>ping_datalen := n\<rparr>)"

definition ping_set_dest :: "string \<Rightarrow> ref \<Rightarrow> int \<times> ref" where
  "ping_set_dest name s =
     (case n_getaddrinfo (net_os s) name of
        None \<Rightarrow> (1, s)
      | Some (addr, canonname) \<Rightarrow>
          (0, upd_ping (\<lambda>p. p\<lparr>ping_dest := addr,
                ping_hostname := (case canonname of Some c \<Rightarrow> c | None \<Rightarrow> name)\<rparr>) s))"

definition encode_request :: "timeval \<Rightarrow> endian \<Rightarrow> PING \<Rightarrow> byte list \<Rightarrow> nat \<Rightarrow> (int \<times> byte list) option" where
  "encode_request tv e p buf buflen =
     (let i = ping_ident p; q = i32 (int (ping_num_xmit p)) in
      if ping_type p = ICMP_ECHO then icmp_echo_encode e buf buflen i q
      else if ping_type p = ICMP_TIMESTAMP then icmp_timestamp_encode e tv buf buflen i q
      else if ping_type p = ICMP_ADDRESS then icmp_address_encode e buf buflen i q
      else icmp_generic_encode e buf buflen (ping_type p) i q)"

text \<open>
  0, or -1 with the value of \<open>errno\<close>. Only a timestamp request reads the clock. \<open>sendto\<close> is the
  kernel's; \<open>n_wrote\<close> is the count it reports.
\<close>

definition ping_xmit :: "ref \<Rightarrow> ((int \<times> errno option) \<times> ref) option" where
  "ping_xmit s =
     (let (rc, s1) = ping_setbuf False s in
      if rc \<noteq> 0 then Some ((- 1, Some (EOTHER ''ENOMEM'')), s1)
      else do {
        let buflen = ping_packetsize (r_ping s1);
        p2 \<leftarrow> ping_clr (r_ping s1) (ping_num_xmit (r_ping s1));
        buf \<leftarrow> ping_buffer p2;
        let (tv, s2) = (if ping_type p2 = ICMP_TIMESTAMP then gettimeofday s1 else ((0, 0), s1));
        (_, buf1) \<leftarrow> encode_request tv (ref_endian s2) p2 buf buflen;
        bytes \<leftarrow> read_range buf1 0 buflen;
        let p3 = p2\<lparr>ping_buffer := Some buf1\<rparr>;
        let k = k_send (kern s2);
        let (res, w) = sendto bytes (ping_dest p3) (kern s2);
        (case res of
           Some err \<Rightarrow> Some ((- 1, Some err), s2\<lparr>r_ping := p3, kern := w\<rparr>)
         | None \<Rightarrow>
             (let s3 = s2\<lparr>r_ping := p3\<lparr>ping_num_xmit := ping_num_xmit p3 + 1\<rparr>, kern := w\<rparr>;
                  i = n_wrote (net_os s2) k
              in Some ((0, None), if i \<noteq> int buflen
                   then out (''ping: wrote '' @ ping_hostname p3 @ '' '' @ dec (int buflen) @ '' chars, ret=''
                             @ dec i @ nl) s3
                   else s3)))
      })"

text \<open>The quoted packet is looked for behind an IP header without options.\<close>

definition my_echo_reply :: "nat \<Rightarrow> ref \<Rightarrow> bool option" where
  "my_echo_reply icmp s =
     (let orig_ip = icmp + icmp_ip_off; orig_icmp = orig_ip + sizeof_ip; p = r_ping s in do {
        d \<leftarrow> addr_at s (orig_ip + ip_dst_off);
        (if d \<noteq> ping_dest p then Some False
         else do {
           proto \<leftarrow> byte_at s (orig_ip + ip_p_off);
           (if proto \<noteq> IPPROTO_ICMP then Some False
            else do {
              ty \<leftarrow> byte_at s (orig_icmp + icmp_type_off);
              (if uint ty \<noteq> ICMP_ECHO then Some False
               else do {
                 ident \<leftarrow> u16_at s (orig_icmp + icmp_id_off);
                 Some (uint (ntohs (ref_endian s) ident) = ping_ident p \<or> r_useless_ident s \<noteq> 0)
               })
            })
         })
      })"

text \<open>The kernel stores the next datagram in the buffer, and its sender beside it.\<close>

definition take_datagram :: "bool \<Rightarrow> 'n ref_state \<Rightarrow> ((errno + nat) \<times> 'n ref_state) option" where
  "take_datagram use_ipv6 s =
     (let w = kern s; k = k_recv w; s1 = s\<lparr>kern := w\<lparr>k_recv := k + 1\<rparr>\<rparr> in
      case os_recv (env w) k of
        RecvError err \<Rightarrow> Some (Inl err, s1)
      | RecvData d \<Rightarrow> do {
          buf \<leftarrow> ping_buffer (r_ping s);
          let got = take (ping_buflen use_ipv6 (ping_datalen (r_ping s))) d;
          buf1 \<leftarrow> write_range buf 0 got;
          Some (Inr (length got),
                upd_ping (\<lambda>p. p\<lparr>ping_buffer := Some buf1, ping_from := n_from (net_os s) k\<rparr>) s1)
        })"

text \<open>The bookkeeping of a reply: whether it is a duplicate.\<close>

definition count_reply :: "nat \<Rightarrow> 'n ping_data \<Rightarrow> (bool \<times> 'n ping_data) option" where
  "count_reply sq p = do {
     let p1 = p\<lparr>ping_num_recv := ping_num_recv p + 1\<rparr>;
     again \<leftarrow> ping_tst p1 sq;
     (if again
      then Some (True, p1\<lparr>ping_num_rept := ping_num_rept p1 + 1, ping_num_recv := ping_num_recv p1 - 1\<rparr>)
      else do { p2 \<leftarrow> ping_set p1 sq; Some (False, p2) })
   }"

definition ping_recv :: "ref \<Rightarrow> (int \<times> ref) option" where
  "ping_recv s = do {
     (r, s1) \<leftarrow> take_datagram False s;
     (case r of
        Inl err \<Rightarrow> Some (- 1, s1)
      | Inr n \<Rightarrow> do {
          buf \<leftarrow> ping_buffer (r_ping s1);
          (rc, icmp, buf1) \<leftarrow> icmp_generic_decode (ref_endian s1) buf n;
          let s2 = upd_ping (\<lambda>p. p\<lparr>ping_buffer := Some buf1\<rparr>) s1;
          let from = ping_from (r_ping s2);
          (if rc < 0
           then Some (- 1, complain (''packet too short ('' @ dec (int n) @ '' bytes) from '' @ inet_ntoa from @ nl) s2)
           else do {
             ty \<leftarrow> byte_at s2 (icmp + icmp_type_off);
             (if uint ty = ICMP_ECHOREPLY \<or> uint ty = ICMP_TIMESTAMPREPLY \<or> uint ty = ICMP_ADDRESSREPLY
              then do {
                ident \<leftarrow> u16_at s2 (icmp + icmp_id_off);
                (if uint (ntohs (ref_endian s2) ident) \<noteq> ping_ident (r_ping s2) \<and> r_useless_ident s2 = 0
                 then Some (- 1, s2)
                 else do {
                   let s3 = (if rc \<noteq> 0 then complain (''checksum mismatch from '' @ inet_ntoa from @ nl) s2 else s2);
                   sq \<leftarrow> u16_at s3 (icmp + icmp_seq_off);
                   (dup, p4) \<leftarrow> count_reply (unat (ntohs (ref_endian s3) sq)) (r_ping s3);
                   s5 \<leftarrow> call_handler (if dup then PEV_DUPLICATE else PEV_RESPONSE) from icmp (int n) (s3\<lparr>r_ping := p4\<rparr>);
                   Some (0, s5)
                 })
              }
              else if uint ty = ICMP_ECHO \<or> uint ty = ICMP_TIMESTAMP \<or> uint ty = ICMP_ADDRESS
              then Some (- 1, s2)
              else do {
                ours \<leftarrow> my_echo_reply icmp s2;
                (if \<not> ours then Some (- 1, s2)
                 else do { s3 \<leftarrow> call_handler PEV_NOECHO from icmp (int n) s2; Some (0, s3) })
              })
           })
        })
   }"

text \<open>The global variables as the program starts.\<close>

definition ref_boot :: "os \<Rightarrow> ipv4 ref_os \<Rightarrow> ref" where
  "ref_boot e n = \<lparr>kern = boot e, r_prog = ''ping'', net_os = n, r_ping = zero_ping, r_is_root = False,
     r_data_buffer = None, r_patptr = None, r_pattern_len = int MAXPATTERN, r_socket_type = 0,
     r_count = DEFAULT_PING_COUNT, r_interval = 0, r_data_length = PING_DATALEN, r_options = 0,
     r_suboptions = 0, r_preload = 0, r_tos = - 1, r_ttl = 0, r_timeout = - 1, r_linger = MAXWAIT,
     r_ping_type = Echo, r_useless_ident = 0, r_old_rrlen = 0, r_old_rr = replicate 40 0\<rparr>"

section \<open>Every reply is counted once\<close>

text \<open>The replies of a run, in the order they arrive.\<close>

fun count_replies :: "nat list \<Rightarrow> 'n ping_data \<Rightarrow> 'n ping_data option" where
  "count_replies [] p = Some p"
| "count_replies (sq # sqs) p = do { (_, q) \<leftarrow> count_reply sq p; count_replies sqs q }"

lemma table_ok_counters [simp]:
  "table_ok (p\<lparr>ping_num_recv := n\<rparr>) = table_ok p" "seen (p\<lparr>ping_num_recv := n\<rparr>) = seen p"
  "c_ind (p\<lparr>ping_num_recv := n\<rparr>) = c_ind p"
  "table_ok (p\<lparr>ping_num_rept := n\<rparr>) = table_ok p" "seen (p\<lparr>ping_num_rept := n\<rparr>) = seen p"
  "c_ind (p\<lparr>ping_num_rept := n\<rparr>) = c_ind p"
  by (simp_all add: table_ok_def seen_def c_ind_def fun_eq_iff)

lemma count_reply_spec:
  fixes sq :: nat
  assumes "table_ok p"
  defines "again \<equiv> c_ind p sq \<in> seen p"
  shows "\<exists>q. count_reply sq p = Some (again, q) \<and> table_ok q \<and> c_ind q = c_ind p \<and>
    seen q = insert (c_ind p sq) (seen p) \<and>
    ping_num_recv q = ping_num_recv p + (if again then 0 else 1) \<and>
    ping_num_rept q = ping_num_rept p + (if again then 1 else 0)"
proof -
  let ?p1 = "p\<lparr>ping_num_recv := ping_num_recv p + 1\<rparr>"
  have tst: "ping_tst ?p1 sq = Some again" using ck.mem [of ?p1 sq] assms by simp
  obtain q where q: "ping_set ?p1 sq = Some q" "table_ok q" "seen q = insert (c_ind p sq) (seen p)"
    "\<exists>t. q = ?p1\<lparr>ping_cktab := t\<rparr>"
    using ping_set_seen [of ?p1 sq] assms by auto
  show ?thesis
  proof (cases again)
    case True
    then show ?thesis using assms tst by (auto simp: count_reply_def)
  next
    case False
    then show ?thesis using q tst by (auto simp: count_reply_def)
  qed
qed

text \<open>C37. However replies arrive, in any order and with any repetition, the reference counts each
  sequence number once, modulo the size of its table: the received counter goes up by the number
  of distinct new ones, every other reply is counted as a duplicate, and the table ends up
  holding exactly those seen.\<close>

theorem replies_counted_once:
  assumes "table_ok p"
  shows "\<exists>q. count_replies sqs p = Some q \<and> table_ok q \<and> seen q = seen p \<union> c_ind p ` set sqs \<and>
    ping_num_recv q = ping_num_recv p + card (c_ind p ` set sqs - seen p) \<and>
    ping_num_recv q + ping_num_rept q = ping_num_recv p + ping_num_rept p + length sqs"
  using assms
proof (induction sqs arbitrary: p)
  case (Cons sq sqs)
  obtain q where q: "count_reply sq p = Some (c_ind p sq \<in> seen p, q)" "table_ok q" "c_ind q = c_ind p"
    "seen q = insert (c_ind p sq) (seen p)"
    "ping_num_recv q = ping_num_recv p + (if c_ind p sq \<in> seen p then 0 else 1)"
    "ping_num_rept q = ping_num_rept p + (if c_ind p sq \<in> seen p then 1 else 0)"
    using count_reply_spec [OF Cons.prems, of sq] by blast
  have new: "c_ind p ` set (sq # sqs) - seen p =
      (if c_ind p sq \<in> seen p then c_ind p ` set sqs - seen q else insert (c_ind p sq) (c_ind p ` set sqs - seen q))"
    using q(4) by auto
  then have "card (c_ind p ` set (sq # sqs) - seen p) =
      (if c_ind p sq \<in> seen p then 0 else 1) + card (c_ind p ` set sqs - seen q)"
    using q(4) by simp
  then show ?case using Cons.IH [OF q(2)] q by (cases "c_ind p sq \<in> seen p") auto
qed simp

theorem replies_counted_once_witness:
  "\<exists>q. count_replies [0, 1, 0, 1024] fresh_ping = Some q \<and> ping_num_recv q = 2 \<and> ping_num_rept q = 2"
proof -
  have ok: "table_ok fresh_ping" by (simp add: table_ok_def fresh_ping_def)
  have "seen fresh_ping = {}" by (auto simp: seen_def fresh_ping_def less_mult_imp_div_less)
  moreover have "c_ind fresh_ping ` set [0, 1, 0, 1024] = {0, 1}" by (auto simp: c_ind_def fresh_ping_def)
  ultimately show ?thesis
    using replies_counted_once [OF ok, of "[0, 1, 0, 1024]"] by (auto simp: fresh_ping_def)
qed

end
