(* ===== verification/Ref_Run.thy ===== *)
theory Ref_Run
  imports Ref_Lib Ping_Signal
begin

text \<open>
  The loop of the reference, \<open>ping_run\<close> and \<open>send_echo\<close> of \<open>inetutils-2.0/ping/ping.c\<close>. The
  program's loop was written after it, with one clock and one blocking call. \<open>ref_run\<close> takes a
  bound on the passes of the loop and is \<open>None\<close> when it is not enough. \<open>ping6.c\<close> has the same text for
  both but for the names of the functions called, so the definitions take those as a parameter. The stop flag is the flag
  of the kernel state, tested as in the program; \<open>select\<close> answers like \<open>poll\<close>.
\<close>

section \<open>Sending\<close>

definition timeval_bytes :: "endian \<Rightarrow> timeval \<Rightarrow> byte list" where
  "timeval_bytes e tv = int64_bytes e (fst tv) @ int64_bytes e (snd tv)"

definition put_stamp :: "bool \<Rightarrow> 'n ref_state \<Rightarrow> (nat \<times> 'n ref_state) option" where
  "put_stamp use_ipv6 s =
     (if PING_TIMING (r_data_length s)
      then do {
        let (tv, s1) = gettimeofday s;
        (_, s2) \<leftarrow> ping_set_data use_ipv6 (timeval_bytes (ref_endian s1) tv) 0 sizeof_timeval s1;
        Some (sizeof_timeval, s2)
      }
      else Some (0, s))"

definition put_filler :: "bool \<Rightarrow> nat \<Rightarrow> 'n ref_state \<Rightarrow> 'n ref_state option" where
  "put_filler use_ipv6 off s = (case r_data_buffer s of
       None \<Rightarrow> Some s
     | Some bs \<Rightarrow> do {
         (_, s1) \<leftarrow> ping_set_data use_ipv6 bs off (if off < r_data_length s then r_data_length s - off else r_data_length s) s;
         Some s1
       })"

text \<open>
  What the two programs put into the same loop: their \<open>ping_recv\<close>, their \<open>ping_xmit\<close> and the seconds
  to wait for the last replies.
\<close>

record 'n ping_ops =
  op_ipv6 :: bool
  op_recv :: "'n ref_state \<Rightarrow> (int \<times> 'n ref_state) option"
  op_xmit :: "'n ref_state \<Rightarrow> ((int \<times> errno option) \<times> 'n ref_state) option"
  op_linger :: "'n ref_state \<Rightarrow> int"

definition ping4 :: "ipv4 ping_ops" where
  "ping4 = \<lparr>op_ipv6 = False, op_recv = ping_recv, op_xmit = ping_xmit, op_linger = r_linger\<rparr>"

definition send_echo :: "'n ping_ops \<Rightarrow> 'n ref_state \<Rightarrow> ((int + int) \<times> 'n ref_state) option" where
  "send_echo ops s = do {
     (off, s1) \<leftarrow> put_stamp (op_ipv6 ops) s;
     s2 \<leftarrow> put_filler (op_ipv6 ops) off s1;
     (r, s3) \<leftarrow> op_xmit ops s2;
     (case r of
        (rc, Some err) \<Rightarrow> Some (die_errno err ''sending packet'' s3)
      | (rc, None) \<Rightarrow> Some (Inr rc, s3))
   }"

section \<open>The time to wait\<close>

function borrow_usec :: "timeval \<Rightarrow> timeval" where
  "borrow_usec (sec, usec) = (if usec < 0 then borrow_usec (sec - 1, usec + 1000000) else (sec, usec))"
  by pat_completeness auto
termination
  by (relation "measure (\<lambda>(sec, usec). nat (- usec))") auto

declare borrow_usec.simps [simp del]

function carry_usec :: "timeval \<Rightarrow> timeval" where
  "carry_usec (sec, usec) = (if 1000000 \<le> usec then carry_usec (sec + 1, usec - 1000000) else (sec, usec))"
  by pat_completeness auto
termination
  by (relation "measure (\<lambda>(sec, usec). nat usec)") auto

declare carry_usec.simps [simp del]

definition resp_time :: "timeval \<Rightarrow> timeval \<Rightarrow> timeval \<Rightarrow> timeval" where
  "resp_time prev intvl now =
     (let t = carry_usec (borrow_usec (fst prev + fst intvl - fst now, snd prev + snd intvl - snd now))
      in if fst t < 0 then (0, 0) else t)"

section \<open>The loop\<close>

text \<open>The local variables; \<open>l_timed\<close> says that \<open>t\<close> is no longer null.\<close>

record locals =
  l_last :: timeval
  l_intvl :: timeval
  l_finishing :: bool
  l_nresp :: nat
  l_timed :: bool

datatype loop_end = Continue locals | Break

definition select_call :: "timeval \<Rightarrow> 'n ref_state \<Rightarrow> poll_result \<times> 'n ref_state" where
  "select_call wait s = (let w = kern s in (os_poll (env w) (k_poll w), s\<lparr>kern := w\<lparr>k_poll := k_poll w + 1\<rparr>\<rparr>))"

definition readable_branch :: "'n ping_ops \<Rightarrow> locals \<Rightarrow> 'n ref_state \<Rightarrow> ((int + loop_end) \<times> 'n ref_state) option" where
  "readable_branch ops v s = do {
     (rc, s1) \<leftarrow> op_recv ops s;
     let v1 = (if rc = 0 then v\<lparr>l_nresp := l_nresp v + 1\<rparr> else v);
     let (v2, s2) = (if l_timed v1 then (v1, s1) else (v1\<lparr>l_timed := True\<rparr>, snd (gettimeofday s1)));
     let (over, s3) = ping_timeout_p (ping_start_time (r_ping s2)) (r_timeout s2) s2;
     Some (Inr (if over then Break
                else if ping_count (r_ping s3) \<noteq> 0 \<and> ping_count (r_ping s3) \<le> l_nresp v2 then Break
                else Continue v2), s3)
   }"

definition timer_branch :: "'n ping_ops \<Rightarrow> locals \<Rightarrow> 'n ref_state \<Rightarrow> ((int + loop_end) \<times> 'n ref_state) option" where
  "timer_branch ops v s =
     (if ping_count (r_ping s) = 0 \<or> ping_num_xmit (r_ping s) < ping_count (r_ping s)
      then do {
        r \<leftarrow> send_echo ops s;
        unless_ended r (\<lambda>_ s1.
          let s2 = (if \<not> has_opt s1 OPT_QUIET \<and> has_opt s1 OPT_FLOOD then out ''.'' s1 else s1);
              (over, s3) = ping_timeout_p (ping_start_time (r_ping s2)) (r_timeout s2) s2
          in if over then Some (Inr Break, s3)
             else (let (now, s4) = gettimeofday s3 in Some (Inr (Continue (v\<lparr>l_last := now\<rparr>)), s4)))
      }
      else if l_finishing v then Some (Inr Break, s)
      else (let v1 = v\<lparr>l_finishing := True, l_intvl := (op_linger ops s, snd (l_intvl v))\<rparr>;
                (now, s1) = gettimeofday s
            in Some (Inr (Continue (v1\<lparr>l_last := now\<rparr>)), s1)))"

definition ref_pass :: "'n ping_ops \<Rightarrow> locals \<Rightarrow> 'n ref_state \<Rightarrow> ((int + loop_end) \<times> 'n ref_state) option" where
  "ref_pass ops v s =
     (let (now, s1) = gettimeofday s;
          wait = resp_time (l_last v) (l_intvl v) now;
          (n, s2) = select_call wait s1
      in case n of
           PollError err \<Rightarrow> Some (if err \<noteq> EINTR then die_errno err ''select failed'' s2 else (Inr (Continue v), s2))
         | PollReadable \<Rightarrow> readable_branch ops v s2
         | PollTimeout \<Rightarrow> timer_branch ops v s2)"

definition ref_should_stop :: "'n ref_state \<Rightarrow> bool \<times> 'n ref_state" where
  "ref_should_stop s = (let (b, w) = ping_should_stop (kern s) in (b, s\<lparr>kern := w\<rparr>))"

fun ref_loop :: "'n ping_ops \<Rightarrow> nat \<Rightarrow> locals \<Rightarrow> 'n ref_state \<Rightarrow> ((int + unit) \<times> 'n ref_state) option" where
  "ref_loop ops 0 v s = None"
| "ref_loop ops (Suc fuel) v s =
     (let (stop, s1) = ref_should_stop s in
      if stop then Some (Inr (), s1)
      else do {
        r \<leftarrow> ref_pass ops v s1;
        unless_ended r (\<lambda>e s2. case e of Break \<Rightarrow> Some (Inr (), s2) | Continue v1 \<Rightarrow> ref_loop ops fuel v1 s2)
      })"

fun ref_preload :: "'n ping_ops \<Rightarrow> nat \<Rightarrow> 'n ref_state \<Rightarrow> ((int + unit) \<times> 'n ref_state) option" where
  "ref_preload ops 0 s = Some (Inr (), s)"
| "ref_preload ops (Suc n) s = do { r \<leftarrow> send_echo ops s; unless_ended r (\<lambda>_ s1. ref_preload ops n s1) }"

definition start_locals :: "timeval \<Rightarrow> 'n ref_state \<Rightarrow> locals" where
  "start_locals now s = \<lparr>l_last = now,
     l_intvl = (if has_opt s OPT_FLOOD then (0, 10000) else PING_SET_INTERVAL (ping_interval (r_ping s))),
     l_finishing = False, l_nresp = 0, l_timed = False\<rparr>"

definition ref_run ::
  "'n ping_ops \<Rightarrow> nat \<Rightarrow> ('n ref_state \<Rightarrow> (int \<times> 'n ref_state) option) \<Rightarrow> 'n ref_state \<Rightarrow>
     ((int + int) \<times> 'n ref_state) option" where
  "ref_run ops fuel finish s = do {
     r0 \<leftarrow> ref_preload ops (r_preload s) s;
     unless_ended r0 (\<lambda>_ s1.
       let (now, s2) = gettimeofday s1; v = start_locals now s2 in do {
         r1 \<leftarrow> send_echo ops s2;
         unless_ended r1 (\<lambda>_ s3. do {
           r2 \<leftarrow> ref_loop ops fuel v s3;
           unless_ended r2 (\<lambda>_ s4. do {
             (rc, s5) \<leftarrow> finish (ping_unset_data s4);
             Some (Inr rc, s5)
           })
         })
       })
   }"

section \<open>The time to wait is right\<close>

lemma borrow_usec_spec:
  "usecs (borrow_usec t) = usecs t \<and> 0 \<le> snd (borrow_usec t) \<and>
   (0 \<le> snd t \<longrightarrow> borrow_usec t = t) \<and> (snd t < 0 \<longrightarrow> snd (borrow_usec t) < 1000000)"
proof (induction t rule: borrow_usec.induct)
  case (1 sec usec)
  show ?case
  proof (cases "usec < 0")
    case True
    then show ?thesis using 1 [OF True]
      by (subst (1 2 3 4) borrow_usec.simps) (auto simp: usecs_def not_le, smt (verit) borrow_usec.simps snd_conv)
  qed (simp add: borrow_usec.simps)
qed

lemma carry_usec_spec:
  assumes "0 \<le> snd t"
  shows "usecs (carry_usec t) = usecs t \<and> normed (carry_usec t)"
  using assms
proof (induction t rule: carry_usec.induct)
  case (1 sec usec)
  show ?case
  proof (cases "1000000 \<le> usec")
    case True
    then have "carry_usec (sec, usec) = carry_usec (sec + 1, usec - 1000000)" by (simp add: carry_usec.simps)
    then show ?thesis using 1(1) [OF True] True by (simp add: usecs_def)
  qed (use 1(2) in \<open>simp add: carry_usec.simps normed_def\<close>)
qed

lemma negative_iff: "normed t \<Longrightarrow> fst t < 0 \<longleftrightarrow> usecs t < 0"
  by (auto simp: normed_def usecs_def)

text \<open>C39. The timeout the reference hands to \<open>select\<close> is exactly the time left: the previous sending
  time plus the interval minus the current time, in microseconds, zero when it is past, and it is
  always a well-formed \<open>timeval\<close>, whatever the three times are. The two correction loops end.\<close>

theorem resp_time_exact:
  "normed (resp_time prev intvl now) \<and>
   usecs (resp_time prev intvl now) = max 0 (usecs prev + usecs intvl - usecs now)"
proof -
  define d where "d = (fst prev + fst intvl - fst now, snd prev + snd intvl - snd now)"
  define t where "t = carry_usec (borrow_usec d)"
  have "usecs d = usecs prev + usecs intvl - usecs now" by (simp add: d_def usecs_def algebra_simps)
  moreover have "usecs t = usecs d" "normed t"
    using carry_usec_spec [of "borrow_usec d"] borrow_usec_spec [of d] by (simp_all add: t_def)
  moreover have "resp_time prev intvl now = (if fst t < 0 then (0, 0) else t)"
    by (simp add: resp_time_def Let_def t_def d_def)
  ultimately show ?thesis using negative_iff [of t] by (simp add: normed_def usecs_def)
qed

end
