(* ===== verification/Ref6_Print.thy ===== *)
theory Ref6_Print
  imports Ref_Run Inet_Ntop
begin

text \<open>
  What \<open>ping6\<close>, the IPv6 ping of the reference (\<open>inetutils-2.0/ping/ping6.c\<close>), prints: replies, ICMPv6
  errors, the summary. It shares \<open>ping_common.c\<close> with \<open>ping\<close>, so its state is the same record with
  another type of addresses, 16 bytes; the hop limit is \<open>r_ttl\<close> and the traffic class \<open>r_tos\<close>. A received
  message starts at the front of \<open>ping_buffer\<close>, and reading past the buffer is \<open>None\<close>.
\<close>

type_synonym ipv6 = "byte list"
type_synonym PING6 = "ipv6 ping_data"
type_synonym ref6 = "ipv6 ref_state"

section \<open>Layout of an ICMPv6 message and of an IPv6 header\<close>

definition ICMP6_DST_UNREACH :: int where "ICMP6_DST_UNREACH = 1"
definition ICMP6_PACKET_TOO_BIG :: int where "ICMP6_PACKET_TOO_BIG = 2"
definition ICMP6_TIME_EXCEEDED :: int where "ICMP6_TIME_EXCEEDED = 3"
definition ICMP6_PARAM_PROB :: int where "ICMP6_PARAM_PROB = 4"
definition ICMP6_ECHO_REQUEST :: int where "ICMP6_ECHO_REQUEST = 128"
definition ICMP6_ECHO_REPLY :: int where "ICMP6_ECHO_REPLY = 129"
definition IPPROTO_ICMPV6 :: int where "IPPROTO_ICMPV6 = 58"

lemmas icmp6_types = ICMP6_DST_UNREACH_def ICMP6_PACKET_TOO_BIG_def ICMP6_TIME_EXCEEDED_def ICMP6_PARAM_PROB_def
  ICMP6_ECHO_REQUEST_def ICMP6_ECHO_REPLY_def IPPROTO_ICMPV6_def

text \<open>Offsets in \<open>struct icmp6_hdr\<close>, which has 8 bytes, and in \<open>struct ip6_hdr\<close>, which has 40.\<close>

definition icmp6_type_off :: nat where "icmp6_type_off = 0"
definition icmp6_code_off :: nat where "icmp6_code_off = 1"
definition icmp6_cksum_off :: nat where "icmp6_cksum_off = 2"
definition icmp6_mtu_off :: nat where "icmp6_mtu_off = 4"
definition icmp6_id_off :: nat where "icmp6_id_off = 4"
definition icmp6_seq_off :: nat where "icmp6_seq_off = 6"
definition sizeof_ip6_hdr :: nat where "sizeof_ip6_hdr = 40"
definition ip6_flow_off :: nat where "ip6_flow_off = 0"
definition ip6_plen_off :: nat where "ip6_plen_off = 4"
definition ip6_nxt_off :: nat where "ip6_nxt_off = 6"
definition ip6_hlim_off :: nat where "ip6_hlim_off = 7"
definition ip6_src_off :: nat where "ip6_src_off = 8"
definition ip6_dst_off :: nat where "ip6_dst_off = 24"

lemmas icmp6_layout = icmp6_type_off_def icmp6_code_off_def icmp6_cksum_off_def icmp6_mtu_off_def icmp6_id_off_def
  icmp6_seq_off_def sizeof_icmp6_hdr_def
lemmas ip6_layout = sizeof_ip6_hdr_def ip6_flow_off_def ip6_plen_off_def ip6_nxt_off_def ip6_hlim_off_def
  ip6_src_off_def ip6_dst_off_def

section \<open>Replies\<close>

text \<open>\<open>getnameinfo\<close> without \<open>NI_NAMEREQD\<close>: a name, or the numeric form when there is none.\<close>

definition getnameinfo6 :: "ipv6 \<Rightarrow> ref6 \<Rightarrow> string + string" where
  "getnameinfo6 a s =
     (if has_opt s OPT_NUMERIC then n_numeric (net_os s) a
      else (case n_named (net_os s) a of Some name \<Rightarrow> Inr name | None \<Rightarrow> n_numeric (net_os s) a))"

definition print_echo6 :: "bool \<Rightarrow> int \<Rightarrow> ipv6 \<Rightarrow> int \<Rightarrow> ref6 \<Rightarrow> ref6 option" where
  "print_echo6 dupflag hops from datalen s = do {
     let (tv, s1) = gettimeofday s;
     (timing, triptime, s2) \<leftarrow>
       (if PING_TIMING (nat ((datalen - int sizeof_icmp6_hdr) mod 18446744073709551616))
        then do {
          tv1 \<leftarrow> timeval_at s1 sizeof_icmp6_hdr;
          let t = triptime_ms (tvsub tv tv1);
          Some (True, t, upd_ping (\<lambda>p. p\<lparr>ping_closure := add_triptime t (ping_closure p)\<rparr>) s1)
        }
        else Some (False, Fin 0, s1));
     (if has_opt s2 OPT_QUIET then Some s2
      else if has_opt s2 OPT_FLOOD then Some (out [CHR 0x08] s2)
      else do {
        let (buf, s3) = (case getnameinfo6 from s2 of
            Inr name \<Rightarrow> (name, s2)
          | Inl errmsg \<Rightarrow> (''unknown'', complain (''ping: getnameinfo: '' @ errmsg @ nl) s2));
        sq \<leftarrow> u16_at s3 icmp6_seq_off;
        let s4 = out (dec datalen @ '' bytes from '' @ buf @ '': icmp_seq='' @ dec (uint (ntohs (ref_endian s3) sq))) s3;
        let s5 = (if 0 \<le> hops then out ('' ttl='' @ dec hops) s4 else s4);
        let s6 = (if timing then out ('' time='' @ fmt_f3 triptime @ '' ms'') s5 else s5);
        let s7 = (if dupflag then out '' (DUP!)'' s6 else s6);
        Some (out nl s7)
      })
   }"

section \<open>Errors\<close>

text \<open>The loop over a table of code descriptions.\<close>

definition describe_code :: "(int \<times> string) list \<Rightarrow> ref6 \<Rightarrow> ref6 option" where
  "describe_code descr s = do {
     code \<leftarrow> byte_at s icmp6_code_off;
     Some (case find (\<lambda>(c, _). c = uint code) descr of
         Some (_, diag) \<Rightarrow> out (diag @ nl) s
       | None \<Rightarrow> out (''Unknown code '' @ dec (uint code) @ nl) s)
   }"

definition icmp_dest_unreach_desc :: "(int \<times> string) list" where
  "icmp_dest_unreach_desc =
     [(0, ''No route to destination''),
      (1, ''Destination administratively prohibited''),
      (2, ''Beyond scope of source address''),
      (3, ''Address unreachable''),
      (4, ''Port unreachable'')]"

definition print_dst_unreach :: "ref6 \<Rightarrow> ref6 option" where
  "print_dst_unreach s = describe_code icmp_dest_unreach_desc (out ''Destination unreachable: '' s)"

text \<open>The number is printed as it is stored, without \<open>ntohl\<close>.\<close>

definition print_packet_too_big :: "ref6 \<Rightarrow> ref6 option" where
  "print_packet_too_big s = do {
     mtu \<leftarrow> u32_at s icmp6_mtu_off;
     Some (out (''Packet too big, mtu='' @ dec (uint mtu) @ nl) s)
   }"

definition icmp_time_exceeded_desc :: "(int \<times> string) list" where
  "icmp_time_exceeded_desc = [(0, ''Hop limit exceeded''), (1, ''Fragment reassembly timeout'')]"

definition print_time_exceeded :: "ref6 \<Rightarrow> ref6 option" where
  "print_time_exceeded s = describe_code icmp_time_exceeded_desc (out ''Time exceeded: '' s)"

definition icmp_param_prob_desc :: "(int \<times> string) list" where
  "icmp_param_prob_desc =
     [(0, ''Erroneous header field''),
      (1, ''Unrecognized Next Header type''),
      (2, ''Unrecognized IPv6 option'')]"

definition print_param_prob :: "ref6 \<Rightarrow> ref6 option" where
  "print_param_prob s = describe_code icmp_param_prob_desc (out ''Parameter problem: '' s)"

text \<open>
  The first eight bytes of the quoted header, two by two; its fields; the quoted ICMPv6 header. The
  quoted packet begins behind the ICMPv6 header.
\<close>

fun dump_bytes :: "nat \<Rightarrow> byte list \<Rightarrow> string" where
  "dump_bytes j [] = []"
| "dump_bytes j (b # bs) = hex2 b @ (if j mod 2 = 1 then '' '' else []) @ dump_bytes (j + 1) bs"

definition ip6_fields :: "nat \<Rightarrow> ref6 \<Rightarrow> string option" where
  "ip6_fields ip s = do {
     dst_bytes \<leftarrow> bytes_at s (ip + ip6_dst_off) 16;
     dst \<leftarrow> inet_ntop AF_INET6 dst_bytes INET6_ADDRSTRLEN;
     src_bytes \<leftarrow> bytes_at s (ip + ip6_src_off) 16;
     src \<leftarrow> inet_ntop AF_INET6 src_bytes INET6_ADDRSTRLEN;
     flow0 \<leftarrow> u32_at s (ip + ip6_flow_off);
     plen \<leftarrow> u16_at s (ip + ip6_plen_off);
     nxt \<leftarrow> byte_at s (ip + ip6_nxt_off);
     hlim \<leftarrow> byte_at s (ip + ip6_hlim_off);
     let flow = unat (ntohl (ref_endian s) flow0);
     Some ('' '' @ lower_hex (flow div 268435456) @
           '' '' @ pad_left 2 (CHR ''0'') (lower_hex (flow mod 268435456 div 1048576)) @
           '' '' @ pad_left 4 (CHR ''0'') (lower_hex (flow mod 1048576)) @
           '' '' @ pad_left 4 (CHR '' '') (dec (uint (ntohs (ref_endian s) plen))) @
           '' '' @ pad_left 3 (CHR '' '') (dec (uint nxt)) @
           '' '' @ pad_left 3 (CHR '' '') (dec (uint hlim)) @
           '' '' @ src @ '' '' @ dst @ nl)
   }"

definition quoted_icmp6 :: "nat \<Rightarrow> ref6 \<Rightarrow> ref6 option" where
  "quoted_icmp6 ip s = (let hdr = ip + sizeof_ip6_hdr; e = ref_endian s in do {
     ty \<leftarrow> byte_at s (hdr + icmp6_type_off);
     code \<leftarrow> byte_at s (hdr + icmp6_code_off);
     plen \<leftarrow> u16_at s (ip + ip6_plen_off);
     let s1 = out (''ICMP: type '' @ dec (uint ty) @ '', code '' @ dec (uint code) @ '', size ''
                   @ dec (uint (ntohs e plen))) s;
     (if uint ty = ICMP6_ECHO_REQUEST \<or> uint ty = ICMP6_ECHO_REPLY
      then do {
        ident \<leftarrow> u16_at s1 (hdr + icmp6_id_off);
        sq \<leftarrow> u16_at s1 (hdr + icmp6_seq_off);
        Some (out ('', id 0x'' @ hex4 (ntohs e ident) @ '', seq 0x'' @ hex4 (ntohs e sq)) s1)
      }
      else Some s1)
   })"

definition print_ip_data6 :: "ref6 \<Rightarrow> ref6 option" where
  "print_ip_data6 s = (let ip = sizeof_icmp6_hdr in do {
     fields \<leftarrow> ip6_fields ip s;
     head \<leftarrow> bytes_at s ip 8;
     let s1 = out (''IP Header Dump:'' @ nl @ '' '') s;
     let s2 = out (dump_bytes 0 head @ ''(src) (dst)'' @ nl) s1;
     let s3 = out (''Vr TC Flow Plen Nxt Hop Src'' @ [CHR 0x09, CHR 0x09] @ ''  Dst'' @ nl) s2;
     let s4 = out fields s3;
     nxt \<leftarrow> byte_at s4 (ip + ip6_nxt_off);
     s5 \<leftarrow> (if uint nxt = IPPROTO_ICMPV6 then quoted_icmp6 ip s4 else Some s4);
     Some (out nl s5)
   })"

definition icmp6_diag :: "(int \<times> (ref6 \<Rightarrow> ref6 option)) list" where
  "icmp6_diag =
     [(ICMP6_DST_UNREACH, print_dst_unreach),
      (ICMP6_PACKET_TOO_BIG, print_packet_too_big),
      (ICMP6_TIME_EXCEEDED, print_time_exceeded),
      (ICMP6_PARAM_PROB, print_param_prob)]"

definition print_icmp_error6 :: "ipv6 \<Rightarrow> int \<Rightarrow> ref6 \<Rightarrow> ref6 option" where
  "print_icmp_error6 from len s = do {
     let (name, s1) = ipaddr2str from s;
     let s2 = out (dec len @ '' bytes from '' @ name @ '': '') s1;
     ty \<leftarrow> byte_at s2 icmp6_type_off;
     (case find (\<lambda>(t, _). t = uint ty) icmp6_diag of
        Some (_, func) \<Rightarrow> do {
          s3 \<leftarrow> func s2;
          (if has_opt s3 OPT_VERBOSE then print_ip_data6 s3 else Some s3)
        }
      | None \<Rightarrow> Some (out (''Unknown ICMP type: '' @ dec (uint ty) @ nl) s2))
   }"

section \<open>The summary\<close>

definition loss_percent6 :: "PING6 \<Rightarrow> int" where
  "loss_percent6 p =
     i32 (int (((ping_num_xmit p - ping_num_recv p) * 100) mod 18446744073709551616 div ping_num_xmit p))"

definition ping_finish6 :: "ref6 \<Rightarrow> int \<times> ref6" where
  "ping_finish6 s =
     (let p = r_ping s;
          s1 = out (''--- '' @ ping_hostname p @ '' ping statistics ---'' @ nl) s;
          s2 = out (dec (int (ping_num_xmit p)) @ '' packets transmitted, '') s1;
          s3 = out (dec (int (ping_num_recv p)) @ '' packets received, '') s2;
          s4 = (if ping_num_rept p \<noteq> 0
                then out (''+'' @ dec (int (ping_num_rept p)) @ '' duplicates, '') s3 else s3);
          s5 = (if ping_num_xmit p \<noteq> 0
                then (if ping_num_xmit p < ping_num_recv p
                      then out (''-- somebody'' @ [CHR 0x27] @ ''s printing up packets!'') s4
                      else out (dec (loss_percent6 p) @ ''% packet loss'') s4)
                else s4)
      in (0, out nl s5))"

definition echo_finish6 :: "ref6 \<Rightarrow> (int \<times> ref6) option" where
  "echo_finish6 s =
     (let (_, s1) = ping_finish6 s; p = r_ping s1 in
      if ping_num_recv p \<noteq> 0 \<and> PING_TIMING (r_data_length s1)
      then do {
        let total = dint (int (ping_num_recv p + ping_num_rept p));
        let avg = ddiv (tsum (ping_closure p)) total;
        let vari = dsub (ddiv (tsumsq (ping_closure p)) total) (dmul avg avg);
        root \<leftarrow> nsqrt vari (fl (5 / 10000));
        Some (if ping_num_recv p = 0 then 1 else 0,
          out (''round-trip min/avg/max/stddev = '' @ fmt_f3 (tmin (ping_closure p)) @ ''/''
             @ fmt_f3 avg @ ''/'' @ fmt_f3 (tmax (ping_closure p)) @ ''/'' @ fmt_f3 root @ '' ms'' @ nl) s1)
      }
      else Some (if ping_num_recv p = 0 then 1 else 0, s1))"

end
