(* ===== verification/Ref_Main.thy ===== *)
theory Ref_Main
  imports Ref_Run
begin

text \<open>
  The rest of \<open>inetutils-2.0/ping/ping.c\<close>, with \<open>ping_echo\<close>, \<open>ping_timestamp\<close>, \<open>ping_address\<close> and
  \<open>ping_router\<close>: the option switch, the request types and \<open>main\<close>. \<open>argp_parse\<close> is a library of
  its own: as documented it calls \<open>parse_opt\<close> for each option in order, and the model of \<open>main\<close>
  takes that list of calls, and the hosts that follow, as parameters. The value that
  \<open>ping_set_sockopt\<close> hands to the kernel is part of the address of its argument; nothing depends
  on it, and the call is left out.
\<close>

section \<open>Options\<close>

definition ARG_ECHO :: int where "ARG_ECHO = 256"
definition ARG_ADDRESS :: int where "ARG_ADDRESS = 257"
definition ARG_TIMESTAMP :: int where "ARG_TIMESTAMP = 258"
definition ARG_ROUTERDISCOVERY :: int where "ARG_ROUTERDISCOVERY = 259"
definition ARG_TTL :: int where "ARG_TTL = 260"
definition ARG_IPTIMESTAMP :: int where "ARG_IPTIMESTAMP = 261"
definition ARGP_KEY_NO_ARGS :: int where "ARGP_KEY_NO_ARGS = 0x1000002"
definition INT_MAX :: int where "INT_MAX = 2147483647"
definition PING_MAX_DATALEN :: int where "PING_MAX_DATALEN = 65535 - int MAXIPLEN - int MAXICMPLEN"
definition SO_DEBUG :: u32 where "SO_DEBUG = 1"
definition ref_SO_DONTROUTE :: u32 where "ref_SO_DONTROUTE = 5"

definition strcasecmp_eq :: "string \<Rightarrow> string \<Rightarrow> bool" where
  "strcasecmp_eq a b \<longleftrightarrow> map c_tolower a = map c_tolower b"

definition decode_type :: "string \<Rightarrow> ref \<Rightarrow> (int + request) \<times> ref" where
  "decode_type arg s =
     (if strcasecmp_eq arg ''echo'' then (Inr Echo, s)
      else if strcasecmp_eq arg ''timestamp'' then (Inr Timestamp, s)
      else if strcasecmp_eq arg ''address'' then (Inr AddressMask, s)
      else if strcasecmp_eq arg ''mask'' then (Inr AddressMask, s)
      else die (''unsupported packet type: '' @ arg) s)"

definition decode_ip_timestamp :: "string \<Rightarrow> ref \<Rightarrow> (int + u32) \<times> ref" where
  "decode_ip_timestamp arg s =
     (if strcasecmp_eq arg ''tsonly'' then (Inr SOPT_TSONLY, s)
      else if strcasecmp_eq arg ''tsaddr'' then (Inr SOPT_TSADDR, s)
      else die (''unsupported timestamp type: '' @ arg) s)"

text \<open>The conversion of a \<open>double\<close> to \<open>size_t\<close>, undefined outside its range.\<close>

fun size_of_double :: "double \<Rightarrow> nat option" where
  "size_of_double (Fin q) = (if - 1 < q \<and> q < 18446744073709551616 then Some (nat \<lfloor>q\<rfloor>) else None)"
| "size_of_double _ = None"

text \<open>\<open>argp_error\<close>: the message, a hint, and \<open>exit (EX_USAGE)\<close>.\<close>

definition argp_error :: "string \<Rightarrow> 'n ref_state \<Rightarrow> (int + 'a) \<times> 'n ref_state" where
  "argp_error msg s = (Inl 64, complain (r_prog s @ '': '' @ msg @ nl
     @ ''Try '' @ [CHR 0x27] @ r_prog s @ '' --help'' @ [CHR 0x27] @ '' or '' @ [CHR 0x27] @ r_prog s
     @ '' --usage'' @ [CHR 0x27] @ '' for more information.'' @ nl) s)"

definition set_number ::
  "(int + int) \<times> 'n ref_state \<Rightarrow> (int \<Rightarrow> 'n ref_state \<Rightarrow> 'n ref_state) \<Rightarrow>
     ((int + bool) \<times> 'n ref_state) option" where
  "set_number r f = unless_ended r (\<lambda>n s. Some (Inr True, f n s))"

definition set_request :: "(int + request) \<times> ref \<Rightarrow> ((int + bool) \<times> ref) option" where
  "set_request r = unless_ended r (\<lambda>q s. Some (Inr True, s\<lparr>r_ping_type := q\<rparr>))"

text \<open>
  \<open>True\<close> is 0, \<open>False\<close> is \<open>ARGP_ERR_UNKNOWN\<close>. The static array \<open>pattern\<close> is the value of \<open>patptr\<close>
  after the first \<open>-p\<close>; a second \<open>-p\<close> decodes into it again, limited by the length of the first.
\<close>

definition parse_opt :: "int \<Rightarrow> string \<Rightarrow> ref \<Rightarrow> ((int + bool) \<times> ref) option" where
  "parse_opt key arg s =
     (if key = of_char (CHR ''c'') then
        set_number (ping_cvt_number arg 0 True s) (\<lambda>n s. s\<lparr>r_count := nat n\<rparr>)
      else if key = of_char (CHR ''d'') then
        Some (Inr True, s\<lparr>r_socket_type := r_socket_type s OR SO_DEBUG\<rparr>)
      else if key = of_char (CHR ''i'') then
        (let (v, endptr, _) = strtod arg in
         if endptr \<noteq> []
         then Some (argp_error (''invalid value (`'' @ arg @ [CHR 0x27] @ '' near `'' @ endptr @ [CHR 0x27] @ '')'') s)
         else do {
           n \<leftarrow> size_of_double (dmul v (dint PING_PRECISION));
           let s1 = s\<lparr>r_options := r_options s OR OPT_INTERVAL, r_interval := n\<rparr>;
           Some (if \<not> r_is_root s1 \<and> n < nat PING_MIN_USER_INTERVAL
                 then die (''option value too small: '' @ arg) s1 else (Inr True, s1))
         })
      else if key = of_char (CHR ''r'') then
        Some (Inr True, s\<lparr>r_socket_type := r_socket_type s OR ref_SO_DONTROUTE\<rparr>)
      else if key = of_char (CHR ''s'') then
        set_number (ping_cvt_number arg PING_MAX_DATALEN True s) (\<lambda>n s. s\<lparr>r_data_length := nat n\<rparr>)
      else if key = of_char (CHR ''n'') then Some (Inr True, s\<lparr>r_options := r_options s OR OPT_NUMERIC\<rparr>)
      else if key = of_char (CHR ''p'') then do {
        r \<leftarrow> ref_decode_pattern arg (r_pattern_len s)
               (case r_patptr s of Some bs \<Rightarrow> bs | None \<Rightarrow> replicate MAXPATTERN 0) s;
        unless_ended r (\<lambda>(i, bs) s1. Some (Inr True, s1\<lparr>r_pattern_len := int i, r_patptr := Some bs\<rparr>))
      }
      else if key = of_char (CHR ''q'') then Some (Inr True, s\<lparr>r_options := r_options s OR OPT_QUIET\<rparr>)
      else if key = of_char (CHR ''T'') then
        set_number (ping_cvt_number arg 255 True s) (\<lambda>n s. s\<lparr>r_tos := n\<rparr>)
      else if key = of_char (CHR ''w'') then
        set_number (ping_cvt_number arg INT_MAX False s) (\<lambda>n s. s\<lparr>r_timeout := n\<rparr>)
      else if key = of_char (CHR ''R'') then Some (Inr True, s\<lparr>r_options := r_options s OR OPT_RROUTE\<rparr>)
      else if key = of_char (CHR ''W'') then
        set_number (ping_cvt_number arg INT_MAX False s) (\<lambda>n s. s\<lparr>r_linger := n\<rparr>)
      else if key = of_char (CHR ''v'') then Some (Inr True, s\<lparr>r_options := r_options s OR OPT_VERBOSE\<rparr>)
      else if key = of_char (CHR ''l'') then
        (let (n, endptr) = strtoul0 arg; s1 = s\<lparr>r_preload := nat n\<rparr> in
         Some (if endptr \<noteq> [] \<or> INT_MAX < n then die (''invalid preload value ('' @ arg @ '')'') s1
               else (Inr True, s1)))
      else if key = of_char (CHR ''f'') then Some (Inr True, s\<lparr>r_options := r_options s OR OPT_FLOOD\<rparr>)
      else if key = of_char (CHR ''t'') then set_request (decode_type arg s)
      else if key = ARG_ECHO then set_request (decode_type ''echo'' s)
      else if key = ARG_TIMESTAMP then set_request (decode_type ''timestamp'' s)
      else if key = ARG_ADDRESS then set_request (decode_type ''address'' s)
      else if key = ARG_ROUTERDISCOVERY then set_request (decode_type ''router'' s)
      else if key = ARG_TTL then
        set_number (ping_cvt_number arg 255 False s) (\<lambda>n s. s\<lparr>r_ttl := n\<rparr>)
      else if key = ARG_IPTIMESTAMP then
        (let s1 = s\<lparr>r_options := r_options s OR OPT_IPTIMESTAMP\<rparr> in
         unless_ended (decode_ip_timestamp arg s1)
           (\<lambda>b s2. Some (Inr True, s2\<lparr>r_suboptions := r_suboptions s2 OR b\<rparr>)))
      else if key = ARGP_KEY_NO_ARGS then Some (argp_error ''missing host operand'' s)
      else Some (Inr False, s))"

section \<open>The request types\<close>

text \<open>The 40 bytes of IP options for \<open>-R\<close> and \<open>--ip-timestamp\<close>, and how many are used.\<close>

definition route_option :: "byte list" where
  "route_option = [IPOPT_RR, 39, 4] @ replicate 37 0"

definition timestamp_option :: "u32 \<Rightarrow> byte list" where
  "timestamp_option sub =
     (let ty = (if sub AND SOPT_TSPRESPEC \<noteq> 0 then IPOPT_TS_PRESPEC
                else if sub AND SOPT_TSADDR \<noteq> 0 then IPOPT_TS_TSANDADDR else IPOPT_TS_TSONLY);
          len = (if ty \<noteq> IPOPT_TS_TSONLY then 36 else 40)
      in take len ([IPOPT_TS, of_nat len, 5, ty] @ replicate 36 0))"

definition set_ip_options :: "ref \<Rightarrow> (int + unit) \<times> ref" where
  "set_ip_options s =
     (let opts = (if has_opt s OPT_RROUTE then Some route_option
                  else if has_opt s OPT_IPTIMESTAMP then Some (timestamp_option (r_suboptions s)) else None)
      in case opts of
           None \<Rightarrow> (Inr (), s)
         | Some bytes \<Rightarrow> (case n_setsockopt (net_os s) ''IP_OPTIONS'' bytes of
               Some err \<Rightarrow> die_errno err ''setsockopt'' s
             | None \<Rightarrow> (Inr (), s)))"

definition ping_echo :: "nat \<Rightarrow> string \<Rightarrow> ref \<Rightarrow> ((int + int) \<times> ref) option" where
  "ping_echo fuel hostname s =
     (if has_opt s OPT_FLOOD \<and> has_opt s OPT_INTERVAL
      then Some (die ''-f and -i incompatible options'' s)
      else (let st = \<lparr>tmin = Fin 999999999, tmax = Fin 0, tsum = Fin 0, tsumsq = Fin 0\<rparr>;
                s1 = ping_set_event_handler EchoHandler (Some st)
                       (ping_set_packetsize (r_data_length s) (ping_set_type ICMP_ECHO s));
                (rc, s2) = ping_set_dest hostname s1
            in if rc \<noteq> 0 then Some (die ''unknown host'' s2)
               else unless_ended (set_ip_options s2) (\<lambda>_ s3.
                 let p = r_ping s3;
                     s4 = out (''PING '' @ ping_hostname p @ '' ('' @ inet_ntoa (ping_dest p) @ ''): ''
                            @ dec (int (r_data_length s3)) @ '' data bytes'') s3;
                     s5 = (if has_opt s4 OPT_VERBOSE
                           then out ('', id 0x'' @ hex4 (word_of_int (ping_ident p)) @ '' = ''
                                  @ dec (ping_ident p)) s4
                           else s4)
                 in ref_run ping4 fuel echo_finish (out nl s5))))"

definition ping_timestamp :: "nat \<Rightarrow> string \<Rightarrow> ref \<Rightarrow> ((int + int) \<times> ref) option" where
  "ping_timestamp fuel hostname s =
     (let s1 = ping_set_packetsize ICMP_TSLEN
                 (ping_set_event_handler RecvTimestamp None (ping_set_type ICMP_TIMESTAMP s));
          (rc, s2) = ping_set_dest hostname s1
      in if rc \<noteq> 0 then Some (die ''unknown host'' s2)
         else ref_run ping4 fuel (\<lambda>s. Some (timestamp_finish s))
           (out (''PING '' @ ping_hostname (r_ping s2) @ '' ('' @ inet_ntoa (ping_dest (r_ping s2))
              @ ''): sending timestamp requests'' @ nl) s2))"

definition ping_address :: "nat \<Rightarrow> string \<Rightarrow> ref \<Rightarrow> ((int + int) \<times> ref) option" where
  "ping_address fuel hostname s =
     (let s1 = ping_set_count 1 (ping_set_packetsize ICMP_MASKLEN
                 (ping_set_event_handler RecvAddress None (ping_set_type ICMP_ADDRESS s)));
          (rc, s2) = ping_set_dest hostname s1
      in if rc \<noteq> 0 then Some (die ''unknown host'' s2)
         else ref_run ping4 fuel (\<lambda>s. Some (address_finish s))
           (out (''PING '' @ ping_hostname (r_ping s2) @ '' ('' @ inet_ntoa (ping_dest (r_ping s2))
              @ ''): sending address mask request'' @ nl) s2))"

definition ping_router :: "string \<Rightarrow> ref \<Rightarrow> int \<times> ref" where
  "ping_router hostname s = (0, s)"

definition run_request :: "nat \<Rightarrow> request \<Rightarrow> string \<Rightarrow> ref \<Rightarrow> ((int + int) \<times> ref) option" where
  "run_request fuel q = (case q of
       Echo \<Rightarrow> ping_echo fuel | Timestamp \<Rightarrow> ping_timestamp fuel | AddressMask \<Rightarrow> ping_address fuel)"

section \<open>\<open>main\<close>\<close>

text \<open>The calls \<open>argp_parse\<close> makes; an unknown key ends the program, as \<open>argp\<close> documents.\<close>

type_synonym 'n opt_parser = "int \<Rightarrow> string \<Rightarrow> 'n ref_state \<Rightarrow> ((int + bool) \<times> 'n ref_state) option"

fun parse_opts :: "'n opt_parser \<Rightarrow> (int \<times> string) list \<Rightarrow> 'n ref_state \<Rightarrow> ((int + unit) \<times> 'n ref_state) option" where
  "parse_opts parser [] s = Some (Inr (), s)"
| "parse_opts parser ((key, arg) # ks) s = do {
     r \<leftarrow> parser key arg s;
     unless_ended r (\<lambda>known s1. if known then parse_opts parser ks s1 else Some (Inl 64, s1))
   }"

text \<open>The loop over the hosts; \<open>ping_one\<close> is the call for one.\<close>

fun ping_hosts ::
  "(string \<Rightarrow> 'n ref_state \<Rightarrow> ((int + int) \<times> 'n ref_state) option) \<Rightarrow> string list \<Rightarrow> int \<Rightarrow> 'n ref_state \<Rightarrow>
     ((int + int) \<times> 'n ref_state) option" where
  "ping_hosts ping_one [] status s = Some (Inr status, s)"
| "ping_hosts ping_one (h # hs) status s = do {
     r \<leftarrow> ping_one h s;
     unless_ended r (\<lambda>rc s1. ping_hosts ping_one hs (status OR rc) (ping_reset s1))
   }"

definition warn_setsockopt :: "bool \<Rightarrow> string \<Rightarrow> int \<Rightarrow> string \<Rightarrow> 'n ref_state \<Rightarrow> 'n ref_state" where
  "warn_setsockopt wanted name v msg s =
     (if wanted
      then (case n_setsockopt (net_os s) name (store32 (ref_endian s) (word_of_int v)) of
              Some err \<Rightarrow> s\<lparr>kern := emit (Perror (r_prog s @ '': '' @ msg) err) (kern s)\<rparr>
            | None \<Rightarrow> s)
      else s)"

text \<open>\<open>main\<close> from the call of \<open>setuid\<close> on, and the whole of it.\<close>

definition serve_hosts :: "nat \<Rightarrow> string list \<Rightarrow> ref \<Rightarrow> ((int + int) \<times> ref) option" where
  "serve_hosts fuel hosts s2 =
     (case n_setuid (net_os s2) of
        Some err \<Rightarrow> Some (die_errno err ''setuid'' s2)
      | None \<Rightarrow>
          (let s3 = (if r_count s2 \<noteq> 0 then ping_set_count (r_count s2) s2 else s2);
               s4 = (if has_opt s3 OPT_INTERVAL then ping_set_interval (r_interval s3) s3 else s3);
               s5 = warn_setsockopt (0 < r_ttl s4) ''IP_TTL'' (r_ttl s4) ''setsockopt(IP_TTL)'' s4;
               s6 = warn_setsockopt (0 \<le> r_tos s5) ''IP_TOS'' (r_tos s5) ''setsockopt(IP_TOS)'' s5
           in do {
             s7 \<leftarrow> init_data_buffer (r_patptr s6) (nat (r_pattern_len s6)) s6;
             ping_hosts (\<lambda>h s. run_request fuel (r_ping_type s) h s) hosts 0 s7
           }))"

definition ref_main ::
  "nat \<Rightarrow> (int \<times> string) list \<Rightarrow> string list \<Rightarrow> ref \<Rightarrow> (int \<times> ref) option" where
  "ref_main fuel keys hosts s0 = do {
     let s = (if n_getuid (net_os s0) = 0 then s0\<lparr>r_is_root := True\<rparr> else s0);
     r1 \<leftarrow> parse_opts parse_opt (if hosts = [] then keys @ [(ARGP_KEY_NO_ARGS, [])] else keys) s;
     r2 \<leftarrow> unless_ended r1 (\<lambda>_ s1.
       let (ok, s2) = ping_init ICMP_ECHO (os_getpid (env (kern s1))) s1 in
       if ok then serve_hosts fuel hosts s2 else Some (Inl 1, s2));
     (case r2 of (Inl status, s9) \<Rightarrow> Some (status, s9) | (Inr status, s9) \<Rightarrow> Some (status, s9))
   }"

end
