(* ===== verification/Ref6_Main.thy ===== *)
theory Ref6_Main
  imports Ref6_Lib Ref_Main
begin

text \<open>
  The options, \<open>ping_echo\<close> and \<open>main\<close> of \<open>ping6.c\<close>. The loop is that of \<open>Ref_Run\<close>, with the functions of
  \<open>Ref6_Lib\<close>. The configuration is that of the repository: \<open>IPV6_TCLASS\<close> exists, \<open>IPV6_FLOWINFO\<close> does
  not. \<open>argp_parse\<close> is a parameter as for \<open>ping\<close>. The calls that set \<open>SO_BROADCAST\<close> and the socket type
  ignore their outcome and are left out.
\<close>

definition OPT_TCLASS :: u32 where "OPT_TCLASS = 0x100"
definition ARG_HOPLIMIT :: int where "ARG_HOPLIMIT = 256"
definition PING6_MAX_DATALEN :: int where "PING6_MAX_DATALEN = 65535 - int sizeof_icmp6_hdr"

definition parse_opt6 :: "ipv6 opt_parser" where
  "parse_opt6 key arg s =
     (if key = of_char (CHR ''c'') then
        set_number (ping_cvt_number arg 0 False s) (\<lambda>n s. s\<lparr>r_count := nat n\<rparr>)
      else if key = of_char (CHR ''d'') then
        Some (Inr True, s\<lparr>r_socket_type := r_socket_type s OR SO_DEBUG\<rparr>)
      else if key = of_char (CHR ''f'') then
        Some (if \<not> r_is_root s then die ''flooding needs root privilege'' s
              else (Inr True, s\<lparr>r_options := r_options s OR OPT_FLOOD\<rparr>))
      else if key = of_char (CHR ''i'') then
        unless_ended (ping_cvt_number arg 0 False (s\<lparr>r_options := r_options s OR OPT_INTERVAL\<rparr>)) (\<lambda>n s.
          let interval = n * PING_PRECISION mod 18446744073709551616;
              s1 = s\<lparr>r_interval := nat interval\<rparr>
          in Some (if \<not> r_is_root s1 \<and> interval < PING_MIN_USER_INTERVAL
                   then die (''option value too small: '' @ arg) s1 else (Inr True, s1)))
      else if key = of_char (CHR ''l'') then
        (if \<not> r_is_root s then Some (die ''preloading needs root privilege'' s)
         else (let (n, endptr) = strtoul0 arg; s1 = s\<lparr>r_preload := nat n\<rparr> in
           Some (if endptr \<noteq> [] \<or> INT_MAX < n then die ''preload size too large'' s1 else (Inr True, s1))))
      else if key = of_char (CHR ''n'') then Some (Inr True, s\<lparr>r_options := r_options s OR OPT_NUMERIC\<rparr>)
      else if key = of_char (CHR ''p'') then do {
        r \<leftarrow> ref_decode_pattern arg (r_pattern_len s)
               (case r_patptr s of Some bs \<Rightarrow> bs | None \<Rightarrow> replicate MAXPATTERN 0) s;
        unless_ended r (\<lambda>(i, bs) s1. Some (Inr True, s1\<lparr>r_pattern_len := int i, r_patptr := Some bs\<rparr>))
      }
      else if key = of_char (CHR ''q'') then Some (Inr True, s\<lparr>r_options := r_options s OR OPT_QUIET\<rparr>)
      else if key = of_char (CHR ''r'') then
        Some (Inr True, s\<lparr>r_socket_type := r_socket_type s OR ref_SO_DONTROUTE\<rparr>)
      else if key = of_char (CHR ''s'') then
        set_number (ping_cvt_number arg PING6_MAX_DATALEN True s) (\<lambda>n s. s\<lparr>r_data_length := nat n\<rparr>)
      else if key = of_char (CHR ''T'') then
        set_number (ping_cvt_number arg 0 False (s\<lparr>r_options := r_options s OR OPT_TCLASS\<rparr>)) (\<lambda>n s. s\<lparr>r_tos := i32 n\<rparr>)
      else if key = of_char (CHR ''v'') then Some (Inr True, s\<lparr>r_options := r_options s OR OPT_VERBOSE\<rparr>)
      else if key = of_char (CHR ''w'') then
        set_number (ping_cvt_number arg INT_MAX False s) (\<lambda>n s. s\<lparr>r_timeout := n\<rparr>)
      else if key = ARG_HOPLIMIT then
        set_number (ping_cvt_number arg 255 False s) (\<lambda>n s. s\<lparr>r_ttl := n\<rparr>)
      else if key = ARGP_KEY_NO_ARGS then Some (argp_error ''missing host operand'' s)
      else Some (Inr False, s))"

text \<open>\<open>send_echo\<close> and \<open>ping_run\<close> of \<open>ping6.c\<close>: the text of those of \<open>ping.c\<close>, with the functions of \<open>ping6_ops\<close>.\<close>

definition send_echo6 :: "ref6 \<Rightarrow> ((int + int) \<times> ref6) option" where
  "send_echo6 = send_echo ping6_ops"

definition ping_run6 :: "nat \<Rightarrow> (ref6 \<Rightarrow> (int \<times> ref6) option) \<Rightarrow> ref6 \<Rightarrow> ((int + int) \<times> ref6) option" where
  "ping_run6 = ref_run ping6_ops"

definition ping_echo6 :: "nat \<Rightarrow> string \<Rightarrow> ref6 \<Rightarrow> ((int + int) \<times> ref6) option" where
  "ping_echo6 fuel hostname s =
     (if has_opt s OPT_FLOOD \<and> has_opt s OPT_INTERVAL
      then Some (die ''-f and -i incompatible options'' s)
      else (let st = \<lparr>tmin = Fin 999999999, tmax = Fin 0, tsum = Fin 0, tsumsq = Fin 0\<rparr>;
                s1 = upd_ping (\<lambda>p. p\<lparr>ping_datalen := r_data_length s, ping_closure := st\<rparr>) s;
                (rc, s2) = ping_set_dest6 hostname s1
            in if rc \<noteq> 0 then Some (die (''unknown host '' @ hostname) s2)
               else (case n_numeric (net_os s2) (ping_dest (r_ping s2)) of
                   Inl errmsg \<Rightarrow> Some (die (''getnameinfo: '' @ errmsg) s2)
                 | Inr buffer \<Rightarrow>
                     (let p = r_ping s2;
                          s3 = out (''PING '' @ ping_hostname p @ '' ('' @ buffer @ ''): ''
                                 @ dec (int (r_data_length s2)) @ '' data bytes'') s2;
                          s4 = (if has_opt s3 OPT_VERBOSE
                                then out ('', id 0x'' @ hex4 (word_of_int (ping_ident p)) @ '' = ''
                                       @ dec (ping_ident p)) s3
                                else s3)
                      in ping_run6 fuel echo_finish6 (out nl s4)))))"

text \<open>The global variables as the program starts; the hop limit is \<open>r_ttl\<close>, the traffic class \<open>r_tos\<close>.\<close>

definition ref_boot6 :: "os \<Rightarrow> ipv6 ref_os \<Rightarrow> ref6" where
  "ref_boot6 e n = \<lparr>kern = boot e, r_prog = ''ping6'', net_os = n, r_ping = zero_ping6, r_is_root = False,
     r_data_buffer = None, r_patptr = None, r_pattern_len = int MAXPATTERN, r_socket_type = 0,
     r_count = DEFAULT_PING_COUNT, r_interval = 0, r_data_length = PING_DATALEN, r_options = 0,
     r_suboptions = 0, r_preload = 0, r_tos = - 1, r_ttl = 0, r_timeout = - 1, r_linger = MAXWAIT,
     r_ping_type = Echo, r_useless_ident = 0, r_old_rrlen = 0, r_old_rr = []\<rparr>"

definition set_traffic_class :: "ref6 \<Rightarrow> (int + unit) \<times> ref6" where
  "set_traffic_class s =
     (if has_opt s OPT_TCLASS
      then (case n_setsockopt (net_os s) ''IPV6_TCLASS'' (store32 (ref_endian s) (word_of_int (r_tos s))) of
              Some err \<Rightarrow> die_errno err ''setsockopt(IPV6_TCLASS)'' s
            | None \<Rightarrow> (Inr (), s))
      else (Inr (), s))"

text \<open>\<open>main\<close> from the call of \<open>setuid\<close> on, and the whole of it.\<close>

definition serve_hosts6 :: "nat \<Rightarrow> string list \<Rightarrow> ref6 \<Rightarrow> ((int + int) \<times> ref6) option" where
  "serve_hosts6 fuel hosts s2 =
     (case n_setuid (net_os s2) of
        Some err \<Rightarrow> Some (die_errno err ''setuid'' s2)
      | None \<Rightarrow>
          (let s3 = (if r_count s2 \<noteq> 0 then ping_set_count (r_count s2) s2 else s2);
               s4 = (if has_opt s3 OPT_INTERVAL then ping_set_interval (r_interval s3) s3 else s3);
               s5 = warn_setsockopt (0 < r_ttl s4) ''IPV6_UNICAST_HOPS'' (r_ttl s4) ''setsockopt(IPV6_HOPLIMIT)'' s4
           in unless_ended (set_traffic_class s5) (\<lambda>_ s6. do {
             s7 \<leftarrow> init_data_buffer (r_patptr s6) (nat (r_pattern_len s6)) s6;
             ping_hosts (ping_echo6 fuel) hosts 0 s7
           })))"

definition ref_main6 ::
  "nat \<Rightarrow> (int \<times> string) list \<Rightarrow> string list \<Rightarrow> ref6 \<Rightarrow> (int \<times> ref6) option" where
  "ref_main6 fuel keys hosts s0 = do {
     let s = (if n_getuid (net_os s0) = 0 then s0\<lparr>r_is_root := True\<rparr> else s0);
     r1 \<leftarrow> parse_opts parse_opt6 (if hosts = [] then keys @ [(ARGP_KEY_NO_ARGS, [])] else keys) s;
     r2 \<leftarrow> unless_ended r1 (\<lambda>_ s1. unless_ended (ping_init6 0 (os_getpid (env (kern s1))) s1) (\<lambda>ok s2.
       if ok then serve_hosts6 fuel hosts s2 else Some (Inl 1, s2)));
     (case r2 of (Inl status, s9) \<Rightarrow> Some (status, s9) | (Inr status, s9) \<Rightarrow> Some (status, s9))
   }"

end
