(* ===== verification/Ref_Send.thy ===== *)
theory Ref_Send
  imports Ref_Run
begin

text \<open>
  What the reference puts on the wire. \<open>send_echo\<close> of \<open>ping.c\<close> composes \<open>ping_set_data\<close> and
  \<open>ping_xmit\<close>; the theorem says that the packet is the RFC 792 echo request of an abstract
  payload, \<open>ref_payload\<close>, for every buffer content and whether or not the buffers were allocated
  before. Comparing that payload with the program's shows where the two pings differ.
\<close>

section \<open>When a request can be sent\<close>

text \<open>The buffers are allocated with the sizes the code assumes, or will be by the next call.\<close>

definition can_send :: "bool \<Rightarrow> 'n ref_state \<Rightarrow> bool" where
  "can_send u s \<longleftrightarrow> (let p = r_ping s; n = ping_buflen u (ping_datalen p) in
     (u \<or> ping_type p = ICMP_ECHO) \<and> 0 < ping_cktab_size p \<and> ping_datalen p \<le> 65527 \<and>
     (case ping_buffer p of
        Some b \<Rightarrow> length b = n
      | None \<Rightarrow> (case n_malloc_buffer (net_os s) n of Some b \<Rightarrow> length b = n | None \<Rightarrow> False)) \<and>
     (case ping_cktab p of
        Some t \<Rightarrow> length t = ping_cktab_size p
      | None \<Rightarrow> n_malloc_cktab (net_os s) (ping_cktab_size p) \<noteq> None))"

text \<open>The same state with both buffers present.\<close>

definition with_buffers :: "byte list \<Rightarrow> byte list \<Rightarrow> 'n ref_state \<Rightarrow> 'n ref_state" where
  "with_buffers b t s = s\<lparr>r_ping := (r_ping s)\<lparr>ping_buffer := Some b, ping_cktab := Some t\<rparr>\<rparr>"

text \<open>The bytes of the buffer beside the payload.\<close>

definition room :: "bool \<Rightarrow> nat" where
  "room use_ipv6 = (if use_ipv6 then 8 else 80)"

lemma room_simps [simp]: "room False = 80" "room True = 8"
  by (simp_all add: room_def)

lemma room_header [simp]: "8 \<le> room u"
  by (simp add: room_def)

lemma with_header [simp]: "n \<le> m \<Longrightarrow> 8 + n \<le> m + room u" "n \<le> m \<Longrightarrow> Suc (Suc (Suc (Suc (Suc (Suc (Suc (Suc n))))))) \<le> m + room u"
  using room_header [of u] by linarith+

lemma buflen_small: "n \<le> 65527 \<Longrightarrow> ping_buflen u n = n + room u"
  by (simp add: ping_buflen_def room_def sizeof_icmp6_hdr_def MAXIPLEN_def ICMP_TSLEN_def)

lemma with_buffers_simps [simp]:
  "ping_datalen (r_ping (with_buffers b t s)) = ping_datalen (r_ping s)"
  "ping_buffer (r_ping (with_buffers b t s)) = Some b" "ping_cktab (r_ping (with_buffers b t s)) = Some t"
  "with_buffers b t (with_buffers b' t' s) = with_buffers b t s"
  "kern (with_buffers b t s) = kern s" "net_os (with_buffers b t s) = net_os s"
  "r_data_length (with_buffers b t s) = r_data_length s" "r_data_buffer (with_buffers b t s) = r_data_buffer s"
  "ref_endian (with_buffers b t s) = ref_endian s" "r_prog (with_buffers b t s) = r_prog s"
  by (simp_all add: with_buffers_def ref_endian_def)

lemma setbuf_ready:
  assumes "can_send u s"
  shows "\<exists>b t. ping_setbuf u s = (0, with_buffers b t s) \<and> length b = ping_datalen (r_ping s) + room u \<and>
    length t = ping_cktab_size (r_ping s)"
proof -
  let ?p = "r_ping s"
  have n: "ping_buflen u (ping_datalen ?p) = ping_datalen ?p + room u"
    using assms by (intro buflen_small) (simp add: can_send_def Let_def)
  obtain b where b: "ping_buffer ?p = Some b \<or>
      ping_buffer ?p = None \<and> n_malloc_buffer (net_os s) (ping_datalen ?p + room u) = Some b"
    "length b = ping_datalen ?p + room u"
    using assms n by (cases "ping_buffer ?p") (auto simp: can_send_def Let_def split: option.splits)
  have t: "ping_cktab ?p = None \<and> n_malloc_cktab (net_os s) (ping_cktab_size ?p) \<noteq> None \<or>
      (\<exists>t. ping_cktab ?p = Some t \<and> length t = ping_cktab_size ?p)"
    using assms by (cases "ping_cktab ?p") (simp_all add: can_send_def Let_def)
  define p1 where "p1 = ?p\<lparr>ping_buffer := Some b\<rparr>"
  have "(if ping_buffer ?p = None then ?p\<lparr>ping_buffer := n_malloc_buffer (net_os s) (ping_buflen u (ping_datalen ?p))\<rparr> else ?p) = p1"
    using b(1) n by (cases ?p) (auto simp: p1_def)
  note e = this
  have sb: "ping_setbuf u s = (if ping_cktab ?p \<noteq> None then (0, s\<lparr>r_ping := p1\<rparr>)
      else (case n_malloc_cktab (net_os s) (ping_cktab_size ?p) of
             None \<Rightarrow> (- 1, s\<lparr>r_ping := p1\<rparr>)
           | Some tb \<Rightarrow> (0, s\<lparr>r_ping := p1\<lparr>ping_cktab := Some (replicate (ping_cktab_size ?p) 0)\<rparr>\<rparr>)))"
    unfolding ping_setbuf_def Let_def e by (simp add: p1_def cong: option.case_cong)
  have p1: "s\<lparr>r_ping := p1\<rparr> = with_buffers b t s" if "ping_cktab ?p = Some t" for t
    using that by (cases ?p) (simp add: with_buffers_def p1_def)
  have set: "ping_setbuf u s = (0, with_buffers b t s)" if "ping_cktab ?p = Some t" for t
    using sb p1 [OF that] that by simp
  show ?thesis
  proof (cases "ping_cktab ?p")
    case None
    then obtain z where "n_malloc_cktab (net_os s) (ping_cktab_size ?p) = Some z" using t by auto
    then have "ping_setbuf u s = (0, with_buffers b (replicate (ping_cktab_size ?p) 0) s)"
      using None sb by (simp add: with_buffers_def p1_def)
    then show ?thesis using b(2) by (metis length_replicate)
  next
    case (Some t')
    then show ?thesis using set [OF Some] t b(2) by auto
  qed
qed

lemma setbuf_again: "ping_setbuf u (with_buffers b t s) = (0, with_buffers b t s)"
  by (simp add: ping_setbuf_def with_buffers_def Let_def)

lemma can_send_with_buffers:
  "can_send u s \<Longrightarrow> length b = ping_datalen (r_ping s) + room u \<Longrightarrow> length t = ping_cktab_size (r_ping s) \<Longrightarrow>
     can_send u (with_buffers b t s)"
  using buflen_small [of "ping_datalen (r_ping s)"]
  by (simp add: can_send_def with_buffers_def Let_def)

section \<open>Writing the payload\<close>

text \<open>What is in the buffer after a write of data at an offset of the payload, a zero-length one included.\<close>

definition overlay :: "byte list \<Rightarrow> nat \<Rightarrow> byte list \<Rightarrow> byte list" where
  "overlay b i xs = take i b @ xs @ drop (i + length xs) b"

lemma length_overlay [simp]: "i + length xs \<le> length b \<Longrightarrow> length (overlay b i xs) = length b"
  by (simp add: overlay_def)

lemma overlay_twice:
  "i + length xs \<le> length b \<Longrightarrow> overlay (overlay b i xs) (i + length xs) ys = overlay b i (xs @ ys)"
  by (simp add: overlay_def ac_simps)

lemma set_data_ready:
  assumes "length b = ping_datalen (r_ping s) + room u" "off + n \<le> ping_datalen (r_ping s)" "n \<le> length xs"
  shows "ping_set_data u xs off n (with_buffers b t s) =
    Some (0, with_buffers (overlay b (8 + off) (take n xs)) t s)"
  using assms with_header(1) [of "off + n" "ping_datalen (r_ping s)" u]
  by (simp add: ping_set_data_def setbuf_again read_range_def add.assoc write_range_def overlay_def icmp_data_off_def min_absorb2)
    (simp add: with_buffers_def)

lemma set_data_refused:
  "ping_datalen (r_ping s) < off + n \<Longrightarrow> ping_set_data u xs off n (with_buffers b t s) = Some (- 1, with_buffers b t s)"
  by (simp add: ping_set_data_def setbuf_again)

text \<open>The first call allocates the buffers.\<close>

lemma set_data_alloc:
  assumes "ping_setbuf u s = (0, with_buffers b t s)"
  shows "ping_set_data u xs off n s = ping_set_data u xs off n (with_buffers b t s)"
  by (simp add: ping_set_data_def assms setbuf_again)

section \<open>The abstract payload\<close>

definition ref_payload :: "endian \<Rightarrow> timeval \<Rightarrow> nat \<Rightarrow> byte list \<Rightarrow> byte list" where
  "ref_payload e tv n filler =
     (if PING_TIMING n then timeval_bytes e tv @ take (n - sizeof_timeval) filler else filler)"

lemma length_timeval_bytes [simp]: "length (timeval_bytes e tv) = 16"
  by (cases e) (simp_all add: timeval_bytes_def int64_bytes_def)

definition send_clock :: "'n ref_state \<Rightarrow> 'n ref_state" where
  "send_clock s = (if PING_TIMING (r_data_length s) then snd (gettimeofday s) else s)"

text \<open>The data the user gave is as long as the payload; without data there is no payload.\<close>

definition filler_ok :: "'n ref_state \<Rightarrow> bool" where
  "filler_ok s \<longleftrightarrow> ping_datalen (r_ping s) = r_data_length s \<and>
     length (case r_data_buffer s of Some bs \<Rightarrow> bs | None \<Rightarrow> []) = r_data_length s"

definition filler_of :: "'n ref_state \<Rightarrow> byte list" where
  "filler_of s = (case r_data_buffer s of Some bs \<Rightarrow> bs | None \<Rightarrow> [])"

lemma gettimeofday_buffers:
  "gettimeofday (with_buffers b t s) = (fst (gettimeofday s), with_buffers b t (snd (gettimeofday s)))"
  "r_ping (snd (gettimeofday s)) = r_ping s" "net_os (snd (gettimeofday s)) = net_os s"
  "r_data_length (snd (gettimeofday s)) = r_data_length s" "r_data_buffer (snd (gettimeofday s)) = r_data_buffer s"
  "ref_endian (snd (gettimeofday s)) = ref_endian s"
  "events (kern (snd (gettimeofday s))) = events (kern s)" "k_send (kern (snd (gettimeofday s))) = k_send (kern s)"
  "env (kern (snd (gettimeofday s))) = env (kern s)" "r_prog (snd (gettimeofday s)) = r_prog s"
  "g_stop (kern (snd (gettimeofday s))) = g_stop (kern s)"
  by (simp_all add: gettimeofday_def clock_gettime_def with_buffers_def Let_def ref_endian_def)

lemma can_send_clock: "can_send u (snd (gettimeofday s)) = can_send u s"
  by (simp add: can_send_def gettimeofday_buffers Let_def cong: option.case_cong)

text \<open>
  The state after the payload is written is one that the next \<open>_ping_setbuf\<close> completes to the
  original state with both buffers.
\<close>

lemma stamp_written:
  assumes "can_send u s" "PING_TIMING (r_data_length s)" "ping_datalen (r_ping s) = r_data_length s"
  shows "\<exists>b t. put_stamp u s = Some (16, with_buffers (overlay b 8 (timeval_bytes (ref_endian s) (fst (gettimeofday s)))) t (send_clock s)) \<and>
    length b = r_data_length s + room u \<and> length t = ping_cktab_size (r_ping s)"
proof -
  define s1 where "s1 = snd (gettimeofday s)"
  have s1: "r_ping s1 = r_ping s" "ref_endian s1 = ref_endian s" by (simp_all add: s1_def gettimeofday_buffers)
  have "can_send u s1" using assms(1) by (simp add: s1_def can_send_clock)
  then obtain b t where bt: "ping_setbuf u s1 = (0, with_buffers b t s1)" "length b = ping_datalen (r_ping s) + room u"
    "length t = ping_cktab_size (r_ping s)" using setbuf_ready s1 by metis
  have n: "16 \<le> r_data_length s" using assms(2) by (simp add: PING_TIMING_def sizeof_timeval_def)
  have "ping_set_data u (timeval_bytes (ref_endian s) (fst (gettimeofday s))) 0 16 s1 =
      Some (0, with_buffers (overlay b 8 (timeval_bytes (ref_endian s) (fst (gettimeofday s)))) t s1)"
    unfolding set_data_alloc [OF bt(1)]
    using set_data_ready [where u = u and b = b and s = s1 and off = 0 and n = 16 and xs = "timeval_bytes (ref_endian s) (fst (gettimeofday s))" and t = t] bt n assms(3) s1
    by simp
  then have "put_stamp u s = Some (16, with_buffers (overlay b 8 (timeval_bytes (ref_endian s) (fst (gettimeofday s)))) t (send_clock s))"
    using assms(2) s1(2) by (simp add: put_stamp_def send_clock_def sizeof_timeval_def s1_def split_def Let_def)
  then show ?thesis using bt assms(3) by (intro exI [of _ b] exI [of _ t]) simp
qed

definition prepare :: "bool \<Rightarrow> 'n ref_state \<Rightarrow> 'n ref_state option" where
  "prepare u s = do { (off, s1) \<leftarrow> put_stamp u s; put_filler u off s1 }"

lemma send_clock_same:
  "r_ping (send_clock s) = r_ping s" "net_os (send_clock s) = net_os s"
  "r_data_length (send_clock s) = r_data_length s" "r_data_buffer (send_clock s) = r_data_buffer s"
  "ref_endian (send_clock s) = ref_endian s" "can_send u (send_clock s) = can_send u s"
  "events (kern (send_clock s)) = events (kern s)" "k_send (kern (send_clock s)) = k_send (kern s)"
  "env (kern (send_clock s)) = env (kern s)" "r_prog (send_clock s) = r_prog s"
  "g_stop (kern (send_clock s)) = g_stop (kern s)"
  by (simp_all add: send_clock_def gettimeofday_buffers can_send_clock)

lemma drop_take_overlay:
  "8 + length xs \<le> length b \<Longrightarrow> take (length xs) (drop 8 (overlay b 8 xs)) = xs"
  by (simp add: overlay_def)

lemma payload_written:
  assumes "can_send u s" "filler_ok s"
  shows "\<exists>b t s2. prepare u s = Some s2 \<and> ping_setbuf u s2 = (0, with_buffers b t (send_clock s)) \<and>
      length b = r_data_length s + room u \<and> length t = ping_cktab_size (r_ping s) \<and>
      take (r_data_length s) (drop 8 b) = ref_payload (ref_endian s) (fst (gettimeofday s)) (r_data_length s) (filler_of s)"
proof (cases "PING_TIMING (r_data_length s)")
  case True
  then have n: "16 \<le> r_data_length s" by (simp add: PING_TIMING_def sizeof_timeval_def)
  let ?n = "r_data_length s" and ?st = "timeval_bytes (ref_endian s) (fst (gettimeofday s))"
  have dl: "ping_datalen (r_ping s) = ?n" using assms(2) by (simp add: filler_ok_def)
  obtain bs where bs: "r_data_buffer s = Some bs" "length bs = ?n"
    using assms(2) n by (auto simp: filler_ok_def split: option.splits)
  obtain b t where b: "put_stamp u s = Some (16, with_buffers (overlay b 8 ?st) t (send_clock s))"
    "length b = ?n + room u" "length t = ping_cktab_size (r_ping s)"
    using stamp_written [OF assms(1) True dl] by blast
  have pay: "ref_payload (ref_endian s) (fst (gettimeofday s)) ?n (filler_of s) = ?st @ take (?n - 16) bs"
    using True bs by (simp add: ref_payload_def filler_of_def sizeof_timeval_def)
  have l: "length (?st @ take (?n - 16) bs) = ?n" using n bs by simp
  have fits: "24 \<le> ?n + room u" using n room_header [of u] by linarith
  define b1 where "b1 = overlay b 8 (?st @ take (?n - 16) bs)"
  have "prepare u s = Some (with_buffers b1 t (send_clock s))"
  proof (cases "16 < ?n")
    case True
    have "ping_set_data u bs 16 (?n - 16) (with_buffers (overlay b 8 ?st) t (send_clock s)) =
      Some (0, with_buffers (overlay (overlay b 8 ?st) (8 + 16) (take (?n - 16) bs)) t (send_clock s))"
      using b bs n fits by (intro set_data_ready) (simp_all add: send_clock_same dl)
    moreover have "overlay (overlay b 8 ?st) (8 + 16) (take (?n - 16) bs) = b1"
      using overlay_twice [of 8 ?st b "take (?n - 16) bs"] b(2) fits by (simp add: b1_def)
    ultimately show ?thesis using True b bs by (simp add: prepare_def put_filler_def send_clock_same)
  next
    case False
    then have "?n = 16" using n by simp
    then show ?thesis using b bs
      by (simp add: prepare_def put_filler_def send_clock_same set_data_refused dl b1_def)
  qed
  moreover have "take ?n (drop 8 b1) = ?st @ take (?n - 16) bs"
    using drop_take_overlay [of "?st @ take (?n - 16) bs" b] l b(2) by (simp add: b1_def)
  moreover have "length b1 = ?n + room u" using l b(2) by (simp add: b1_def)
  ultimately show ?thesis using b(3) pay setbuf_again by metis
next
  case False
  let ?n = "r_data_length s"
  have clk: "send_clock s = s" using False by (simp add: send_clock_def)
  have dl: "ping_datalen (r_ping s) = ?n" using assms(2) by (simp add: filler_ok_def)
  obtain b t where b: "ping_setbuf u s = (0, with_buffers b t s)" "length b = ?n + room u" "length t = ping_cktab_size (r_ping s)"
    using setbuf_ready [OF assms(1)] dl by metis
  have pay: "ref_payload (ref_endian s) (fst (gettimeofday s)) ?n (filler_of s) = filler_of s"
    using False by (simp add: ref_payload_def)
  show ?thesis
  proof (cases "r_data_buffer s")
    case None
    then have "?n = 0" "filler_of s = []" using assms(2) by (simp_all add: filler_ok_def filler_of_def)
    moreover have "prepare u s = Some s" using False None by (simp add: prepare_def put_stamp_def put_filler_def)
    ultimately show ?thesis using b clk pay by auto
  next
    case (Some bs)
    then have bs: "length bs = ?n" "filler_of s = bs" using assms(2) by (simp_all add: filler_ok_def filler_of_def)
    have "ping_set_data u bs 0 ?n s = Some (0, with_buffers (overlay b 8 bs) t s)"
      unfolding set_data_alloc [OF b(1)] using set_data_ready [where u = u and b = b and s = s and off = 0 and n = ?n and xs = bs and t = t] b bs dl by simp
    then have "prepare u s = Some (with_buffers (overlay b 8 bs) t s)"
      using False Some by (cases "r_data_length s = 0") (simp_all add: prepare_def put_stamp_def put_filler_def)
    then show ?thesis
      using clk pay b bs drop_take_overlay [of bs b]
      by (intro exI [of _ "overlay b 8 bs"] exI [of _ t] exI [of _ "with_buffers (overlay b 8 bs) t s"])
        (simp add: setbuf_again)
  qed
qed

section \<open>The request on the wire\<close>

text \<open>All that sending and receiving leave as it is: the whole state but buffers, counters and kernel.\<close>

definition static :: "'n ref_state \<Rightarrow> 'n ref_state" where
  "static s = s\<lparr>kern := boot (env (kern s)), r_ping := (r_ping s)\<lparr>
     ping_closure := \<lparr>tmin = Fin 0, tmax = Fin 0, tsum = Fin 0, tsumsq = Fin 0\<rparr>,
     ping_cktab := None, ping_buffer := None, ping_from := ping_dest (r_ping s),
     ping_num_xmit := 0, ping_num_recv := 0, ping_num_rept := 0\<rparr>, r_old_rrlen := 0, r_old_rr := []\<rparr>"

lemma static_steps [simp]:
  "static (with_buffers b t s) = static s" "static (send_clock s) = static s"
  "static (out x s) = static s" "static (complain x s) = static s" "static (snd (gettimeofday s)) = static s"
  by (simp_all add: static_def with_buffers_def send_clock_def gettimeofday_def clock_gettime_def out_def complain_def
      emit_def boot_def Let_def)

lemma word16_i32: "(word_of_int (i32 x) :: u16) = word_of_int x"
proof -
  have "i32 x = x + 65536 * (- 65536 * ((x + 2147483648) div 4294967296))"
    using div_mult_mod_eq [of "x + 2147483648" 4294967296] unfolding i32_def by linarith
  then have "i32 x mod 65536 = x mod 65536" by (metis mod_mult_self2)
  then show ?thesis by (simp add: word_of_int_eq_iff take_bit_int_def)
qed

text \<open>The outcome of handing a message to the kernel, with the buffers in place.\<close>

definition hand_over :: "event \<Rightarrow> world \<Rightarrow> errno option \<times> world" where
  "hand_over ev w = (let w1 = w\<lparr>k_send := k_send w + 1\<rparr> in
     case os_send (env w) (k_send w) of None \<Rightarrow> (None, emit ev w1) | Some err \<Rightarrow> (Some err, w1))"

lemma sendto_hand_over: "sendto bytes to w = hand_over (Sendto bytes to) w"
  by (simp add: sendto_def hand_over_def)

definition xmit_spec ::
  "(byte list \<Rightarrow> 'n \<Rightarrow> event) \<Rightarrow> byte list \<Rightarrow> 'n ref_state \<Rightarrow> (int \<times> errno option) \<times> 'n ref_state" where
  "xmit_spec packet msg s =
     (let (res, w) = hand_over (packet msg (ping_dest (r_ping s))) (kern s) in
      case res of
        Some err \<Rightarrow> ((- 1, Some err), s\<lparr>kern := w\<rparr>)
      | None \<Rightarrow> ((0, None),
          let s3 = s\<lparr>r_ping := (r_ping s)\<lparr>ping_num_xmit := ping_num_xmit (r_ping s) + 1\<rparr>, kern := w\<rparr>;
              i = n_wrote (net_os s) (k_send (kern s))
          in if i \<noteq> int (length msg)
             then out (''ping: wrote '' @ ping_hostname (r_ping s) @ '' '' @ dec (int (length msg)) @ '' chars, ret='' @ dec i @ nl) s3
             else s3))"

lemma other_kernel [simp]: "can_send u (s\<lparr>kern := w\<rparr>) = can_send u s" "filler_ok (s\<lparr>kern := w\<rparr>) = filler_ok s"
  by (simp_all add: can_send_def filler_ok_def Let_def cong: option.case_cong)

lemma static_emit [simp]: "static (s\<lparr>kern := emit ev (kern s)\<rparr>) = static s"
  by (simp add: static_def emit_def boot_def)

lemma static_fields:
  assumes "static s' = static s"
  shows "env (kern s') = env (kern s)" "r_prog s' = r_prog s" "net_os s' = net_os s" "r_data_length s' = r_data_length s" "r_data_buffer s' = r_data_buffer s"
    "r_options s' = r_options s" "r_preload s' = r_preload s" "r_timeout s' = r_timeout s" "r_useless_ident s' = r_useless_ident s" "r_linger s' = r_linger s"
    "ping_ident (r_ping s') = ping_ident (r_ping s)" "ping_dest (r_ping s') = ping_dest (r_ping s)" "ping_count (r_ping s') = ping_count (r_ping s)" "ping_datalen (r_ping s') = ping_datalen (r_ping s)" "ping_type (r_ping s') = ping_type (r_ping s)"
    "ping_event (r_ping s') = ping_event (r_ping s)" "ping_cktab_size (r_ping s') = ping_cktab_size (r_ping s)"
    "ping_hostname (r_ping s') = ping_hostname (r_ping s)" "ping_start_time (r_ping s') = ping_start_time (r_ping s)" "ping_interval (r_ping s') = ping_interval (r_ping s)"
  using arg_cong [OF assms, of "\<lambda>s. env (kern s)"] arg_cong [OF assms, of r_prog] arg_cong [OF assms, of net_os] arg_cong [OF assms, of r_data_length] arg_cong [OF assms, of r_data_buffer] arg_cong [OF assms, of r_options] arg_cong [OF assms, of r_preload] arg_cong [OF assms, of r_timeout] arg_cong [OF assms, of r_useless_ident] arg_cong [OF assms, of r_linger]
    arg_cong [OF assms, of "\<lambda>s. ping_ident (r_ping s)"] arg_cong [OF assms, of "\<lambda>s. ping_dest (r_ping s)"] arg_cong [OF assms, of "\<lambda>s. ping_count (r_ping s)"] arg_cong [OF assms, of "\<lambda>s. ping_datalen (r_ping s)"] arg_cong [OF assms, of "\<lambda>s. ping_type (r_ping s)"] arg_cong [OF assms, of "\<lambda>s. ping_event (r_ping s)"] arg_cong [OF assms, of "\<lambda>s. ping_cktab_size (r_ping s)"] arg_cong [OF assms, of "\<lambda>s. ping_hostname (r_ping s)"] arg_cong [OF assms, of "\<lambda>s. ping_start_time (r_ping s)"] arg_cong [OF assms, of "\<lambda>s. ping_interval (r_ping s)"]
  by (simp_all add: static_def boot_def)

lemma xmit_spec_outcome:
  assumes "can_send u s" "filler_ok s" "xmit_spec packet msg s = (r, s')"
  defines "k \<equiv> k_send (kern s)"
  shows "can_send u s' \<and> filler_ok s' \<and> static s' = static s \<and> ping_num_recv (r_ping s') = ping_num_recv (r_ping s) \<and> seen (r_ping s') = seen (r_ping s) \<and> k_send (kern s') = k + 1 \<and>
    g_stop (kern s') = g_stop (kern s) \<and>
    (case os_send (env (kern s)) k of
       None \<Rightarrow> r = (0, None) \<and> ping_num_xmit (r_ping s') = ping_num_xmit (r_ping s) + 1 \<and>
         (\<exists>warning. events (kern s') = events (kern s) @ packet msg (ping_dest (r_ping s)) # map Stdout warning \<and>
           (n_wrote (net_os s) k = int (length msg) \<longrightarrow> warning = []))
     | Some err \<Rightarrow> r = (- 1, Some err) \<and> ping_num_xmit (r_ping s') = ping_num_xmit (r_ping s) \<and>
         events (kern s') = events (kern s))"
  using assms(1-3) unfolding k_def
  by (cases "os_send (env (kern s)) (k_send (kern s))";
      cases "n_wrote (net_os s) (k_send (kern s)) = int (length msg)")
    (auto simp: xmit_spec_def hand_over_def out_def can_send_def filler_ok_def seen_def static_def Let_def
      intro: exI [of _ "[]"] exI [of _ "[_]"] cong: option.case_cong)

section \<open>The interface between a sender and the loop\<close>

text \<open>
  What \<open>send_echo\<close> relies on: with the buffers in place, the program's \<open>ping_xmit\<close> hands the kernel the
  request for the payload it finds behind the header, and clears the bit of its sequence number.
\<close>

locale transmitter =
  fixes ops :: "'n ping_ops"
    and packet :: "byte list \<Rightarrow> 'n \<Rightarrow> event"
    and request :: "'n ref_state \<Rightarrow> byte list \<Rightarrow> byte list"
  assumes xmit: "\<lbrakk>can_send (op_ipv6 ops) s; ping_setbuf (op_ipv6 ops) s2 = (0, with_buffers b t s);
      length b = ping_datalen (r_ping s) + room (op_ipv6 ops); length t = ping_cktab_size (r_ping s)\<rbrakk> \<Longrightarrow>
    \<exists>b1 t1. length b1 = length b \<and> length t1 = length t \<and>
      c_ind (r_ping s) (ping_num_xmit (r_ping s)) \<notin> seen (r_ping (with_buffers b1 t1 s)) \<and>
      op_xmit ops s2 = Some (xmit_spec packet (request s (take (ping_datalen (r_ping s)) (drop 8 b))) (with_buffers b1 t1 s))"
    and request_clock: "request (send_clock s) = request s"
begin

lemma echo_sent_running:
  assumes ok: "can_send (op_ipv6 ops) s" and fill: "filler_ok s"
  defines "k \<equiv> k_send (kern s)"
  defines "msg \<equiv> request s (ref_payload (ref_endian s) (fst (gettimeofday s)) (r_data_length s) (filler_of s))"
  shows "\<exists>s'. send_echo ops s = Some (if os_send (env (kern s)) k = None then Inr 0 else Inl 1, s') \<and>
    (case os_send (env (kern s)) k of
       None \<Rightarrow> (\<exists>warning. events (kern s') = events (kern s) @ packet msg (ping_dest (r_ping s)) # map Stdout warning \<and>
                 (n_wrote (net_os s) k = int (length msg) \<longrightarrow> warning = [])) \<and>
               ping_num_xmit (r_ping s') = ping_num_xmit (r_ping s) + 1
     | Some err \<Rightarrow> events (kern s') = events (kern s) @ [Perror (r_prog s @ '': sending packet'') err] \<and>
               ping_num_xmit (r_ping s') = ping_num_xmit (r_ping s)) \<and>
    c_ind (r_ping s) (ping_num_xmit (r_ping s)) \<notin> seen (r_ping s') \<and>
    can_send (op_ipv6 ops) s' \<and> filler_ok s' \<and> static s' = static s \<and>
    ping_num_recv (r_ping s') = ping_num_recv (r_ping s) \<and> k_send (kern s') = k + 1 \<and> g_stop (kern s') = g_stop (kern s)"
proof -
  let ?c = "send_clock s" and ?n = "r_data_length s" and ?u = "op_ipv6 ops"
  have dl: "ping_datalen (r_ping s) = ?n" using fill by (simp add: filler_ok_def)
  obtain b t s2 where p: "prepare ?u s = Some s2" "ping_setbuf ?u s2 = (0, with_buffers b t ?c)"
    "length b = ?n + room ?u" "length t = ping_cktab_size (r_ping s)"
    "take ?n (drop 8 b) = ref_payload (ref_endian s) (fst (gettimeofday s)) ?n (filler_of s)"
    using payload_written [OF ok fill] by blast
  have m: "request ?c (take (ping_datalen (r_ping ?c)) (drop 8 b)) = msg"
    using p(5) by (simp add: msg_def request_clock send_clock_same dl)
  obtain b1 t1 where x: "length b1 = length b" "length t1 = length t"
    "c_ind (r_ping s) (ping_num_xmit (r_ping s)) \<notin> seen (r_ping (with_buffers b1 t1 ?c))"
    "op_xmit ops s2 = Some (xmit_spec packet msg (with_buffers b1 t1 ?c))"
    using xmit [of ?c s2 b t, unfolded m] ok p(2-4) dl by (auto simp: send_clock_same)
  have ready: "can_send ?u (with_buffers b1 t1 ?c)" "filler_ok (with_buffers b1 t1 ?c)"
    using can_send_with_buffers [of ?u ?c b1 t1] ok fill p x
    by (simp_all add: send_clock_same dl filler_ok_def)
  have se: "send_echo ops s = do { (r, s3) \<leftarrow> op_xmit ops s2;
     (case r of (rc, Some err) \<Rightarrow> Some (die_errno err ''sending packet'' s3) | (rc, None) \<Rightarrow> Some (Inr rc, s3)) }"
    using p(1) by (auto simp: send_echo_def prepare_def bind_eq_Some_conv split_def)
  obtain r s3 where r: "xmit_spec packet msg (with_buffers b1 t1 ?c) = (r, s3)" by fastforce
  have other: "ping_dest (r_ping (with_buffers b1 t1 ?c)) = ping_dest (r_ping s)"
    "ping_num_xmit (r_ping (with_buffers b1 t1 ?c)) = ping_num_xmit (r_ping s)"
    "ping_num_recv (r_ping (with_buffers b1 t1 ?c)) = ping_num_recv (r_ping s)"
    by (simp_all add: with_buffers_def send_clock_same)
  have prog: "static s3 = static s \<Longrightarrow> r_prog s3 = r_prog s" by (rule static_fields)
  note out = xmit_spec_outcome [OF ready r, simplified with_buffers_simps send_clock_same static_steps other, folded k_def]
  show ?thesis
  proof (cases "os_send (env (kern s)) k")
    case None
    then show ?thesis using out x(3) by (intro exI [of _ s3]) (simp add: se x(4) r)
  next
    case (Some err)
    then have st: "static s3 = static s"
      and se': "send_echo ops s = Some (die_errno err ''sending packet'' s3)" using out by (simp_all add: se x(4) r)
    show ?thesis using out x(3) Some se'
      by (intro exI [of _ "s3\<lparr>kern := emit (Perror (r_prog s @ '': sending packet'') err) (kern s3)\<rparr>"])
        (simp add: die_errno_def prog [OF st])
  qed
qed

lemma echo_sent:
  assumes ok: "can_send (op_ipv6 ops) s" and fill: "filler_ok s"
  defines "k \<equiv> k_send (kern s)"
  defines "msg \<equiv> request s (ref_payload (ref_endian s) (fst (gettimeofday s)) (r_data_length s) (filler_of s))"
  shows "\<exists>s'. send_echo ops s = Some (if os_send (env (kern s)) k = None then Inr 0 else Inl 1, s') \<and>
    (case os_send (env (kern s)) k of
       None \<Rightarrow> (\<exists>warning. events (kern s') = events (kern s) @ packet msg (ping_dest (r_ping s)) # map Stdout warning \<and>
                 (n_wrote (net_os s) k = int (length msg) \<longrightarrow> warning = [])) \<and>
               ping_num_xmit (r_ping s') = ping_num_xmit (r_ping s) + 1
     | Some err \<Rightarrow> events (kern s') = events (kern s) @ [Perror (r_prog s @ '': sending packet'') err] \<and>
               ping_num_xmit (r_ping s') = ping_num_xmit (r_ping s)) \<and>
    c_ind (r_ping s) (ping_num_xmit (r_ping s)) \<notin> seen (r_ping s') \<and>
    can_send (op_ipv6 ops) s' \<and> filler_ok s' \<and> static s' = static s \<and>
    ping_num_recv (r_ping s') = ping_num_recv (r_ping s) \<and> k_send (kern s') = k + 1"
  using echo_sent_running [OF ok fill] unfolding k_def msg_def by blast

end

section \<open>The IPv4 sender\<close>

definition request_bytes :: "ref \<Rightarrow> byte list \<Rightarrow> byte list" where
  "request_bytes s payload = icmp_message (ref_endian s) 8 (word_of_int (ping_ident (r_ping s)))
     (word_of_int (int (ping_num_xmit (r_ping s)))) payload"

lemma encode_echo:
  assumes "ping_type p = ICMP_ECHO" "length b = n + room False"
  shows "encode_request tv e p b (8 + n) =
    Some (0, icmp_message e 8 (word_of_int (ping_ident p)) (word_of_int (int (ping_num_xmit p))) (take n (drop 8 b)) @ drop (8 + n) b)"
proof -
  have "b = take 8 b @ take n (drop 8 b) @ drop (8 + n) b"
    by (metis append_take_drop_id drop_drop add.commute)
  then show ?thesis
    using generic_encode_eq [of "take 8 b" e "take n (drop 8 b)" "drop (8 + n) b" ICMP_ECHO "ping_ident p"
        "i32 (int (ping_num_xmit p))"] assms
    by (simp add: encode_request_def icmp_echo_encode_def word16_i32 min_absorb2 ICMP_ECHO_def)
qed

lemma xmit_echo:
  assumes ok: "can_send False s" and buf: "ping_setbuf False s2 = (0, with_buffers b t s)"
    and b: "length b = ping_datalen (r_ping s) + room False" and t: "length t = ping_cktab_size (r_ping s)"
  defines "payload \<equiv> take (ping_datalen (r_ping s)) (drop 8 b)"
  defines "msg \<equiv> request_bytes s payload"
  shows "\<exists>b1 t1. length b1 = length b \<and> length t1 = length t \<and>
      c_ind (r_ping s) (ping_num_xmit (r_ping s)) \<notin> seen (r_ping (with_buffers b1 t1 s)) \<and>
      ping_xmit s2 = Some (xmit_spec Sendto msg (with_buffers b1 t1 s))"
proof -
  let ?s1 = "with_buffers b t s" and ?n = "ping_datalen (r_ping s)"
  let ?p = "r_ping ?s1" and ?sq = "ping_num_xmit (r_ping s)"
  have facts: "ping_type (r_ping s) = ICMP_ECHO" "0 < ping_cktab_size (r_ping s)" "?n \<le> 65527"
    using ok by (simp_all add: can_send_def Let_def)
  have "table_ok ?p" using facts t by (simp add: table_ok_def with_buffers_def)
  then obtain q t1 where q: "ping_clr ?p ?sq = Some q" "table_ok q" "seen q = seen ?p - {c_ind ?p ?sq}" "q = ?p\<lparr>ping_cktab := t1\<rparr>"
    using ping_clr_seen [of ?p ?sq] by blast
  then obtain t2 where t2: "t1 = Some t2" "length t2 = length t" using t by (auto simp: table_ok_def with_buffers_def)
  have pl: "ping_packetsize ?p = 8 + ?n"
    using facts by (simp add: ping_packetsize_def with_buffers_def PING_HEADER_LEN_def ICMP_MINLEN_def icmp_types)
  have e: "encode_request tv (ref_endian s) q b (8 + ?n) = Some (0, msg @ drop (8 + ?n) b)" for tv
    using encode_echo [of q b ?n tv "ref_endian s"] facts b q(4)
    by (simp add: with_buffers_def msg_def request_bytes_def payload_def)
  have lm: "length msg = 8 + ?n" using b by (simp add: msg_def request_bytes_def payload_def)
  have rd: "read_range (msg @ drop (8 + ?n) b) 0 (8 + ?n) = Some msg" using lm by (simp add: read_range_def)
  have ty: "ping_type q \<noteq> ICMP_TIMESTAMP" using facts q(4) by (simp add: with_buffers_def icmp_types)
  have qs: "ping_buffer q = Some b" "ping_dest q = ping_dest (r_ping s)" "ping_num_xmit q = ?sq"
    "ping_hostname q = ping_hostname (r_ping s)"
    "?s1\<lparr>r_ping := q\<lparr>ping_buffer := Some b1\<rparr>\<rparr> = with_buffers b1 t2 s"
    "r_ping (with_buffers b1 t2 s) = q\<lparr>ping_buffer := Some b1\<rparr>" for b1
    using q(4) t2(1) by (simp_all add: with_buffers_def)
  show ?thesis
  proof (rule exI [of _ "msg @ drop (8 + ?n) b"], rule exI [of _ t2], intro conjI)
    show "length (msg @ drop (8 + ?n) b) = length b" using lm b by simp
    show "length t2 = length t" by (rule t2)
    show "c_ind (r_ping s) ?sq \<notin> seen (r_ping (with_buffers (msg @ drop (8 + ?n) b) t2 s))"
      using q(3,4) t2(1) by (simp add: seen_def c_ind_def with_buffers_def)
    have nx: "ping_num_xmit ?p = ?sq" by (simp add: with_buffers_def)
    show "ping_xmit s2 = Some (xmit_spec Sendto msg (with_buffers (msg @ drop (8 + ?n) b) t2 s))"
    proof (cases "sendto msg (ping_dest (r_ping s)) (kern s)")
      case (Pair res w)
      have "ping_xmit s2 = do {
          let p3 = q\<lparr>ping_buffer := Some (msg @ drop (8 + ?n) b)\<rparr>;
          (case res of
             Some err \<Rightarrow> Some ((- 1, Some err), ?s1\<lparr>r_ping := p3, kern := w\<rparr>)
           | None \<Rightarrow>
             (let s3 = ?s1\<lparr>r_ping := p3\<lparr>ping_num_xmit := ?sq + 1\<rparr>, kern := w\<rparr>;
                  i = n_wrote (net_os s) (k_send (kern s))
              in Some ((0, None), if i \<noteq> int (8 + ?n)
                   then out (''ping: wrote '' @ ping_hostname (r_ping s) @ '' '' @ dec (int (8 + ?n)) @ '' chars, ret=''
                             @ dec i @ nl) s3
                   else s3))) }"
        unfolding ping_xmit_def buf Let_def split_def fst_conv snd_conv pl nx q(1)
        using ty Pair by (simp add: qs(1-4) e rd cong: option.case_cong)
      moreover have "q\<lparr>ping_buffer := Some (msg @ drop (8 + ?n) b)\<rparr> = r_ping (with_buffers (msg @ drop (8 + ?n) b) t2 s)"
        using q(4) t2(1) by (cases "r_ping s") (simp add: with_buffers_def)
      moreover have "?s1\<lparr>r_ping := r_ping (with_buffers b1 t2 s), kern := w\<rparr> = (with_buffers b1 t2 s)\<lparr>kern := w\<rparr>"
        "?s1\<lparr>r_ping := x, kern := w\<rparr> = (with_buffers (msg @ drop (8 + ?n) b) t2 s)\<lparr>r_ping := x, kern := w\<rparr>" for b1 x
        by (simp_all add: with_buffers_def)
      moreover have "ping_dest (r_ping (with_buffers b1 t2 s)) = ping_dest (r_ping s)"
        "ping_num_xmit (r_ping (with_buffers b1 t2 s)) = ?sq"
        "ping_hostname (r_ping (with_buffers b1 t2 s)) = ping_hostname (r_ping s)" for b1
        by (simp_all add: with_buffers_def)
      ultimately show ?thesis using Pair lm
        by (cases res) (simp_all add: xmit_spec_def sendto_hand_over [symmetric] Let_def del: with_buffers_simps(4))
    qed
  qed
qed

lemma ping4_simps [simp]: "op_ipv6 ping4 = False" "op_xmit ping4 = ping_xmit"
  by (simp_all add: ping4_def)

interpretation v4: transmitter ping4 Sendto request_bytes
proof
  fix s s2 :: ref and b t
  assume "can_send (op_ipv6 ping4) s" "ping_setbuf (op_ipv6 ping4) s2 = (0, with_buffers b t s)"
    "length b = ping_datalen (r_ping s) + room (op_ipv6 ping4)" "length t = ping_cktab_size (r_ping s)"
  then show "\<exists>b1 t1. length b1 = length b \<and> length t1 = length t \<and>
      c_ind (r_ping s) (ping_num_xmit (r_ping s)) \<notin> seen (r_ping (with_buffers b1 t1 s)) \<and>
      op_xmit ping4 s2 = Some (xmit_spec Sendto (request_bytes s (take (ping_datalen (r_ping s)) (drop 8 b))) (with_buffers b1 t1 s))"
    using xmit_echo [of s s2 b t] by simp
qed (simp add: request_bytes_def send_clock_same fun_eq_iff)

section \<open>One call of send_echo\<close>

text \<open>C27. \<open>send_echo\<close> of the reference is memory-safe and functionally correct: whatever the buffers
  hold, and even before they are allocated, one call hands the kernel exactly one packet, the RFC
  792 echo request with the low 16 bits of the transmit counter as sequence number and the
  timestamp followed by the user's data as payload. If the kernel takes it the counter goes up
  and the bit of the sequence number is cleared; if not, the program ends with status 1 and a
  message. Either way the next call finds its preconditions again.\<close>

theorem send_echo_spec:
  assumes ok: "can_send False s" and fill: "filler_ok s"
  defines "k \<equiv> k_send (kern s)"
  defines "msg \<equiv> request_bytes s (ref_payload (ref_endian s) (fst (gettimeofday s)) (r_data_length s) (filler_of s))"
  shows "\<exists>s'. send_echo ping4 s = Some (if os_send (env (kern s)) k = None then Inr 0 else Inl 1, s') \<and>
    (case os_send (env (kern s)) k of
       None \<Rightarrow> (\<exists>warning. events (kern s') = events (kern s) @ Sendto msg (ping_dest (r_ping s)) # map Stdout warning \<and>
                 (n_wrote (net_os s) k = int (length msg) \<longrightarrow> warning = [])) \<and>
               ping_num_xmit (r_ping s') = ping_num_xmit (r_ping s) + 1
     | Some err \<Rightarrow> events (kern s') = events (kern s) @ [Perror (r_prog s @ '': sending packet'') err] \<and>
               ping_num_xmit (r_ping s') = ping_num_xmit (r_ping s)) \<and>
    c_ind (r_ping s) (ping_num_xmit (r_ping s)) \<notin> seen (r_ping s') \<and>
    can_send False s' \<and> filler_ok s' \<and> static s' = static s \<and>
    ping_num_recv (r_ping s') = ping_num_recv (r_ping s) \<and> k_send (kern s') = k + 1"
  unfolding k_def msg_def using v4.echo_sent [of s] ok fill by simp

text \<open>A reference about to send its first default probe.\<close>

definition sample_net :: "ipv4 ref_os" where
  "sample_net = \<lparr>n_from = (\<lambda>_. (127, 0, 0, 1)), n_cmsg = (\<lambda>_. []), n_wrote = (\<lambda>_. 64), n_numeric = (\<lambda>a. Inr (dotted_quad a)),
     n_named = (\<lambda>_. None), n_byaddr = (\<lambda>_. None), n_getaddrinfo = (\<lambda>_. Some ((127, 0, 0, 1), None)),
     n_malloc_ping = True, n_malloc_buffer = (\<lambda>n. Some (replicate n 0)), n_malloc_cktab = (\<lambda>n. Some (replicate n 0)),
     n_protocol = True, n_socket_raw = None, n_socket_dgram = None, n_setsockopt = (\<lambda>_ _. None),
     n_getuid = 0, n_setuid = None\<rparr>"

definition sample_ref :: ref where
  "sample_ref = (ref_boot sample_os sample_net)\<lparr>r_ping := fresh_ping\<lparr>ping_buffer := None, ping_cktab := None\<rparr>,
     r_data_buffer := Some (map of_nat [0..<56])\<rparr>"

lemma sample_ref_ok: "can_send False sample_ref" "filler_ok sample_ref"
  by (simp_all add: can_send_def filler_ok_def sample_ref_def fresh_ping_def ref_boot_def sample_net_def
      ping_buflen_def PING_DATALEN_def icmp_sizes PING_HEADER_LEN_def)

theorem send_echo_spec_witness:
  "\<exists>s' packet. send_echo ping4 sample_ref = Some (Inr 0, s') \<and> ping_num_xmit (r_ping s') = 1 \<and>
     (\<exists>rest. events (kern s') = Sendto packet (127, 0, 0, 1) # rest)"
  using send_echo_spec [OF sample_ref_ok]
  by (auto simp: sample_ref_def ref_boot_def sample_os_def fresh_ping_def)

section \<open>The packets of the two pings\<close>

text \<open>Eight bytes of a \<open>time_t\<close> or \<open>long\<close> determine a value that is not negative.\<close>

lemma digits_inj:
  fixes x y :: int
  assumes "0 \<le> x" "x < 256 ^ n" "0 \<le> y" "y < 256 ^ n"
    and "\<forall>k < n. x div 256 ^ k mod 256 = y div 256 ^ k mod 256"
  shows "x = y"
  using assms
proof (induction n arbitrary: x y)
  case (Suc n)
  have "x div 256 = y div 256"
  proof (rule Suc.IH)
    show "\<forall>k < n. x div 256 div 256 ^ k mod 256 = y div 256 div 256 ^ k mod 256"
    proof (intro allI impI)
      fix k assume "k < n"
      then show "x div 256 div 256 ^ k mod 256 = y div 256 div 256 ^ k mod 256"
        using Suc.prems(5) [rule_format, of "Suc k"] by (simp add: zdiv_zmult2_eq)
    qed
  qed (use Suc.prems(1-4) in auto)
  moreover have "x mod 256 = y mod 256" using Suc.prems(5) [rule_format, of 0] by simp
  ultimately show ?case by (metis mult_div_mod_eq)
qed simp

lemma int64_bytes_inj:
  assumes "int64_bytes e x = int64_bytes e y" "0 \<le> x" "x < 2 ^ 64" "0 \<le> y" "y < 2 ^ 64"
  shows "x = y"
proof (rule digits_inj [where n = 8])
  have "map (\<lambda>k. word_of_int (x div 256 ^ k) :: byte) [0..<8] = map (\<lambda>k. word_of_int (y div 256 ^ k)) [0..<8]"
    using assms(1) by (cases e) (simp_all only: int64_bytes_def Let_def endian.case rev_is_rev_conv)
  then have "(word_of_int (x div 256 ^ k) :: byte) = word_of_int (y div 256 ^ k)" if "k < 8" for k
    using that by (auto simp only: map_eq_conv set_upt atLeastLessThan_iff)
  then have "uint (word_of_int (x div 256 ^ k) :: byte) = uint (word_of_int (y div 256 ^ k) :: byte)" if "k < 8" for k
    using that by simp
  then show "\<forall>k < 8. x div 256 ^ k mod 256 = y div 256 ^ k mod 256"
    by (simp add: uint_word_of_int)
qed (use assms in simp_all)

lemma default_filler:
  assumes "init_data_buffer None l s0 = Some s" "filler_ok s"
  shows "filler_of s = map of_nat [0..<r_data_length s]"
  using assms by (auto simp: init_data_buffer_def filler_ok_def filler_of_def split: if_splits option.splits)

lemma default_payloads_eq_iff:
  assumes "\<not> has_pattern (flags ctx)" "valid_ts t" "0 \<le> fst tv" "fst tv < 2 ^ 64" "0 \<le> snd tv" "snd tv < 2 ^ 64"
  defines "n \<equiv> payload_len ctx"
  shows "payload_spec ctx e t = ref_payload e tv n (map of_nat [0..<n]) \<longleftrightarrow>
    n < 16 \<or> n = 16 \<and> tv_sec t = fst tv \<and> tv_nsec t = snd tv"
proof -
  have stamp: "timespec_bytes e t = timeval_bytes e tv \<longleftrightarrow> tv_sec t = fst tv \<and> tv_nsec t = snd tv"
  proof
    assume "timespec_bytes e t = timeval_bytes e tv"
    then have "int64_bytes e (tv_sec t) = int64_bytes e (fst tv)" "int64_bytes e (tv_nsec t) = int64_bytes e (snd tv)"
      by (cases e; simp add: timespec_bytes_def timeval_bytes_def int64_bytes_def)+
    then show "tv_sec t = fst tv \<and> tv_nsec t = snd tv"
      using assms(2-6) by (auto simp: valid_ts_def intro: int64_bytes_inj)
  qed (simp add: timespec_bytes_def timeval_bytes_def)
  consider "n < 16" | "n = 16" | "16 < n" by linarith
  then show ?thesis
  proof cases
    case 3
    then have "payload_spec ctx e t ! 16 = (16 :: byte)"
      using assms(1) by (simp add: payload_spec_def n_def [symmetric] Let_def sizeof_timespec_def nth_append)
    moreover have "ref_payload e tv n (map of_nat [0..<n]) ! 16 = (0 :: byte)"
      using 3 by (simp add: ref_payload_def PING_TIMING_def sizeof_timeval_def nth_append)
    ultimately show ?thesis using 3 by auto
  qed (use assms(1) stamp in \<open>simp_all add: payload_spec_def ref_payload_def n_def [symmetric] Let_def
      sizeof_timespec_def PING_TIMING_def sizeof_timeval_def\<close>)
qed

lemma messages_eq_iff:
  assumes "payload_len ctx \<le> 65507" "ctx_id ctx = htons e (word_of_int ident)" "length p = payload_len ctx"
  shows "echo_request ctx e sq t = icmp_message e 8 (word_of_int ident) sq p \<longleftrightarrow> payload_spec ctx e t = p"
proof
  assume "payload_spec ctx e t = p"
  moreover have "length ([8, 0, 0, 0, hi8 i, lo8 i, hi8 q, lo8 q] @ p) \<le> 65536" for i q
    using assms(1,3) by simp
  ultimately show "echo_request ctx e sq t = icmp_message e 8 (word_of_int ident) sq p"
    unfolding icmp_message_def echo_request_def assms(2) store_htons Let_def
    by (simp only: cksum_agrees)
qed (simp add: icmp_message_def echo_request_def Let_def)

text \<open>C38. The comment of \<open>fill_default\<close> promises bytes on the wire identical to those of the
  reference. Let both programs, on the same kind of host, with the same identifier, sequence
  number and payload size and with their default payloads, send a probe the kernel takes. The two
  packets are of the same length; they are identical exactly when the payload is shorter than 16
  bytes, or has 16 bytes and the two clock readings happen to have the same seconds and the
  nanoseconds of the program equal the microseconds of the reference. So beyond 16 bytes, the
  default of 56 included, they never agree (after the timestamp the program goes on counting with
  16 where the reference starts again from 0), and at 16 bytes two probes sent at the same
  instant agree only at a full second.\<close>

theorem packets_agree_iff:
  assumes "wf_ctx ctx" "\<not> has_pattern (flags ctx)" "os_send (env w) (k_send w) = None"
    and "init_data_buffer None l s0 = Some s" "can_send False s" "filler_ok s"
    and "os_send (env (kern s)) (k_send (kern s)) = None"
    and "ref_endian s = host_endian w" "r_data_length s = payload_len ctx"
    and "ctx_id ctx = htons (host_endian w) (word_of_int (ping_ident (r_ping s)))"
    and "sq = word_of_int (int (ping_num_xmit (r_ping s)))"
    and "valid_ts (os_clock (env w) (k_clock w))" "valid_ts (os_clock (env (kern s)) (k_clock (kern s)))"
  defines "t \<equiv> os_clock (env w) (k_clock w)" and "t' \<equiv> os_clock (env (kern s)) (k_clock (kern s))"
  shows "\<exists>ctx1 st1 w1 m1 rest1 s1 m2 rest2.
    send_one ctx sq st w = Some (0, ctx1, st1, w1) \<and> events w1 = events w @ Sendto m1 (dst ctx) # rest1 \<and>
    send_echo ping4 s = Some (Inr 0, s1) \<and>
    events (kern s1) = events (kern s) @ Sendto m2 (ping_dest (r_ping s)) # rest2 \<and>
    length m1 = length m2 \<and>
    (m1 = m2 \<longleftrightarrow> payload_len ctx < 16 \<or>
       payload_len ctx = 16 \<and> tv_sec t = tv_sec t' \<and> tv_nsec t = tv_nsec t' div 1000)"
proof -
  let ?e = "host_endian w" and ?n = "payload_len ctx"
  define m1 where "m1 = echo_request ctx ?e sq t"
  define tv where "tv = (tv_sec t', tv_nsec t' div 1000)"
  define m2 where "m2 = request_bytes s (ref_payload ?e tv ?n (map of_nat [0..<?n]))"
  obtain ring where r: "send_ts ctx = Some ring" using wf_ctx_ring [OF assms(1)] by blast
  have one: "send_one ctx sq st w = Some (0, ctx\<lparr>send_ts := Some (ring(ring_slot sq := t)), pkt := Some m1\<rparr>,
      st\<lparr>n_sent := i32 (n_sent st + 1)\<rparr>, after_send ctx m1 w)"
    using send_one_eq [OF assms(1) r, of w sq st] assms(3) by (simp add: Let_def m1_def t_def)
  have now: "fst (gettimeofday s) = tv"
    by (simp add: gettimeofday_def clock_gettime_def tv_def t'_def Let_def)
  obtain s1 rest2 where two: "send_echo ping4 s = Some (Inr 0, s1)"
    "events (kern s1) = events (kern s) @ Sendto m2 (ping_dest (r_ping s)) # rest2"
    using v4.echo_sent [of s] assms(5-9) default_filler [OF assms(4,6)] now by (auto simp: m2_def)
  have l: "length (ref_payload ?e tv ?n (map of_nat [0..<?n])) = ?n"
    by (simp add: ref_payload_def PING_TIMING_def sizeof_timeval_def)
  have n: "?n \<le> 65507" using assms(1) by (simp add: wf_ctx_def)
  have "m1 = m2 \<longleftrightarrow> payload_spec ctx ?e t = ref_payload ?e tv ?n (map of_nat [0..<?n])"
    unfolding m1_def m2_def request_bytes_def assms(8,11) by (rule messages_eq_iff [OF n assms(10) l])
  also have "\<dots> \<longleftrightarrow> ?n < 16 \<or> ?n = 16 \<and> tv_sec t = fst tv \<and> tv_nsec t = snd tv"
    by (rule default_payloads_eq_iff [OF assms(2)])
      (use assms(12,13) in \<open>auto simp: t_def t'_def tv_def valid_ts_def\<close>)
  finally have iff: "m1 = m2 \<longleftrightarrow> ?n < 16 \<or> ?n = 16 \<and> tv_sec t = tv_sec t' \<and> tv_nsec t = tv_nsec t' div 1000"
    by (simp add: tv_def)
  have "length m1 = length m2" using l by (simp add: m1_def m2_def request_bytes_def)
  moreover have "\<exists>rest1. events (after_send ctx m1 w) = events w @ Sendto m1 (dst ctx) # rest1"
    using assms(3) by (simp add: after_send_def)
  ultimately show ?thesis using one two iff by blast
qed

text \<open>Sixteen bytes at a full second, on a clock that stands still at half a second past it.\<close>

definition sample_ctx16 :: t_ping_ctx where
  "sample_ctx16 = sample_ctx\<lparr>payload_len := 16, pkt := Some (replicate 24 0)\<rparr>"

definition half_past :: os where
  "half_past = sample_os\<lparr>os_clock := \<lambda>_. \<lparr>tv_sec = 100, tv_nsec = 500000000\<rparr>\<rparr>"

definition sample_ref16 :: "os \<Rightarrow> ref" where
  "sample_ref16 e = (ref_boot e sample_net)\<lparr>r_data_length := 16, r_data_buffer := Some (map of_nat [0..<16]),
     r_ping := fresh_ping\<lparr>ping_buffer := None, ping_cktab := None, ping_datalen := 16, ping_ident := 4660\<rparr>\<rparr>"

lemma sample16_ok:
  "wf_ctx sample_ctx16" "\<not> has_pattern (flags sample_ctx16)" "payload_len sample_ctx16 = 16"
  "init_data_buffer None 0 (sample_ref16 e) = Some (sample_ref16 e)" "can_send False (sample_ref16 e)"
  "filler_ok (sample_ref16 e)" "r_data_length (sample_ref16 e) = 16" "kern (sample_ref16 e) = boot e"
  "ping_ident (r_ping (sample_ref16 e)) = 4660" "ping_num_xmit (r_ping (sample_ref16 e)) = 0"
  "ctx_id sample_ctx16 = htons LE (word_of_int 4660)" "ref_endian (sample_ref16 e) = os_endian e"
  using wf_sample(1)
  by (simp_all add: sample_ctx16_def sample_ctx_def zero_ctx_def zero_flags_def wf_ctx_def sizeof_icmp_hdr_def sample_ref16_def
      ref_boot_def init_data_buffer_def can_send_def fresh_ping_def sample_net_def ping_buflen_def icmp_sizes
      PING_HEADER_LEN_def filler_ok_def ref_endian_def bswap16_def load16.simps lo8_def hi8_def)

lemma clocks16:
  "os_endian sample_os = LE" "os_endian half_past = LE" "os_send sample_os k = None" "os_send half_past k = None"
  "os_clock half_past 0 = \<lparr>tv_sec = 100, tv_nsec = 500000000\<rparr>" "os_clock sample_os 0 = \<lparr>tv_sec = 100, tv_nsec = 0\<rparr>"
  by (simp_all add: half_past_def sample_os_def)

theorem packets_agree_iff_witness:
  "(\<exists>c st w1 m r1 s1 r2. send_one sample_ctx16 0 zero_stats (boot sample_os) = Some (0, c, st, w1) \<and>
     events w1 = Sendto m (dst sample_ctx16) # r1 \<and> send_echo ping4 (sample_ref16 sample_os) = Some (Inr 0, s1) \<and>
     events (kern s1) = Sendto m (ping_dest (r_ping (sample_ref16 sample_os))) # r2) \<and>
   (\<exists>c st w1 m1 r1 s1 m2 r2. send_one sample_ctx16 0 zero_stats (boot half_past) = Some (0, c, st, w1) \<and>
     events w1 = Sendto m1 (dst sample_ctx16) # r1 \<and> send_echo ping4 (sample_ref16 half_past) = Some (Inr 0, s1) \<and>
     events (kern s1) = Sendto m2 (ping_dest (r_ping (sample_ref16 half_past))) # r2 \<and> m1 \<noteq> m2)"
proof
  note w = packets_agree_iff [of sample_ctx16 "boot e" 0 "sample_ref16 e" "sample_ref16 e" 0 zero_stats for e,
      unfolded sample16_ok boot_simps clocks16]
  show "\<exists>c st w1 m r1 s1 r2. send_one sample_ctx16 0 zero_stats (boot sample_os) = Some (0, c, st, w1) \<and>
     events w1 = Sendto m (dst sample_ctx16) # r1 \<and> send_echo ping4 (sample_ref16 sample_os) = Some (Inr 0, s1) \<and>
     events (kern s1) = Sendto m (ping_dest (r_ping (sample_ref16 sample_os))) # r2"
    using w [of sample_os] by (simp add: clocks16 valid_ts_def sample16_ok)
  show "\<exists>c st w1 m1 r1 s1 m2 r2. send_one sample_ctx16 0 zero_stats (boot half_past) = Some (0, c, st, w1) \<and>
     events w1 = Sendto m1 (dst sample_ctx16) # r1 \<and> send_echo ping4 (sample_ref16 half_past) = Some (Inr 0, s1) \<and>
     events (kern s1) = Sendto m2 (ping_dest (r_ping (sample_ref16 half_past))) # r2 \<and> m1 \<noteq> m2"
    using w [of half_past] by (simp add: clocks16 valid_ts_def sample16_ok) blast
qed

end
