(* ===== verification/Ref6_Send.thy ===== *)
theory Ref6_Send
  imports Ref6_Main Ref_Send
begin

text \<open>
  What \<open>ping6\<close> puts on the wire and how it reacts to what arrives. Sending and counting are the
  interfaces proved for \<open>ping\<close>, interpreted on the functions of \<open>ping6.c\<close>: \<open>transmitter\<close> and the table
  of sequence numbers.
\<close>

section \<open>Sending\<close>

definition request6 :: "u16 \<Rightarrow> u16 \<Rightarrow> byte list \<Rightarrow> byte list" where
  "request6 ident sq payload = [128, 0, 0, 0, hi8 ident, lo8 ident, hi8 sq, lo8 sq] @ payload"

definition request6_bytes :: "ref6 \<Rightarrow> byte list \<Rightarrow> byte list" where
  "request6_bytes s = request6 (word_of_int (ping_ident (r_ping s))) (word_of_int (int (ping_num_xmit (r_ping s))))"

lemma length_request6 [simp]: "length (request6 i q p) = 8 + length p"
  by (simp add: request6_def)

lemma sendto6_hand_over: "sendto6 bytes to w = hand_over (Sendto6 bytes to) w"
  by (simp add: sendto6_def hand_over_def)

text \<open>Writing the header into a buffer.\<close>

lemma header6_written:
  assumes "length b = 8 + n"
  shows "(do {
     b1 \<leftarrow> poke b icmp6_type_off (word_of_int ICMP6_ECHO_REQUEST);
     b2 \<leftarrow> poke b1 icmp6_code_off 0;
     b3 \<leftarrow> poke16 e b2 icmp6_cksum_off 0;
     b4 \<leftarrow> poke16 e b3 icmp6_id_off (htons e i);
     poke16 e b4 icmp6_seq_off (htons e q) }) = Some (request6 i q (take n (drop 8 b)))"
proof -
  obtain a0 a1 a2 a3 a4 a5 a6 a7 r where "b = [a0, a1, a2, a3, a4, a5, a6, a7] @ r"
    using eight_bytes [of b] assms by fastforce
  then show ?thesis using assms
    by (simp add: icmp6_layout icmp6_types poke_def poke16_def store_htons store_zero request6_def eval_nat_numeral)
qed

lemma xmit_echo6:
  assumes ok: "can_send True s" and buf: "ping_setbuf True s2 = (0, with_buffers b t s)"
    and b: "length b = ping_datalen (r_ping s) + room True" and t: "length t = ping_cktab_size (r_ping s)"
  defines "msg \<equiv> request6_bytes s (take (ping_datalen (r_ping s)) (drop 8 b))"
  shows "\<exists>b1 t1. length b1 = length b \<and> length t1 = length t \<and>
      c_ind (r_ping s) (ping_num_xmit (r_ping s)) \<notin> seen (r_ping (with_buffers b1 t1 s)) \<and>
      ping_xmit6 s2 = Some (xmit_spec Sendto6 msg (with_buffers b1 t1 s))"
proof -
  let ?s1 = "with_buffers b t s" and ?n = "ping_datalen (r_ping s)"
  let ?p = "r_ping ?s1" and ?sq = "ping_num_xmit (r_ping s)"
  have facts: "0 < ping_cktab_size (r_ping s)" "?n \<le> 65527" using ok by (simp_all add: can_send_def Let_def)
  have "table_ok ?p" using facts t by (simp add: table_ok_def with_buffers_def)
  then obtain q t1 where q: "ping_clr ?p ?sq = Some q" "table_ok q" "seen q = seen ?p - {c_ind ?p ?sq}" "q = ?p\<lparr>ping_cktab := t1\<rparr>"
    using ping_clr_seen [of ?p ?sq] by blast
  then obtain t2 where t2: "t1 = Some t2" "length t2 = length t" using t by (auto simp: table_ok_def with_buffers_def)
  have len: "i32 (int (?n + sizeof_icmp6_hdr)) = int (8 + ?n)"
    using facts by (simp add: i32_def sizeof_icmp6_hdr_def)
  have n: "nat (int (8 + ?n) mod 18446744073709551616) = 8 + ?n" using facts by simp
  have msg: "msg = request6 (word_of_int (ping_ident q)) (word_of_int (int ?sq)) (take ?n (drop 8 b))"
    using q(4) by (simp add: msg_def request6_bytes_def with_buffers_def)
  have lm: "length msg = 8 + ?n" using b by (simp add: msg)
  have rd: "read_range msg 0 (8 + ?n) = Some msg" using lm by (simp add: read_range_def)
  have hdr: "(do {
     b1 \<leftarrow> poke b icmp6_type_off (word_of_int ICMP6_ECHO_REQUEST);
     b2 \<leftarrow> poke b1 icmp6_code_off 0;
     b3 \<leftarrow> poke16 e b2 icmp6_cksum_off 0;
     b4 \<leftarrow> poke16 e b3 icmp6_id_off (htons e (word_of_int (ping_ident q)));
     b5 \<leftarrow> poke16 e b4 icmp6_seq_off (htons e (word_of_int (int ?sq)));
     f b5 }) = f msg" for e f
    using header6_written [of b ?n e "word_of_int (ping_ident q)" "word_of_int (int ?sq)"] b
    by (simp add: msg bind_eq_Some_conv) (auto simp: bind_eq_Some_conv)
  have qs: "ping_buffer q = Some b" "ping_dest q = ping_dest (r_ping s)" "ping_num_xmit q = ?sq"
    "ping_hostname q = ping_hostname (r_ping s)"
    using q(4) by (simp_all add: with_buffers_def)
  have q3: "q\<lparr>ping_buffer := Some msg\<rparr> = r_ping (with_buffers msg t2 s)"
    using q(4) t2(1) by (cases "r_ping s") (simp add: with_buffers_def)
  have nx: "ping_num_xmit ?p = ?sq" "ping_datalen ?p = ?n" by (simp_all add: with_buffers_def)
  show ?thesis
  proof (rule exI [of _ msg], rule exI [of _ t2], intro conjI)
    show "length msg = length b" using lm b by simp
    show "length t2 = length t" by (rule t2)
    show "c_ind (r_ping s) ?sq \<notin> seen (r_ping (with_buffers msg t2 s))"
      using q(3,4) t2(1) by (simp add: seen_def c_ind_def with_buffers_def)
    show "ping_xmit6 s2 = Some (xmit_spec Sendto6 msg (with_buffers msg t2 s))"
    proof (cases "sendto6 msg (ping_dest (r_ping s)) (kern s)")
      case (Pair res w)
      let ?w = "with_buffers msg t2 s"
      have other: "ping_dest (r_ping ?w) = ping_dest (r_ping s)" "ping_num_xmit (r_ping ?w) = ?sq"
        "ping_hostname (r_ping ?w) = ping_hostname (r_ping s)" by (simp_all add: with_buffers_def)
      have upd: "?s1\<lparr>r_ping := r_ping ?w, kern := w\<rparr> = ?w\<lparr>kern := w\<rparr>"
        "?s1\<lparr>r_ping := x, kern := w\<rparr> = ?w\<lparr>r_ping := x, kern := w\<rparr>" for x
        by (simp_all add: with_buffers_def)
      have "ping_xmit6 s2 = (case res of
             Some err \<Rightarrow> Some ((- 1, Some err), ?s1\<lparr>r_ping := r_ping ?w, kern := w\<rparr>)
           | None \<Rightarrow>
             (let s3 = ?s1\<lparr>r_ping := (r_ping ?w)\<lparr>ping_num_xmit := ?sq + 1\<rparr>, kern := w\<rparr>;
                  i = n_wrote (net_os s) (k_send (kern s))
              in Some ((0, None), if i \<noteq> int (8 + ?n)
                   then out (''ping: wrote '' @ ping_hostname (r_ping s) @ '' '' @ dec (int (8 + ?n)) @ '' chars, ret=''
                             @ dec i @ nl) s3
                   else s3)))"
        unfolding ping_xmit6_def buf Let_def split_def fst_conv snd_conv nx len n q(1) Option.bind.simps qs hdr rd q3
        using Pair by (simp add: other with_buffers_def cong: option.case_cong)
      then show ?thesis using Pair lm
        by (cases res) (simp_all add: xmit_spec_def sendto6_hand_over [symmetric] Let_def other upd(1) upd(2) del: with_buffers_simps(4))
    qed
  qed
qed

lemma ping6_ops_simps [simp]: "op_ipv6 ping6_ops = True" "op_xmit ping6_ops = ping_xmit6"
  by (simp_all add: ping6_ops_def)

interpretation v6: transmitter ping6_ops Sendto6 request6_bytes
proof
  fix s s2 :: ref6 and b t
  assume "can_send (op_ipv6 ping6_ops) s" "ping_setbuf (op_ipv6 ping6_ops) s2 = (0, with_buffers b t s)"
    "length b = ping_datalen (r_ping s) + room (op_ipv6 ping6_ops)" "length t = ping_cktab_size (r_ping s)"
  then show "\<exists>b1 t1. length b1 = length b \<and> length t1 = length t \<and>
      c_ind (r_ping s) (ping_num_xmit (r_ping s)) \<notin> seen (r_ping (with_buffers b1 t1 s)) \<and>
      op_xmit ping6_ops s2 = Some (xmit_spec Sendto6 (request6_bytes s (take (ping_datalen (r_ping s)) (drop 8 b))) (with_buffers b1 t1 s))"
    using xmit_echo6 [of s s2 b t] by simp
qed (simp add: request6_bytes_def send_clock_same fun_eq_iff)

text \<open>One call of \<open>send_echo\<close> of \<open>ping6\<close>: memory-safe, one packet, the payload and the number as for \<open>ping\<close>.\<close>

theorem send_echo6_spec:
  assumes ok: "can_send True s" and fill: "filler_ok s"
  defines "k \<equiv> k_send (kern s)"
  defines "msg \<equiv> request6_bytes s (ref_payload (ref_endian s) (fst (gettimeofday s)) (r_data_length s) (filler_of s))"
  shows "\<exists>s'. send_echo6 s = Some (if os_send (env (kern s)) k = None then Inr 0 else Inl 1, s') \<and>
    (case os_send (env (kern s)) k of
       None \<Rightarrow> (\<exists>warning. events (kern s') = events (kern s) @ Sendto6 msg (ping_dest (r_ping s)) # map Stdout warning \<and>
                 (n_wrote (net_os s) k = int (length msg) \<longrightarrow> warning = [])) \<and>
               ping_num_xmit (r_ping s') = ping_num_xmit (r_ping s) + 1
     | Some err \<Rightarrow> events (kern s') = events (kern s) @ [Perror (r_prog s @ '': sending packet'') err] \<and>
               ping_num_xmit (r_ping s') = ping_num_xmit (r_ping s)) \<and>
    c_ind (r_ping s) (ping_num_xmit (r_ping s)) \<notin> seen (r_ping s') \<and>
    can_send True s' \<and> filler_ok s' \<and> static s' = static s \<and>
    ping_num_recv (r_ping s') = ping_num_recv (r_ping s) \<and> k_send (kern s') = k + 1"
  unfolding k_def msg_def send_echo6_def using v6.echo_sent [of s] ok fill by simp

end
