(* ===== verification/Ref_Frame.thy ===== *)
theory Ref_Frame
  imports Ref_Run
begin

text \<open>
  What printing leaves alone. Every function of the reference that prints a message reads
  the buffer, writes to its output, reads the clock, keeps statistics and remembers the last
  route; \<open>frame s s'\<close> says that nothing else differs, and that no packet was sent. The collection
  \<open>frames\<close> holds one fact per function.
\<close>

named_theorems frames \<open>functions that only print\<close>

section \<open>The relation\<close>

fun is_packet :: "event \<Rightarrow> bool" where
  "is_packet (Sendto _ _) = True"
| "is_packet (Sendto6 _ _) = True"
| "is_packet _ = False"

definition packets :: "world \<Rightarrow> event list" where
  "packets w = filter is_packet (events w)"

definition unprinted :: "'n ref_state \<Rightarrow> 'n ref_state" where
  "unprinted s = s\<lparr>kern := (kern s)\<lparr>events := [], k_clock := 0\<rparr>,
     r_ping := (r_ping s)\<lparr>ping_closure := \<lparr>tmin = Fin 0, tmax = Fin 0, tsum = Fin 0, tsumsq = Fin 0\<rparr>\<rparr>,
     r_old_rrlen := 0, r_old_rr := []\<rparr>"

definition frame :: "'n ref_state \<Rightarrow> 'n ref_state \<Rightarrow> bool" where
  "frame s s' \<longleftrightarrow> unprinted s' = unprinted s \<and> packets (kern s') = packets (kern s)"

lemma printed_refl [simp]: "frame s s"
  by (simp add: frame_def)

lemma printed_trans: "frame s t \<Longrightarrow> frame t u \<Longrightarrow> frame s u"
  by (simp add: frame_def)

lemma printed_sym: "frame s t \<Longrightarrow> frame t s"
  by (simp add: frame_def)

lemma packets_emit [simp]: "packets (emit ev w) = packets w @ (if is_packet ev then [ev] else [])"
  "packets (w\<lparr>k_clock := k\<rparr>) = packets w"
  by (simp_all add: packets_def)

lemma printed_steps [simp]:
  "frame s (out t s') = frame s s'" "frame s (complain t s') = frame s s'"
  "frame s (snd (gettimeofday s')) = frame s s'"
  "frame s (upd_ping (\<lambda>p. p\<lparr>ping_closure := f p\<rparr>) s') = frame s s'"
  "frame s (s'\<lparr>r_old_rrlen := l\<rparr>) = frame s s'" "frame s (s'\<lparr>r_old_rr := r\<rparr>) = frame s s'"
  "frame s (s'\<lparr>r_old_rrlen := l, r_old_rr := r\<rparr>) = frame s s'"
  by (simp_all add: frame_def unprinted_def out_def complain_def gettimeofday_def clock_gettime_def upd_ping_def emit_def
      packets_def Let_def)

text \<open>The facts about functions have this shape, so that a chain of calls rewrites to its start.\<close>

lemma frame_rewrite: "frame s s' \<Longrightarrow> frame u s' = frame u s"
  by (simp add: frame_def)

lemma frame_gettimeofday: "gettimeofday s' = (t, s'') \<Longrightarrow> frame u s'' = frame u s'"
  by (metis printed_steps(3) snd_conv)

section \<open>What it says of each field\<close>

lemma frame_fields:
  assumes "frame s s'"
  shows "net_os s' = net_os s" "r_options s' = r_options s" "r_data_length s' = r_data_length s"
    "r_data_buffer s' = r_data_buffer s" "r_prog s' = r_prog s" "r_useless_ident s' = r_useless_ident s"
    "r_timeout s' = r_timeout s" "r_linger s' = r_linger s" "r_preload s' = r_preload s"
proof -
  have e: "unprinted s' = unprinted s" using assms by (simp add: frame_def)
  show "net_os s' = net_os s" using arg_cong [OF e, of net_os] by (simp add: unprinted_def)
  show "r_options s' = r_options s" using arg_cong [OF e, of r_options] by (simp add: unprinted_def)
  show "r_data_length s' = r_data_length s" using arg_cong [OF e, of r_data_length] by (simp add: unprinted_def)
  show "r_data_buffer s' = r_data_buffer s" using arg_cong [OF e, of r_data_buffer] by (simp add: unprinted_def)
  show "r_prog s' = r_prog s" using arg_cong [OF e, of r_prog] by (simp add: unprinted_def)
  show "r_useless_ident s' = r_useless_ident s" using arg_cong [OF e, of r_useless_ident] by (simp add: unprinted_def)
  show "r_timeout s' = r_timeout s" using arg_cong [OF e, of r_timeout] by (simp add: unprinted_def)
  show "r_linger s' = r_linger s" using arg_cong [OF e, of r_linger] by (simp add: unprinted_def)
  show "r_preload s' = r_preload s" using arg_cong [OF e, of r_preload] by (simp add: unprinted_def)
qed

lemma frame_kernel:
  assumes "frame s s'"
  shows "env (kern s') = env (kern s)" "k_send (kern s') = k_send (kern s)" "k_recv (kern s') = k_recv (kern s)"
    "k_poll (kern s') = k_poll (kern s)" "g_stop (kern s') = g_stop (kern s)" "packets (kern s') = packets (kern s)"
proof -
  have "kern (unprinted s') = kern (unprinted s)" using assms by (simp add: frame_def)
  then have e: "(kern s')\<lparr>events := [], k_clock := 0\<rparr> = (kern s)\<lparr>events := [], k_clock := 0\<rparr>" by (simp add: unprinted_def)
  show "env (kern s') = env (kern s)" using arg_cong [OF e, of env] by simp
  show "k_send (kern s') = k_send (kern s)" using arg_cong [OF e, of k_send] by simp
  show "k_recv (kern s') = k_recv (kern s)" using arg_cong [OF e, of k_recv] by simp
  show "k_poll (kern s') = k_poll (kern s)" using arg_cong [OF e, of k_poll] by simp
  show "g_stop (kern s') = g_stop (kern s)" using arg_cong [OF e, of g_stop] by simp
  show "packets (kern s') = packets (kern s)" using assms by (simp add: frame_def)
qed

lemma frame_ping:
  assumes "frame s s'"
  obtains c where "r_ping s' = (r_ping s)\<lparr>ping_closure := c\<rparr>"
proof -
  let ?z = "\<lparr>tmin = Fin 0, tmax = Fin 0, tsum = Fin 0, tsumsq = Fin 0\<rparr>"
  have "r_ping (unprinted s') = r_ping (unprinted s)" using assms by (simp add: frame_def)
  then have "(r_ping s')\<lparr>ping_closure := ?z\<rparr> = (r_ping s)\<lparr>ping_closure := ?z\<rparr>" by (simp add: unprinted_def)
  then have "(r_ping s')\<lparr>ping_closure := ?z, ping_closure := ping_closure (r_ping s')\<rparr> =
      (r_ping s)\<lparr>ping_closure := ?z, ping_closure := ping_closure (r_ping s')\<rparr>" by simp
  then show thesis using that [of "ping_closure (r_ping s')"] by simp
qed

section \<open>The functions\<close>

lemmas frame_intro = bind_eq_Some_conv split_def Let_def

lemma frame_ipaddr2str [simp]: "frame u (snd (ipaddr2str a s)) = frame u s"
  by (simp add: ipaddr2str_def split: sum.split option.split)

lemma frame_print_icmp_code [simp]: "frame u (print_icmp_code ty code prefix s) = frame u s"
  by (simp add: print_icmp_code_def split: option.split prod.split)

lemma frame_dump_options [frames]: "dump_options cp n s = Some s' \<Longrightarrow> frame u s' = frame u s"
  by (induction n arbitrary: cp s) (auto simp: bind_eq_Some_conv, fastforce+)

lemma frame_print_ip_header [frames]: "print_ip_header ip s = Some s' \<Longrightarrow> frame u s' = frame u s"
  by (auto simp: print_ip_header_def frame_intro frames split: if_splits)

lemma frame_port_line [frames]: "port_line proto cp s = Some s' \<Longrightarrow> frame u s' = frame u s"
  by (auto simp: port_line_def frame_intro)

lemma frame_print_ip_data [frames]: "print_ip_data icmp s = Some s' \<Longrightarrow> frame u s' = frame u s"
  by (auto simp: print_ip_data_def frame_intro frames split: if_splits)

lemma frame_print_icmp [frames]: "print_icmp icmp prefix s = Some s' \<Longrightarrow> frame u s' = frame u s"
  by (auto simp: print_icmp_def frame_intro frames split: if_splits)

lemma frame_print_parameterprob [frames]: "print_parameterprob icmp s = Some s' \<Longrightarrow> frame u s' = frame u s"
  by (auto simp: print_parameterprob_def frame_intro frames)

lemma frame_run_diag [frames]: "run_diag icmp f s = Some s' \<Longrightarrow> frame u s' = frame u s"
  by (auto simp: run_diag_def frames split: option.splits diag_fun.splits)

lemma frame_diag:
  "(case find (\<lambda>(t, _, _). t = ty) icmp_diag of
      Some (_, txt, f) \<Rightarrow> run_diag icmp f (case txt of Some t \<Rightarrow> out (t @ nl) s | None \<Rightarrow> s)
    | None \<Rightarrow> Some (out msg s)) = Some s' \<Longrightarrow> frame u s' = frame u s"
  by (auto split: option.splits dest!: frame_run_diag)

lemma frame_print_icmp_header [frames]:
  assumes "print_icmp_header from icmp len s = Some s'"
  shows "frame u s' = frame u s"
proof -
  obtain name s1 where n: "ipaddr2str from s = (name, s1)" by fastforce
  have "frame u s1 = frame u s" using frame_ipaddr2str [of u "from" s] n by simp
  then show ?thesis using assms
    by (auto simp: print_icmp_header_def n Let_def bind_eq_Some_conv split: if_splits dest!: frame_diag)
qed

lemma frame_fetch_addr [frames]: "fetch_addr cp s = Some (cp', s') \<Longrightarrow> frame u s' = frame u s"
  by (auto simp: fetch_addr_def frame_intro)

lemma frame_srr_loop [frames]: "srr_loop cp hlen s j = Some (cp', hlen', s') \<Longrightarrow> frame u s' = frame u s"
proof (induction cp hlen s j rule: srr_loop.induct)
  case (1 cp hlen s j)
  then obtain cp1 s1 where f: "fetch_addr cp s = Some (cp1, s1)" by (auto simp: srr_loop.simps [of cp] split: Option.bind_splits)
  show ?case using 1(1) [OF f refl] 1(2) f frame_fetch_addr [OF f]
    by (auto simp: srr_loop.simps [of cp] split: if_splits)
qed

lemma frame_rr_loop [frames]: "rr_loop cp hlen s i j = Some (cp', hlen', s') \<Longrightarrow> frame u s' = frame u s"
proof (induction cp hlen s i j rule: rr_loop.induct)
  case (1 cp hlen s i j)
  then obtain cp1 s1 where f: "fetch_addr cp s = Some (cp1, s1)" by (auto simp: rr_loop.simps [of cp] split: Option.bind_splits)
  note step = 1(2) [unfolded rr_loop.simps [of cp hlen s i j] f Option.bind.simps prod.case]
  consider "i - 4 \<le> 0" | "\<not> i - 4 \<le> 0" "MAX_IPOPTLEN \<le> j + 4" | "\<not> i - 4 \<le> 0" "\<not> MAX_IPOPTLEN \<le> j + 4" by blast
  then show ?case
  proof cases
    case 3
    then have "rr_loop cp1 (hlen - 4) (out nl s1) (i - 4) (j + 4) = Some (cp', hlen', s')" using step by (simp only: if_False)
    from 1(1) [OF f refl 3 this] show ?thesis using frame_fetch_addr [OF f] by simp
  next
    case 1
    then have "s' = s1" using step by (simp only: if_True) simp
    then show ?thesis by (simp only: frame_fetch_addr [OF f])
  next
    case 2
    then have "s' = out (tab @ '' (truncated route)'') s1" using step by (simp only: if_True if_False) simp
    then show ?thesis by (simp only: frame_fetch_addr [OF f] printed_steps)
  qed
qed

lemma frame_ts_entry [frames]: "ts_entry k j cp s = Some s' \<Longrightarrow> frame u s' = frame u s"
  by (auto simp: ts_entry_def frame_intro split: if_splits)

lemma frame_ts_loop [frames]: "ts_loop cp hlen s k i j = Some (cp', hlen', s') \<Longrightarrow> frame u s' = frame u s"
proof (induction cp hlen s k i j rule: ts_loop.induct)
  case (1 cp hlen s k i j)
  then obtain s1 where f: "ts_entry k j cp s = Some s1" by (auto simp: ts_loop.simps [of cp] split: Option.bind_splits)
  show ?case using 1(1) [OF f] 1(2) f frame_ts_entry [OF f]
    by (auto simp: ts_loop.simps [of cp] split: if_splits)
qed

lemma frame_print_srr [frames]: "print_srr op cp hlen s = Some (cp', hlen', s') \<Longrightarrow> frame u s' = frame u s"
  by (auto simp: print_srr_def frame_intro frames split: if_splits)

lemma frame_print_rr [frames]: "print_rr cp hlen s = Some (cp', hlen', s') \<Longrightarrow> frame u s' = frame u s"
  by (auto simp: print_rr_def frame_intro frames split: if_splits dest!: frame_rr_loop)

lemma frame_print_ts [frames]: "print_ts cp hlen s = Some (cp', hlen', s') \<Longrightarrow> frame u s' = frame u s"
  by (auto simp: print_ts_def frame_intro frames split: if_splits)

lemma frame_ip_option [frames]: "ip_option cp hlen s = Some (cp', hlen', s') \<Longrightarrow> frame u s' = frame u s"
  by (auto simp: ip_option_def frame_intro frames split: if_splits)

lemma frame_ip_opt_loop [frames]: "ip_opt_loop cp hlen s = Some s' \<Longrightarrow> frame u s' = frame u s"
proof (induction cp hlen s rule: ip_opt_loop.induct)
  case (1 cp hlen s)
  show ?case
  proof (cases "int sizeof_ip < hlen")
    case True
    then obtain cp1 hlen1 s1 where f: "ip_option cp hlen s = Some (cp1, hlen1, s1)"
      using 1(2) by (auto simp: ip_opt_loop.simps [of cp] split: Option.bind_splits)
    then show ?thesis using 1(1) [OF True f refl refl] 1(2) True frame_ip_option [OF f]
      by (simp add: ip_opt_loop.simps [of cp])
  qed (use 1(2) in \<open>simp add: ip_opt_loop.simps [of cp]\<close>)
qed

lemma frame_print_ip_opt [frames]: "print_ip_opt hlen s = Some s' \<Longrightarrow> frame u s' = frame u s"
  by (simp add: print_ip_opt_def frames)

lemma frame_if [simp]: "frame u (if b then s else s') = (if b then frame u s else frame u s')"
  by simp

lemma frame_print_echo [frames]:
  assumes "print_echo dupflag from icmp len s = Some s'"
  shows "frame u s' = frame u s"
proof -
  obtain tv s1 where g: "gettimeofday s = (tv, s1)" by fastforce
  note g1 = frame_gettimeofday [OF g]
  define timed where "timed = (\<lambda>datalen. if PING_TIMING (nat ((datalen - int PING_HEADER_LEN) mod 18446744073709551616))
        then do {
          tv1 \<leftarrow> timeval_at s1 (icmp + icmp_data_off);
          let t = triptime_ms (tvsub tv tv1);
          Some (True, t, upd_ping (\<lambda>p. p\<lparr>ping_closure := add_triptime t (ping_closure p)\<rparr>) s1)
        }
        else Some (False, Fin 0, s1))"
  note fold = fun_cong [OF timed_def, symmetric]
  have timed: "frame u s2 = frame u s" if "timed datalen = Some (timing, triptime, s2)" for datalen timing triptime s2
  proof -
    have "frame u s2 = frame u s1" using that by (auto simp: timed_def frame_intro split: if_splits)
    then show ?thesis by (simp only: g1)
  qed
  obtain b0 timing triptime s2 where b0: "byte_at s1 0 = Some b0"
    and t: "timed (len - int (ip_hl b0) * 4) = Some (timing, triptime, s2)"
    using assms unfolding print_echo_def g Let_def prod.case fold [unfolded Let_def] bind_eq_Some_conv by auto
  have rest: "(if has_opt s2 OPT_QUIET then Some s2
      else if has_opt s2 OPT_FLOOD then Some (out [CHR 0x08] s2)
      else do {
        sq \<leftarrow> u16_at s2 (icmp + icmp_seq_off);
        hops \<leftarrow> byte_at s2 ip_ttl_off;
        let s3 = out (dec (len - int (ip_hl b0) * 4) @ '' bytes from '' @ inet_ntoa from @ '': icmp_seq=''
                      @ dec (uint (ntohs (ref_endian s2) sq))) s2;
        let s4 = out ('' ttl='' @ dec (uint hops)) s3;
        let s5 = (if timing then out ('' time='' @ fmt_f3 triptime @ '' ms'') s4 else s4);
        let s6 = (if dupflag then out '' (DUP!)'' s5 else s5);
        s7 \<leftarrow> print_ip_opt (int (ip_hl b0) * 4) s6;
        Some (out nl s7)
      }) = Some s'"
    using assms t unfolding print_echo_def g Let_def prod.case fold [unfolded Let_def] b0 Option.bind.simps by simp
  have "frame u s' = frame u s2"
    using rest by (simp add: Let_def bind_eq_Some_conv split: if_split_asm) (auto dest!: frame_print_ip_opt)
  then show ?thesis by (simp only: timed [OF t])
qed

lemma frame_reply_line [frames]: "reply_line dupflag from icmp len s = Some s' \<Longrightarrow> frame u s' = frame u s"
  by (auto simp: reply_line_def frame_intro split: if_splits)

lemma frame_print_timestamp [frames]: "print_timestamp dupflag from icmp len s = Some s' \<Longrightarrow> frame u s' = frame u s"
  by (auto simp: print_timestamp_def frame_intro frames split: if_splits)

lemma frame_print_address [frames]: "print_address dupflag from icmp len s = Some s' \<Longrightarrow> frame u s' = frame u s"
  by (auto simp: print_address_def frame_intro frames split: if_splits)

lemma frame_call_handler [frames]: "call_handler code from icmp len s = Some s' \<Longrightarrow> frame u s' = frame u s"
  by (auto simp: call_handler_def echo_handler_def recv_timestamp_def recv_address_def frames
      split: option.splits event_handler.splits if_splits)

end
