(* ===== verification/Ref_Session.thy ===== *)
theory Ref_Session
  imports Ref_Frame Ref_Send
begin

text \<open>
  The runs of the reference. \<open>kept\<close> is what receiving and waiting preserve; the locale \<open>session\<close> extends
  the interface of the sender by that of the receiver and proves, once for both programs, what a
  run has put on the wire when it ends. The instance for \<open>ping\<close> is here, that for \<open>ping6\<close> in
  \<open>Ref6_Session\<close>.
\<close>

section \<open>What receiving and waiting preserve\<close>

definition kept :: "'n ref_state \<Rightarrow> 'n ref_state \<Rightarrow> bool" where
  "kept s s' \<longleftrightarrow> static s' = static s \<and>
     map_option length (ping_buffer (r_ping s')) = map_option length (ping_buffer (r_ping s)) \<and>
     map_option length (ping_cktab (r_ping s')) = map_option length (ping_cktab (r_ping s)) \<and>
     ping_num_xmit (r_ping s') = ping_num_xmit (r_ping s) \<and>
     packets (kern s') = packets (kern s) \<and> k_send (kern s') = k_send (kern s)"

lemma kept_refl [simp]: "kept s s"
  by (simp add: kept_def)

lemma kept_trans [trans]: "kept s t \<Longrightarrow> kept t u \<Longrightarrow> kept s u"
  by (simp add: kept_def)

lemma static_unprinted [simp]: "static (unprinted s) = static s"
  by (simp add: static_def unprinted_def)

lemma frame_kept:
  assumes "frame s s'"
  shows "kept s s'"
proof -
  have e: "unprinted s' = unprinted s" using assms by (simp add: frame_def)
  have st: "static s' = static s" using arg_cong [OF e, of static] by simp
  obtain c where "r_ping s' = (r_ping s)\<lparr>ping_closure := c\<rparr>" by (rule frame_ping [OF assms])
  then show ?thesis using frame_kernel [OF assms] st by (simp add: kept_def)
qed

lemma kept_can_send:
  assumes "kept s s'"
  shows "can_send u s' = can_send u s" "filler_ok s' = filler_ok s" "filler_of s' = filler_of s"
    "ref_endian s' = ref_endian s"
proof -
  have st: "static s' = static s" using assms by (simp add: kept_def)
  note f = static_fields [OF st]
  show "can_send u s' = can_send u s"
    using assms unfolding can_send_def kept_def Let_def f
    by (cases "ping_buffer (r_ping s)"; cases "ping_buffer (r_ping s')";
        cases "ping_cktab (r_ping s)"; cases "ping_cktab (r_ping s')") simp_all
  show "filler_ok s' = filler_ok s" "filler_of s' = filler_of s" "ref_endian s' = ref_endian s"
    by (simp_all add: filler_ok_def filler_of_def ref_endian_def f)
qed

lemma kept_steps [simp]:
  "kept s (out t s') = kept s s'" "kept s (complain t s') = kept s s'" "kept s (snd (gettimeofday s')) = kept s s'"
  by (simp_all add: kept_def packets_def out_def complain_def emit_def gettimeofday_def clock_gettime_def static_def boot_def Let_def)

lemma kept_perror [simp]: "kept s (s'\<lparr>kern := emit (Perror m err) (kern s')\<rparr>) = kept s s'"
  by (simp add: kept_def packets_def emit_def static_def boot_def)

lemma kept_select [simp]: "kept s (snd (select_call wait s')) = kept s s'"
  by (simp add: kept_def select_call_def static_def boot_def packets_def Let_def)

lemma kept_should_stop [simp]: "kept s (snd (ref_should_stop s')) = kept s s'"
  by (simp add: kept_def ref_should_stop_def static_def boot_def packets_def split_def Let_def)

lemma kept_timeout [simp]: "kept s (snd (ping_timeout_p t limit s')) = kept s s'"
  by (simp add: ping_timeout_p_def split_def Let_def)

lemma kept_take_datagram: "take_datagram u s = Some (r, s') \<Longrightarrow> kept s s'"
  by (auto simp: take_datagram_def bind_eq_Some_conv write_range_def upd_ping_def kept_def static_def boot_def packets_def
      Let_def split: recv_result.splits if_splits)

text \<open>Replacing the buffer, the table, the counters of replies.\<close>

lemma kept_upd:
  assumes "kept u s" "length b = length b'" "ping_buffer (r_ping s) = Some b'"
  shows "kept u (upd_ping (\<lambda>p. p\<lparr>ping_buffer := Some b\<rparr>) s)"
  using assms by (simp add: kept_def upd_ping_def static_def boot_def)

lemma length_poke16: "poke16 e buf i x = Some b \<Longrightarrow> length b = length buf"
  by (auto simp: poke16_def split: if_splits)

lemma length_poke: "poke buf i x = Some b \<Longrightarrow> length b = length buf"
  by (auto simp: poke_def split: if_splits)

lemma length_decode: "icmp_generic_decode e buf n = Some (rc, icmp, buf1) \<Longrightarrow> length buf1 = length buf"
  by (auto simp: icmp_generic_decode_def bind_eq_Some_conv Let_def split: if_splits dest!: length_poke16)

lemma count_reply_kept:
  assumes "count_reply sq (r_ping s) = Some (dup, p)"
  shows "kept s (s\<lparr>r_ping := p\<rparr>)"
proof -
  have "\<exists>t m k. p = (r_ping s)\<lparr>ping_num_recv := m, ping_num_rept := k, ping_cktab := t\<rparr> \<and>
      map_option length t = map_option length (ping_cktab (r_ping s))"
    using assms
    by (cases "r_ping s") (auto simp: count_reply_def ping_set_def bind_eq_Some_conv Let_def length_poke split: if_splits)
  then show ?thesis by (auto simp: kept_def static_def boot_def)
qed

lemma kept_rewrite: "kept s s' \<Longrightarrow> kept u s' = kept u s"
  by (simp add: kept_def)

lemma frames_kept: "(\<And>u. frame u s' = frame u s) \<Longrightarrow> kept r s' = kept r s"
  by (metis frame_kept printed_refl kept_rewrite)

lemma ping_recv_kept:
  assumes "ping_recv s = Some (rc, s')"
  shows "kept s s'"
proof -
  obtain r s1 where t: "take_datagram False s = Some (r, s1)" using assms by (auto simp: ping_recv_def bind_eq_Some_conv)
  have k1: "kept s s1" by (rule kept_take_datagram [OF t])
  show ?thesis
  proof (cases r)
    case (Inl err)
    then show ?thesis using assms t k1 by (simp add: ping_recv_def)
  next
    case (Inr n)
    then obtain buf rc' icmp buf1 where d: "ping_buffer (r_ping s1) = Some buf"
        "icmp_generic_decode (ref_endian s1) buf n = Some (rc', icmp, buf1)"
      using assms t by (auto simp: ping_recv_def bind_eq_Some_conv)
    define s2 where "s2 = upd_ping (\<lambda>p. p\<lparr>ping_buffer := Some buf1\<rparr>) s1"
    have k2: "kept s s2" unfolding s2_def by (rule kept_upd [OF k1 length_decode [OF d(2)] d(1)])
    have handled: "call_handler c a i l u = Some u' \<Longrightarrow> kept s u' = kept s u" for c a i l u u'
      by (rule frames_kept) (rule frame_call_handler)
    have counted: "count_reply sq (r_ping t) = Some (dup, p) \<Longrightarrow> kept s (t\<lparr>r_ping := p\<rparr>) = kept s t" for sq dup p t
      by (rule kept_rewrite) (rule count_reply_kept)
    have tail: "(do { s5 \<leftarrow> call_handler c a i l u; Some (0, s5) }) = Some (rc, s') \<Longrightarrow> kept s u \<Longrightarrow> kept s s'" for c a i l u
      using handled [of c a i l u s'] by (auto simp: bind_eq_Some_conv)
    have reply: "(do { sq \<leftarrow> u16_at u o'; (dup, p4) \<leftarrow> count_reply (g sq) (r_ping u);
        s5 \<leftarrow> call_handler (c dup) a i l (u\<lparr>r_ping := p4\<rparr>); Some (0, s5) }) = Some (rc, s') \<Longrightarrow> kept s u \<Longrightarrow> kept s s'"
      for o' g c a i l u
    proof -
      assume r: "(do { sq \<leftarrow> u16_at u o'; (dup, p4) \<leftarrow> count_reply (g sq) (r_ping u);
        s5 \<leftarrow> call_handler (c dup) a i l (u\<lparr>r_ping := p4\<rparr>); Some (0, s5) }) = Some (rc, s')" and k: "kept s u"
      then obtain sq dup p4 where x: "count_reply (g sq) (r_ping u) = Some (dup, p4)"
        "call_handler (c dup) a i l (u\<lparr>r_ping := p4\<rparr>) = Some s'"
        by (auto simp: bind_eq_Some_conv simp del: split_paired_All split_paired_Ex)
      show "kept s s'" using handled [OF x(2)] counted [OF x(1)] k by simp
    qed
    obtain ty where ty: "rc' < 0 \<or> byte_at s2 (icmp + icmp_type_off) = Some ty"
      using assms unfolding ping_recv_def t Option.bind.simps prod.case Inr sum.case d Let_def s2_def [symmetric]
      by (cases "rc' < 0") (auto simp: bind_eq_Some_conv)
    note step = assms [unfolded ping_recv_def t Option.bind.simps prod.case Inr sum.case d Let_def, folded s2_def]
    consider "rc' < 0" | "\<not> rc' < 0" "uint ty = ICMP_ECHOREPLY \<or> uint ty = ICMP_TIMESTAMPREPLY \<or> uint ty = ICMP_ADDRESSREPLY"
      | "\<not> rc' < 0" "\<not> (uint ty = ICMP_ECHOREPLY \<or> uint ty = ICMP_TIMESTAMPREPLY \<or> uint ty = ICMP_ADDRESSREPLY)" by blast
    then show ?thesis
    proof cases
      case 1
      then show ?thesis using step k2 by auto
    next
      case 2
      then obtain ident where "u16_at s2 (icmp + icmp_id_off) = Some ident" using step ty by (auto simp: bind_eq_Some_conv)
      then show ?thesis using step ty 2 k2
        by (simp add: split_def split: if_split_asm) (erule reply [unfolded split_def], simp)+
    next
      case 3
      then show ?thesis using step ty k2
        by (cases "my_echo_reply icmp s2") (auto split: if_split_asm dest: tail)
    qed
  qed
qed

section \<open>What is on the wire\<close>

text \<open>
  The packets after those in \<open>base\<close> are the requests numbered from 0 to the transmit counter, each
  with a reading of the clock and the data of the user as payload.
\<close>

definition is_reading :: "os \<Rightarrow> timeval \<Rightarrow> bool" where
  "is_reading e t \<longleftrightarrow> (\<exists>k. t = (tv_sec (os_clock e k), tv_nsec (os_clock e k) div 1000))"

type_synonym encoder = "endian \<Rightarrow> int \<Rightarrow> nat \<Rightarrow> byte list \<Rightarrow> byte list"

definition numbered ::
  "(byte list \<Rightarrow> 'n \<Rightarrow> event) \<Rightarrow> encoder \<Rightarrow> event list \<Rightarrow> 'n ref_state \<Rightarrow> bool" where
  "numbered packet enc base s \<longleftrightarrow>
     (\<exists>tv. (\<forall>i. is_reading (env (kern s)) (tv i)) \<and>
       packets (kern s) = base @ map (\<lambda>i. packet
         (enc (ref_endian s) (ping_ident (r_ping s)) i
            (ref_payload (ref_endian s) (tv i) (r_data_length s) (filler_of s)))
         (ping_dest (r_ping s))) [0..<ping_num_xmit (r_ping s)])"

lemma numbered_kept:
  assumes "kept s s'"
  shows "numbered packet enc base s' = numbered packet enc base s"
proof -
  have st: "static s' = static s" using assms by (simp add: kept_def)
  have "packets (kern s') = packets (kern s)" "ping_num_xmit (r_ping s') = ping_num_xmit (r_ping s)"
    using assms by (simp_all add: kept_def)
  then show ?thesis
    by (simp add: numbered_def kept_can_send [OF assms] static_fields [OF st])
qed

lemma numbered_start:
  assumes "ping_num_xmit (r_ping s) = 0"
  shows "numbered packet enc (packets (kern s)) s"
  unfolding numbered_def by (rule exI [of _ "\<lambda>_. (tv_sec (os_clock (env (kern s)) 0), tv_nsec (os_clock (env (kern s)) 0) div 1000)"])
    (auto simp: is_reading_def assms)

lemma is_reading_now: "is_reading (env (kern s)) (fst (gettimeofday s))"
  by (auto simp: is_reading_def gettimeofday_def clock_gettime_def Let_def)

lemma packets_stdout [simp]: "filter is_packet (map Stdout ts) = []"
  by (induction ts) simp_all

text \<open>The number of probes \<open>-c\<close> allows: those of \<open>-l\<close> and the first one are sent whatever it says.\<close>

definition within_count :: "nat \<Rightarrow> 'n ref_state \<Rightarrow> bool" where
  "within_count n s \<longleftrightarrow> ping_count (r_ping s) \<noteq> 0 \<longrightarrow> ping_num_xmit (r_ping s) \<le> max (ping_count (r_ping s)) n"

section \<open>The session of either program\<close>

locale session = transmitter +
  fixes enc :: encoder
  assumes request_enc: "request s = enc (ref_endian s) (ping_ident (r_ping s)) (ping_num_xmit (r_ping s))"
    and recv_kept: "op_recv ops s = Some (rc, s') \<Longrightarrow> kept s s'"
    and only_packets: "is_packet (packet msg addr)"
begin

text \<open>The invariant of a run.\<close>

definition ready :: "event list \<Rightarrow> 'a ref_state \<Rightarrow> bool" where
  "ready base s \<longleftrightarrow> can_send (op_ipv6 ops) s \<and> filler_ok s \<and> numbered packet enc base s"

lemma ready_kept: "kept s s' \<Longrightarrow> ready base s' = ready base s"
  by (simp add: ready_def kept_can_send numbered_kept)

lemma send_ready:
  assumes "ready base s"
  shows "\<exists>r s'. send_echo ops s = Some (r, s') \<and> ready base s' \<and> static s' = static s \<and>
    ping_num_recv (r_ping s') = ping_num_recv (r_ping s) \<and> g_stop (kern s') = g_stop (kern s) \<and>
    (r = Inr 0 \<and> ping_num_xmit (r_ping s') = ping_num_xmit (r_ping s) + 1 \<or>
     r = Inl 1 \<and> ping_num_xmit (r_ping s') = ping_num_xmit (r_ping s) \<and>
       (\<exists>k. os_send (env (kern s)) k \<noteq> None))"
proof -
  let ?k = "k_send (kern s)" and ?now = "fst (gettimeofday s)" and ?n = "ping_num_xmit (r_ping s)"
  let ?pkt = "\<lambda>t i. packet (enc (ref_endian s) (ping_ident (r_ping s)) i
      (ref_payload (ref_endian s) t (r_data_length s) (filler_of s))) (ping_dest (r_ping s))"
  have ok: "can_send (op_ipv6 ops) s" "filler_ok s" and num: "numbered packet enc base s" using assms by (simp_all add: ready_def)
  obtain s' where s': "send_echo ops s = Some (if os_send (env (kern s)) ?k = None then Inr 0 else Inl 1, s')"
    "can_send (op_ipv6 ops) s'" "filler_ok s'" "static s' = static s" "ping_num_recv (r_ping s') = ping_num_recv (r_ping s)"
    "g_stop (kern s') = g_stop (kern s)"
    "case os_send (env (kern s)) ?k of
       None \<Rightarrow> (\<exists>warning. events (kern s') = events (kern s) @ ?pkt ?now ?n # map Stdout warning) \<and>
               ping_num_xmit (r_ping s') = ?n + 1
     | Some err \<Rightarrow> events (kern s') = events (kern s) @ [Perror (r_prog s @ '': sending packet'') err] \<and>
               ping_num_xmit (r_ping s') = ?n"
    using echo_sent_running [OF ok] unfolding request_enc by (cases "os_send (env (kern s)) ?k") (simp_all, blast+)
  note st = static_fields [OF s'(4)]
  have same: "ref_endian s' = ref_endian s" "filler_of s' = filler_of s"
    by (simp_all add: ref_endian_def filler_of_def st)
  obtain tv where tv: "\<forall>i. is_reading (env (kern s)) (tv i)" "packets (kern s) = base @ map (\<lambda>i. ?pkt (tv i) i) [0..<?n]"
    using num by (auto simp: numbered_def)
  show ?thesis
  proof (cases "os_send (env (kern s)) ?k")
    case None
    then obtain warning where ev: "events (kern s') = events (kern s) @ ?pkt ?now ?n # map Stdout warning"
      and n: "ping_num_xmit (r_ping s') = ?n + 1" using s'(7) by auto
    define tv' where "tv' = tv(?n := ?now)"
    have "packets (kern s') = packets (kern s) @ [?pkt ?now ?n]"
      using ev only_packets by (simp add: packets_def)
    then have "packets (kern s') = base @ map (\<lambda>i. ?pkt (tv' i) i) [0..<Suc ?n]"
      using tv(2) by (simp add: tv'_def)
    moreover have "\<forall>i. is_reading (env (kern s)) (tv' i)" using tv(1) is_reading_now by (simp add: tv'_def)
    ultimately have "numbered packet enc base s'"
      unfolding numbered_def n same st by (intro exI [of _ tv']) simp
    then show ?thesis using s' None n by (auto simp: ready_def)
  next
    case (Some err)
    then have ev: "events (kern s') = events (kern s) @ [Perror (r_prog s @ '': sending packet'') err]"
      and n: "ping_num_xmit (r_ping s') = ?n" using s'(7) by auto
    have "packets (kern s') = packets (kern s)" using ev by (simp add: packets_def)
    then have "numbered packet enc base s'"
      using tv unfolding numbered_def n same st by (intro exI [of _ tv]) simp
    then show ?thesis using s' Some n by (auto simp: ready_def)
  qed
qed

text \<open>A step of a run: the configuration stays, the counter only grows and stays within \<open>-c\<close>.\<close>

definition step :: "event list \<Rightarrow> 'a ref_state \<Rightarrow> 'a ref_state \<Rightarrow> bool" where
  "step base s s' \<longleftrightarrow> ready base s' \<and> static s' = static s \<and> ping_num_xmit (r_ping s) \<le> ping_num_xmit (r_ping s') \<and>
     (\<forall>n. within_count n s \<longrightarrow> within_count n s')"

lemma step_trans [trans]: "step base s t \<Longrightarrow> step base t u \<Longrightarrow> step base s u"
  by (auto simp: step_def)

lemma step_kept:
  assumes "kept s s'" "ready base s"
  shows "step base s s'"
proof -
  have "static s' = static s" "ping_num_xmit (r_ping s') = ping_num_xmit (r_ping s)" using assms(1) by (simp_all add: kept_def)
  then show ?thesis using assms(2) ready_kept [OF assms(1)] static_fields [of s' s] by (simp add: step_def within_count_def)
qed

lemma step_recv: "op_recv ops s = Some (rc, s') \<Longrightarrow> ready base s \<Longrightarrow> step base s s'"
  by (rule step_kept [OF recv_kept])

lemma step_send:
  assumes "ready base s" "send_echo ops s = Some (r, s')"
    and "ping_count (r_ping s) = 0 \<or> ping_num_xmit (r_ping s) < ping_count (r_ping s)"
  shows "step base s s'"
proof -
  have s': "ready base s'" "static s' = static s" "ping_num_xmit (r_ping s') \<le> ping_num_xmit (r_ping s) + 1"
    "ping_num_xmit (r_ping s) \<le> ping_num_xmit (r_ping s')"
    using send_ready [OF assms(1)] assms(2) by auto
  then show ?thesis using assms(3) static_fields [OF s'(2)] by (auto simp: step_def within_count_def)
qed

lemma step_ready: "step base s s' \<Longrightarrow> ready base s'"
  by (simp add: step_def)

end

section \<open>The loop\<close>

context session begin

lemma step_timer:
  assumes "timer_branch ops v s = Some (r, s')" "ready base s"
  shows "step base s s'"
proof (cases "ping_count (r_ping s) = 0 \<or> ping_num_xmit (r_ping s) < ping_count (r_ping s)")
  case True
  obtain r1 s1 where s1: "send_echo ops s = Some (r1, s1)" "ready base s1" "r1 = Inr 0 \<or> r1 = Inl 1"
    using send_ready [OF assms(2)] by blast
  have st: "step base s s1" by (rule step_send [OF assms(2) s1(1) True])
  have "kept s1 s'"
  proof (cases r1)
    case (Inl status)
    then show ?thesis using assms(1) True s1(1) by (auto simp: timer_branch_def unless_ended_def)
  next
    case (Inr rc)
    define s2 where "s2 = (if \<not> has_opt s1 OPT_QUIET \<and> has_opt s1 OPT_FLOOD then out ''.'' s1 else s1)"
    have "kept s1 s2" by (simp add: s2_def)
    then have k: "kept s1 s3" if "ping_timeout_p t limit s2 = (over, s3)" for t limit over s3
      using kept_timeout [of s1 t limit s2] that by simp
    then show ?thesis using assms(1) True s1(1) Inr kept_steps(3) [of s1]
      by (auto simp: timer_branch_def unless_ended_def s2_def [symmetric] Let_def split_def split: if_splits)
  qed
  then show ?thesis using step_trans [OF st step_kept] s1(2) by blast
next
  case False
  then have "kept s s'" using assms(1) kept_steps(3) [of s s]
    by (auto simp: timer_branch_def Let_def split_def split: if_splits)
  then show ?thesis by (rule step_kept [OF _ assms(2)])
qed

lemma step_readable:
  assumes "readable_branch ops v s = Some (r, s')" "ready base s"
  shows "step base s s'"
proof -
  obtain rc s1 where s1: "op_recv ops s = Some (rc, s1)" using assms(1) by (auto simp: readable_branch_def bind_eq_Some_conv)
  have "kept s1 s'" using assms(1) unfolding readable_branch_def s1
    by (auto simp: Let_def split_def split: if_splits)
  then have "kept s s'" using recv_kept [OF s1] kept_trans by blast
  then show ?thesis by (rule step_kept [OF _ assms(2)])
qed

lemma step_pass:
  assumes "ref_pass ops v s = Some (r, s')" "ready base s"
  shows "step base s s'"
proof -
  define s2 where "s2 = snd (select_call (resp_time (l_last v) (l_intvl v) (fst (gettimeofday s))) (snd (gettimeofday s)))"
  define n where "n = fst (select_call (resp_time (l_last v) (l_intvl v) (fst (gettimeofday s))) (snd (gettimeofday s)))"
  have k: "kept s s2" by (simp add: s2_def)
  have r2: "ready base s2" using ready_kept [OF k] assms(2) by simp
  have e: "(case n of
           PollError err \<Rightarrow> Some (if err \<noteq> EINTR then die_errno err ''select failed'' s2 else (Inr (Continue v), s2))
         | PollReadable \<Rightarrow> readable_branch ops v s2
         | PollTimeout \<Rightarrow> timer_branch ops v s2) = Some (r, s')"
    using assms(1) unfolding ref_pass_def Let_def split_def n_def s2_def .
  have "step base s2 s'"
  proof (cases n)
    case (PollError err)
    then have "kept s2 s'" using e by (auto simp: die_errno_def split: if_splits)
    then show ?thesis by (rule step_kept [OF _ r2])
  qed (use e step_timer [OF _ r2] step_readable [OF _ r2] in auto)
  then show ?thesis using step_trans [OF step_kept [OF k assms(2)]] by blast
qed

lemma step_loop:
  "ref_loop ops fuel v s = Some (r, s') \<Longrightarrow> ready base s \<Longrightarrow> step base s s'"
proof (induction fuel arbitrary: v s)
  case (Suc fuel)
  let ?s1 = "snd (ref_should_stop s)"
  have st1: "step base s ?s1" by (rule step_kept [OF _ Suc.prems(2)]) simp
  note r1 = step_ready [OF st1]
  show ?case
  proof (cases "fst (ref_should_stop s)")
    case True
    then show ?thesis using Suc.prems(1) st1 by (simp add: split_def Let_def)
  next
    case False
    then obtain r2 s2 where p: "ref_pass ops v ?s1 = Some (r2, s2)"
      and rest: "unless_ended (r2, s2) (\<lambda>e s2. case e of Break \<Rightarrow> Some (Inr (), s2) | Continue v1 \<Rightarrow> ref_loop ops fuel v1 s2) = Some (r, s')"
      using Suc.prems(1) by (auto simp: split_def Let_def bind_eq_Some_conv)
    have st2: "step base ?s1 s2" by (rule step_pass [OF p r1])
    note st = step_trans [OF st1 st2]
    show ?thesis
      using rest st step_trans [OF st Suc.IH [OF _ step_ready [OF st2]]]
      by (cases r2) (auto simp: unless_ended_def split: loop_end.splits)
  qed
qed simp

text \<open>The only early end of a run is \<open>error\<close> with status 1.\<close>

lemma timer_status:
  "timer_branch ops v s = Some (r, s') \<Longrightarrow> ready base s \<Longrightarrow> r = Inl 1 \<or> (\<exists>e. r = Inr e)"
  using send_ready [of base s] by (auto simp: timer_branch_def unless_ended_def split_def Let_def split: if_splits sum.splits)

lemma readable_status: "readable_branch ops v s = Some (r, s') \<Longrightarrow> \<exists>e. r = Inr e"
  by (auto simp: readable_branch_def bind_eq_Some_conv split_def Let_def)

lemma pass_status:
  assumes "ref_pass ops v s = Some (r, s')" "ready base s"
  shows "r = Inl 1 \<or> (\<exists>e. r = Inr e)"
proof -
  define sel where "sel = select_call (resp_time (l_last v) (l_intvl v) (fst (gettimeofday s))) (snd (gettimeofday s))"
  have rdy: "ready base (snd sel)" using ready_kept [of s "snd sel"] assms(2) by (simp add: sel_def)
  have e: "(case fst sel of
           PollError err \<Rightarrow> Some (if err \<noteq> EINTR then die_errno err ''select failed'' (snd sel) else (Inr (Continue v), snd sel))
         | PollReadable \<Rightarrow> readable_branch ops v (snd sel)
         | PollTimeout \<Rightarrow> timer_branch ops v (snd sel)) = Some (r, s')"
    using assms(1) unfolding ref_pass_def Let_def split_def sel_def .
  show ?thesis
  proof (cases "fst sel")
    case (PollError err)
    then show ?thesis using e by (auto simp: die_errno_def split: if_splits)
  next
    case PollTimeout
    then show ?thesis using e timer_status [OF _ rdy] by simp
  next
    case PollReadable
    then show ?thesis using e readable_status by auto
  qed
qed

lemma loop_status:
  "ref_loop ops fuel v s = Some (r, s') \<Longrightarrow> ready base s \<Longrightarrow> r = Inl 1 \<or> r = Inr ()"
proof (induction fuel arbitrary: v s)
  case (Suc fuel)
  let ?s1 = "snd (ref_should_stop s)"
  have r1: "ready base ?s1" using ready_kept [of s ?s1] Suc.prems(2) by simp
  show ?case
  proof (cases "fst (ref_should_stop s)")
    case False
    then obtain r2 s2 where p: "ref_pass ops v ?s1 = Some (r2, s2)"
      and rest: "unless_ended (r2, s2) (\<lambda>e s2. case e of Break \<Rightarrow> Some (Inr (), s2) | Continue v1 \<Rightarrow> ref_loop ops fuel v1 s2) = Some (r, s')"
      using Suc.prems(1) by (auto simp: split_def Let_def bind_eq_Some_conv)
    show ?thesis
      using rest pass_status [OF p r1] Suc.IH [OF _ step_ready [OF step_pass [OF p r1]]]
      by (auto simp: unless_ended_def split: loop_end.splits)
  qed (use Suc.prems(1) in \<open>simp add: split_def Let_def\<close>)
qed simp

lemma preload_ready:
  "ref_preload ops n s = Some (r, s') \<Longrightarrow> ready base s \<Longrightarrow>
     ready base s' \<and> static s' = static s \<and> ping_num_xmit (r_ping s') \<le> ping_num_xmit (r_ping s) + n \<and>
     (\<forall>u. r = Inr u \<longrightarrow> ping_num_xmit (r_ping s') = ping_num_xmit (r_ping s) + n) \<and> (\<forall>st. r = Inl st \<longrightarrow> st = 1)"
proof (induction n arbitrary: s)
  case (Suc n)
  obtain r1 s1 where s1: "send_echo ops s = Some (r1, s1)" "ready base s1" "static s1 = static s"
    "r1 = Inr 0 \<and> ping_num_xmit (r_ping s1) = ping_num_xmit (r_ping s) + 1 \<or>
     r1 = Inl 1 \<and> ping_num_xmit (r_ping s1) = ping_num_xmit (r_ping s)"
    using send_ready [OF Suc.prems(2)] by blast
  from s1(4) show ?case
  proof
    assume "r1 = Inr 0 \<and> ping_num_xmit (r_ping s1) = ping_num_xmit (r_ping s) + 1"
    then show ?thesis using Suc.prems(1) s1 Suc.IH [OF _ s1(2)] by (auto simp: unless_ended_def)
  next
    assume "r1 = Inl 1 \<and> ping_num_xmit (r_ping s1) = ping_num_xmit (r_ping s)"
    then show ?thesis using Suc.prems(1) s1 by (auto simp: unless_ended_def)
  qed
qed auto

lemma numbered_unset:
  "numbered packet enc base (ping_unset_data s) = numbered packet enc base s" "static (ping_unset_data s) = static s"
  "ping_num_xmit (r_ping (ping_unset_data s)) = ping_num_xmit (r_ping s)" "within_count n (ping_unset_data s) = within_count n s"
  by (simp_all add: numbered_def ping_unset_data_def ping_freebuf_def ref_endian_def filler_of_def static_def within_count_def)

lemma run_numbered:
  assumes run: "ref_run ops fuel finish s = Some (r, s')" and ok: "ready base s"
    and finish: "\<And>t rc t'. finish t = Some (rc, t') \<Longrightarrow> kept t t'"
  defines "n \<equiv> ping_num_xmit (r_ping s) + r_preload s + 1"
  shows "numbered packet enc base s' \<and> static s' = static s \<and> within_count n s' \<and> (\<forall>st. r = Inl st \<longrightarrow> st = 1) \<and>
    (\<forall>rc. r = Inr rc \<longrightarrow> n \<le> ping_num_xmit (r_ping s') \<and>
      ping_buffer (r_ping s') = None \<and> ping_cktab (r_ping s') = None)"
proof -
  obtain r0 s1 where p0: "ref_preload ops (r_preload s) s = Some (r0, s1)" using run by (auto simp: ref_run_def bind_eq_Some_conv)
  note p = preload_ready [OF p0 ok]
  show ?thesis
  proof (cases r0)
    case (Inl status)
    then have "r = Inl status" "s' = s1" using run p0 by (auto simp: ref_run_def unless_ended_def)
    then show ?thesis using p Inl by (auto simp: ready_def within_count_def n_def)
  next
    case (Inr u)
    let ?s2 = "snd (gettimeofday s1)"
    have r2: "ready base ?s2" using ready_kept [of s1 ?s2] p by simp
    obtain r1 s3 where s3: "send_echo ops ?s2 = Some (r1, s3)" "ready base s3" "static s3 = static s1"
      "r1 = Inr 0 \<and> ping_num_xmit (r_ping s3) = n \<or> r1 = Inl 1 \<and> ping_num_xmit (r_ping s3) < n"
      using send_ready [OF r2] p Inr by (auto simp: gettimeofday_buffers n_def)
    have w3: "within_count n s3" using s3(4) by (auto simp: within_count_def)
    from s3(4) show ?thesis
    proof
      assume "r1 = Inl 1 \<and> ping_num_xmit (r_ping s3) < n"
      then have "r = Inl 1" "s' = s3" using run p0 Inr s3(1)
        by (auto simp: ref_run_def unless_ended_def split_def Let_def)
      then show ?thesis using s3 p w3 by (simp add: ready_def)
    next
      assume r1: "r1 = Inr 0 \<and> ping_num_xmit (r_ping s3) = n"
      then obtain r2 s4 where s4: "ref_loop ops fuel (start_locals (fst (gettimeofday s1)) ?s2) s3 = Some (r2, s4)"
        and rest: "unless_ended (r2, s4) (\<lambda>_ s4. do { (rc, s5) \<leftarrow> finish (ping_unset_data s4); Some (Inr rc, s5) }) = Some (r, s')"
        using run p0 Inr s3(1) by (auto simp: ref_run_def unless_ended_def [of "(Inr _, _)"] split_def Let_def bind_eq_Some_conv)
      have st: "step base s3 s4" by (rule step_loop [OF s4 s3(2)])
      have four: "numbered packet enc base s4" "static s4 = static s" "within_count n s4" "n \<le> ping_num_xmit (r_ping s4)"
        using st s3(3) p w3 r1 by (simp_all add: step_def ready_def)
      show ?thesis
      proof (cases r2)
        case (Inl status)
        then show ?thesis using rest four loop_status [OF s4 s3(2)] by (auto simp: unless_ended_def)
      next
        case (Inr u)
        then obtain rc where f: "finish (ping_unset_data s4) = Some (rc, s')" using rest by (auto simp: unless_ended_def bind_eq_Some_conv)
        have k: "kept (ping_unset_data s4) s'" by (rule finish [OF f])
        have "within_count n s'" "ping_num_xmit (r_ping s') = ping_num_xmit (r_ping s4)" "static s' = static s"
          using k four static_fields [of s' "ping_unset_data s4"] numbered_unset by (simp_all add: kept_def within_count_def)
        moreover have "ping_buffer (r_ping s') = None \<and> ping_cktab (r_ping s') = None"
          using k by (simp add: kept_def ping_unset_data_def ping_freebuf_def)
        moreover have "\<exists>rc. r = Inr rc" using rest Inr by (auto simp: unless_ended_def bind_eq_Some_conv)
        ultimately show ?thesis using four numbered_kept [OF k] numbered_unset by auto
      qed
    qed
  qed
qed

text \<open>
  With \<open>-c\<close> a run ends although nobody answers: every pass sends a probe, or starts the last wait, or
  ends the loop.
\<close>

definition calm :: "'a ref_state \<Rightarrow> bool" where
  "calm s \<longleftrightarrow> (\<forall>k. os_send (env (kern s)) k = None) \<and> (\<forall>k. \<not> os_sigint (env (kern s)) k) \<and>
     \<not> g_stop (kern s) \<and> r_timeout s = - 1"

lemma calm_static: "static t = static s \<Longrightarrow> g_stop (kern t) = g_stop (kern s) \<Longrightarrow> calm t = calm s"
  using static_fields [of t s] by (simp add: calm_def)

lemma calm_waits:
  "g_stop (kern (snd (select_call wait s))) = g_stop (kern s)" "g_stop (kern (out x s)) = g_stop (kern s)"
  "g_stop (kern (snd (gettimeofday s))) = g_stop (kern s)"
  "g_stop (kern (snd (ping_timeout_p t limit s))) = g_stop (kern s)"
  by (simp_all add: select_call_def out_def emit_def gettimeofday_def clock_gettime_def ping_timeout_p_def
      split_def Let_def)

lemma calm_tests:
  assumes "calm s"
  shows "\<not> fst (ref_should_stop s)" "g_stop (kern (snd (ref_should_stop s))) = g_stop (kern s)"
    "\<not> fst (ping_timeout_p t (r_timeout s) u)"
  using assms by (simp_all add: calm_def ref_should_stop_def ping_should_stop_def on_sigint_def
      ping_timeout_p_def split_def Let_def)

text \<open>How such a run may end: in a calm one no request is left out.\<close>

definition all_sent :: "'a ref_state \<Rightarrow> int + unit \<Rightarrow> 'a ref_state \<Rightarrow> bool" where
  "all_sent s r s' \<longleftrightarrow> ping_num_recv (r_ping s') = ping_num_recv (r_ping s) \<and>
     (calm s \<longrightarrow> r = Inr () \<and>
        ping_num_xmit (r_ping s') = max (ping_count (r_ping s)) (ping_num_xmit (r_ping s)))"

lemma silent_loop:
  assumes "ready base s" "\<forall>k. os_poll (env (kern s)) k = PollTimeout" "ping_count (r_ping s) \<noteq> 0"
    and "ping_count (r_ping s) - ping_num_xmit (r_ping s) + (if l_finishing v then 0 else 1) < fuel"
  shows "\<exists>r s'. ref_loop ops fuel v s = Some (r, s') \<and> all_sent s r s'"
  using assms
proof (induction fuel arbitrary: v s)
  case (Suc fuel)
  define s1 where "s1 = snd (ref_should_stop s)"
  define wait where "wait = resp_time (l_last v) (l_intvl v) (fst (gettimeofday s1))"
  define s2 where "s2 = snd (select_call wait (snd (gettimeofday s1)))"
  have k: "kept s s2" by (simp add: s2_def s1_def)
  have st: "static s2 = static s" using k by (simp add: kept_def)
  have p: "r_ping s1 = r_ping s" "r_ping s2 = r_ping s" "env (kern s1) = env (kern s)"
    by (simp_all add: s2_def s1_def ref_should_stop_def select_call_def split_def Let_def gettimeofday_buffers)
  have cs: "g_stop (kern s2) = g_stop (kern s)" if "calm s"
    using calm_tests [OF that] by (simp add: s2_def s1_def calm_waits)
  have rdy: "ready base s2" using ready_kept [OF k] Suc.prems(1) by simp
  have poll: "fst (select_call wait (snd (gettimeofday s1))) = PollTimeout"
    using Suc.prems(2) p(3) by (simp add: select_call_def Let_def gettimeofday_buffers)
  have pass: "ref_pass ops v s1 = timer_branch ops v s2"
    by (simp add: ref_pass_def Let_def split_def wait_def [symmetric] s2_def [symmetric] poll)
  have loop: "ref_loop ops (Suc fuel) v s = (if fst (ref_should_stop s) then Some (Inr (), s1)
      else do { r \<leftarrow> timer_branch ops v s2;
        unless_ended r (\<lambda>e s2. case e of Break \<Rightarrow> Some (Inr (), s2) | Continue v1 \<Rightarrow> ref_loop ops fuel v1 s2) })"
    unfolding pass [symmetric] by (simp add: split_def Let_def s1_def)
  have again: "\<exists>r s'. ref_loop ops fuel v1 t = Some (r, s') \<and> all_sent s r s'"
    if t: "step base s2 t" "ping_num_recv (r_ping t) = ping_num_recv (r_ping s)" "g_stop (kern t) = g_stop (kern s2)"
      "max (ping_count (r_ping s)) (ping_num_xmit (r_ping t)) = max (ping_count (r_ping s)) (ping_num_xmit (r_ping s))"
      "ping_count (r_ping s) - ping_num_xmit (r_ping t) + (if l_finishing v1 then 0 else 1) < fuel" for v1 t
  proof -
    have s: "static t = static s" using t(1) st by (simp add: step_def)
    note f = static_fields [OF s]
    obtain r s' where l: "ref_loop ops fuel v1 t = Some (r, s')" "all_sent t r s'"
      using Suc.IH [of t v1] t Suc.prems(2,3) step_ready [OF t(1)] f by auto
    have "calm s \<Longrightarrow> calm t" using calm_static [OF s] cs t(3) by simp
    then have "all_sent s r s'" using l(2) t(2,4) f unfolding all_sent_def by auto
    then show ?thesis using l(1) by blast
  qed
  show ?case
  proof (cases "fst (ref_should_stop s)")
    case True
    then show ?thesis using loop p(1) calm_tests(1) by (auto simp: all_sent_def)
  next
    case go: False
    show ?thesis
    proof (cases "ping_num_xmit (r_ping s2) < ping_count (r_ping s2)")
      case True
      obtain r3 s3 where s3: "send_echo ops s2 = Some (r3, s3)" "ping_num_recv (r_ping s3) = ping_num_recv (r_ping s2)"
        "g_stop (kern s3) = g_stop (kern s2)" "static s3 = static s2"
        "r3 = Inr 0 \<and> ping_num_xmit (r_ping s3) = ping_num_xmit (r_ping s2) + 1 \<or>
         r3 = Inl 1 \<and> (\<exists>k. os_send (env (kern s2)) k \<noteq> None)"
        using send_ready [OF rdy] by blast
      have st3: "step base s2 s3" by (rule step_send [OF rdy s3(1)]) (use True in simp)
      define s4 where "s4 = (if \<not> has_opt s3 OPT_QUIET \<and> has_opt s3 OPT_FLOOD then out ''.'' s3 else s3)"
      define s5 where "s5 = snd (ping_timeout_p (ping_start_time (r_ping s4)) (r_timeout s4) s4)"
      define s6 where "s6 = snd (gettimeofday s5)"
      have r: "r_ping s5 = r_ping s3" "r_ping s6 = r_ping s3"
        by (simp_all add: s6_def s5_def s4_def ping_timeout_p_def split_def Let_def gettimeofday_buffers out_def)
      have "kept s3 s6" by (simp add: s6_def s5_def s4_def)
      then have st6: "step base s2 s6" using step_trans [OF st3 step_kept] step_ready [OF st3] by blast
      have g6: "g_stop (kern s6) = g_stop (kern s2)" using s3(3) by (simp add: s6_def s5_def s4_def calm_waits)
      have in_time: "\<not> fst (ping_timeout_p (ping_start_time (r_ping s4)) (r_timeout s4) s4)" if "calm s"
      proof -
        have "r_timeout s4 = r_timeout s" using static_fields [OF s3(4)] static_fields [OF st] by (simp add: s4_def out_def)
        then show ?thesis using calm_tests(3) [OF that] by simp
      qed
      from s3(5) show ?thesis
      proof
        assume ok: "r3 = Inr 0 \<and> ping_num_xmit (r_ping s3) = ping_num_xmit (r_ping s2) + 1"
        have tb: "timer_branch ops v s2 = Some (if fst (ping_timeout_p (ping_start_time (r_ping s4)) (r_timeout s4) s4)
            then (Inr Break, s5) else (Inr (Continue (v\<lparr>l_last := fst (gettimeofday s5)\<rparr>)), s6))"
          using True ok s3(1) unfolding s6_def s5_def s4_def
          by (simp add: timer_branch_def unless_ended_def Let_def split_def del: if_split)
        have less: "ping_count (r_ping s) - ping_num_xmit (r_ping s6) + (if l_finishing v then 0 else 1) < fuel"
          using Suc.prems(4) True ok p(2) r by simp
        have mx: "max (ping_count (r_ping s)) (ping_num_xmit (r_ping s6)) = max (ping_count (r_ping s)) (ping_num_xmit (r_ping s))"
          using True ok p(2) r by simp
        show ?thesis
        proof (cases "fst (ping_timeout_p (ping_start_time (r_ping s4)) (r_timeout s4) s4)")
          case True
          then show ?thesis using loop go tb s3(2) r p(2) in_time by (auto simp: unless_ended_def all_sent_def)
        next
          case False
          then show ?thesis
            using again [OF st6 _ g6 mx, of "v\<lparr>l_last := fst (gettimeofday s5)\<rparr>"] less loop go tb s3(2) r p(2)
            by (simp add: unless_ended_def)
        qed
      next
        assume "r3 = Inl 1 \<and> (\<exists>k. os_send (env (kern s2)) k \<noteq> None)"
        moreover have "env (kern s2) = env (kern s)" using static_fields [OF st] by simp
        ultimately have "timer_branch ops v s2 = Some (Inl 1, s3)" "\<not> calm s"
          using True s3(1) by (auto simp: timer_branch_def unless_ended_def calm_def)
        then show ?thesis using loop go s3(2) p(2) by (simp add: unless_ended_def all_sent_def)
      qed
    next
      case False
      then have over: "\<not> (ping_count (r_ping s2) = 0 \<or> ping_num_xmit (r_ping s2) < ping_count (r_ping s2))"
        using Suc.prems(3) p(2) by simp
      show ?thesis
      proof (cases "l_finishing v")
        case True
        then have "timer_branch ops v s2 = Some (Inr Break, s2)" using over by (simp add: timer_branch_def)
        then show ?thesis using loop go p(2) over by (auto simp: unless_ended_def all_sent_def)
      next
        case fresh: False
        define v1 where "v1 = v\<lparr>l_finishing := True, l_intvl := (op_linger ops s2, snd (l_intvl v)), l_last := fst (gettimeofday s2)\<rparr>"
        have tb: "timer_branch ops v s2 = Some (Inr (Continue v1), snd (gettimeofday s2))"
          using over fresh by (simp add: timer_branch_def split_def Let_def v1_def)
        have "step base s2 (snd (gettimeofday s2))" by (rule step_kept [OF _ rdy]) simp
        moreover have "ping_count (r_ping s) - ping_num_xmit (r_ping (snd (gettimeofday s2))) + (if l_finishing v1 then 0 else 1) < fuel"
          using Suc.prems(4) fresh p(2) by (simp add: v1_def gettimeofday_buffers)
        ultimately have "\<exists>r s'. ref_loop ops fuel v1 (snd (gettimeofday s2)) = Some (r, s') \<and> all_sent s r s'"
          using again p(2) by (simp add: gettimeofday_buffers calm_waits)
        then show ?thesis using loop go tb by (simp add: unless_ended_def)
      qed
    qed
  qed
qed simp

lemma silent_preload:
  assumes "ready base t0"
  shows "\<exists>r t. ref_preload ops n t0 = Some (r, t) \<and> ping_num_recv (r_ping t) = ping_num_recv (r_ping t0) \<and>
    g_stop (kern t) = g_stop (kern t0) \<and> (r = Inl 1 \<and> \<not> calm t0 \<or> r = Inr ())"
  using assms
proof (induction n arbitrary: t0)
  case (Suc n)
  obtain r1 s1 where s1: "send_echo ops t0 = Some (r1, s1)" "ready base s1" "static s1 = static t0"
    "ping_num_recv (r_ping s1) = ping_num_recv (r_ping t0)" "g_stop (kern s1) = g_stop (kern t0)"
    "r1 = Inr 0 \<or> r1 = Inl 1 \<and> (\<exists>k. os_send (env (kern t0)) k \<noteq> None)"
    using send_ready [OF Suc.prems] by blast
  have "calm s1 = calm t0" by (rule calm_static [OF s1(3,5)])
  then show ?case using Suc.IH [OF s1(2)] s1 by (auto simp: unless_ended_def calm_def)
qed simp

lemma silent_run_exact:
  assumes ok: "ready base s" and silent: "\<forall>k. os_poll (env (kern s)) k = PollTimeout"
    and count: "ping_count (r_ping s) \<noteq> 0" "ping_count (r_ping s) + 1 < fuel"
    and none: "ping_num_recv (r_ping s) = 0"
    and finish: "\<And>t. ping_num_recv (r_ping t) = 0 \<Longrightarrow> \<exists>t'. finish t = Some (1, t')"
  shows "\<exists>r s'. ref_run ops fuel finish s = Some (r, s') \<and> (r = Inl 1 \<or> r = Inr 1) \<and>
    (calm s \<longrightarrow> r = Inr 1 \<and> (\<exists>t. finish t = Some (1, s') \<and> ping_num_xmit (r_ping t) =
       max (ping_count (r_ping s)) (ping_num_xmit (r_ping s) + r_preload s + 1)))"
proof -
  obtain r0 s1 where p0: "ref_preload ops (r_preload s) s = Some (r0, s1)" "ping_num_recv (r_ping s1) = 0"
    "g_stop (kern s1) = g_stop (kern s)" "r0 = Inl 1 \<and> \<not> calm s \<or> r0 = Inr ()"
    using silent_preload [OF ok] none by metis
  note p = preload_ready [OF p0(1) ok]
  let ?s2 = "snd (gettimeofday s1)"
  have r2: "ready base ?s2" using ready_kept [of s1 ?s2] p by simp
  have c2: "calm ?s2 = calm s" using p p0(3) by (intro calm_static) (simp_all add: calm_waits)
  obtain r1 s3 where s3: "send_echo ops ?s2 = Some (r1, s3)" "ready base s3" "static s3 = static s"
    "ping_num_recv (r_ping s3) = 0" "g_stop (kern s3) = g_stop (kern s)"
    "r1 = Inr 0 \<and> ping_num_xmit (r_ping s3) = ping_num_xmit (r_ping s1) + 1 \<or> r1 = Inl 1 \<and> \<not> calm s"
  proof -
    obtain r1 s3 where x: "send_echo ops ?s2 = Some (r1, s3)" "ready base s3" "static s3 = static ?s2"
      "ping_num_recv (r_ping s3) = ping_num_recv (r_ping ?s2)" "g_stop (kern s3) = g_stop (kern ?s2)"
      "r1 = Inr 0 \<and> ping_num_xmit (r_ping s3) = ping_num_xmit (r_ping ?s2) + 1 \<or>
       r1 = Inl 1 \<and> (\<exists>k. os_send (env (kern ?s2)) k \<noteq> None)"
      using send_ready [OF r2] by blast
    have "r1 = Inr 0 \<and> ping_num_xmit (r_ping s3) = ping_num_xmit (r_ping s1) + 1 \<or> r1 = Inl 1 \<and> \<not> calm s"
      using x(6) c2 by (auto simp: calm_def gettimeofday_buffers)
    then show thesis using that [OF x(1,2)] x(3-5) p p0(2,3) by (simp add: gettimeofday_buffers)
  qed
  note f = static_fields [OF s3(3)]
  define v where "v = start_locals (fst (gettimeofday s1)) ?s2"
  have "\<exists>r4 s4. ref_loop ops fuel v s3 = Some (r4, s4) \<and> all_sent s3 r4 s4"
    by (rule silent_loop [OF s3(2)]) (use silent count f in \<open>simp_all add: v_def start_locals_def\<close>)
  then obtain r4 s4 where s4: "ref_loop ops fuel v s3 = Some (r4, s4)" "all_sent s3 r4 s4" by blast
  have r4: "r4 = Inl 1 \<or> r4 = Inr ()" by (rule loop_status [OF s4(1) s3(2)])
  have c3: "calm s3 = calm s" by (rule calm_static [OF s3(3,5)])
  obtain s5 where s5: "finish (ping_unset_data s4) = Some (1, s5)"
    using finish [of "ping_unset_data s4"] s4(2) s3(4) by (auto simp: ping_unset_data_def ping_freebuf_def all_sent_def)
  have calm: "r0 = Inr () \<and> r1 = Inr 0 \<and> r4 = Inr () \<and> ping_num_xmit (r_ping (ping_unset_data s4)) =
      max (ping_count (r_ping s)) (ping_num_xmit (r_ping s) + r_preload s + 1)" if "calm s"
    using that p0(4) s3(6) s4(2) c3 p f by (auto simp: all_sent_def numbered_unset)
  show ?thesis
    using p0(1,4) s3(1,6) s4(1) s5(1) r4 calm
    by (cases "calm s") (auto simp: ref_run_def unless_ended_def split_def Let_def v_def)
qed

lemma silent_run:
  assumes "ready base s" "\<forall>k. os_poll (env (kern s)) k = PollTimeout"
    and "ping_count (r_ping s) \<noteq> 0" "ping_count (r_ping s) + 1 < fuel" "ping_num_recv (r_ping s) = 0"
    and "\<And>t. ping_num_recv (r_ping t) = 0 \<Longrightarrow> \<exists>t'. finish t = Some (1, t')"
  shows "\<exists>r s'. ref_run ops fuel finish s = Some (r, s') \<and> (r = Inl 1 \<or> r = Inr 1)"
  using silent_run_exact [where finish = finish, OF assms] by blast

end

section \<open>The session of ping\<close>

definition request4 :: encoder where
  "request4 e ident n payload = icmp_message e 8 (word_of_int ident) (word_of_int (int n)) payload"

interpretation s4: session ping4 Sendto request_bytes request4
proof unfold_locales
  fix s :: ref
  show "request_bytes s = request4 (ref_endian s) (ping_ident (r_ping s)) (ping_num_xmit (r_ping s))"
    by (simp add: request_bytes_def request4_def fun_eq_iff)
qed (simp_all add: ping4_def ping_recv_kept)

lemma kept_if [simp]: "kept s (if b then t else t') = (if b then kept s t else kept s t')"
  by simp

lemma ping_finish_kept: "kept s (snd (ping_finish s))" "r_ping (snd (ping_finish s)) = r_ping s"
  by (simp_all add: ping_finish_def Let_def) (simp_all add: out_def)

lemma echo_finish_kept: "echo_finish s = Some (rc, s') \<Longrightarrow> kept s s'"
  using ping_finish_kept(1) [of s] by (auto simp: echo_finish_def split_def Let_def bind_eq_Some_conv split: if_splits)

lemma echo_finish_lost: "ping_num_recv (r_ping s) = 0 \<Longrightarrow> \<exists>s'. echo_finish s = Some (1, s')"
  using ping_finish_kept(2) [of s] by (simp add: echo_finish_def split_def Let_def)

text \<open>C30. Whatever arrives, whenever the clock is read and whichever calls fail, when a run of the
  reference is over the packets on the wire are exactly the echo requests numbered from 0 to the
  transmit counter, in order, each carrying a reading of the clock and the user's data; nothing
  but buffers, counters and statistics has changed; \<open>-c\<close> bounds the number of probes, save that those of
  \<open>-l\<close> and the first one are always sent.\<close>

theorem ref_session_wire:
  assumes "ref_run ping4 fuel echo_finish s = Some (r, s')"
    and "can_send False s" "filler_ok s" "ping_num_xmit (r_ping s) = 0"
  shows "numbered Sendto request4 (packets (kern s)) s' \<and> static s' = static s \<and>
    within_count (r_preload s + 1) s' \<and> (\<forall>rc. r = Inr rc \<longrightarrow> r_preload s + 1 \<le> ping_num_xmit (r_ping s'))"
  using s4.run_numbered [OF assms(1) _ echo_finish_kept, of "packets (kern s)"] assms(2-4)
    numbered_start [OF assms(4), of Sendto request4] by (simp add: s4.ready_def)

text \<open>C32. With \<open>-c\<close> the reference ends even if nobody answers: with \<open>select\<close> always timing out, a number of
  passes just above the count suffices, no access leaves a buffer, and the run reports failure. If
  besides the kernel takes every packet, no SIGINT arrives and there is no \<open>-w\<close>, then none of the
  requests is left out: their number is exactly the count, or that of \<open>-l\<close> and the first one where
  this is larger, and they are on the wire, numbered from 0. Only a refused packet, SIGINT or
  \<open>-w\<close> can end the run before.\<close>

theorem ref_unanswered:
  assumes "can_send False s" "filler_ok s" "ping_num_xmit (r_ping s) = 0" "ping_num_recv (r_ping s) = 0"
    and "ping_count (r_ping s) \<noteq> 0" "\<forall>k. os_poll (env (kern s)) k = PollTimeout"
  shows "\<exists>r s'. ref_run ping4 (ping_count (r_ping s) + 2) echo_finish s = Some (r, s') \<and>
    (r = Inl 1 \<or> r = Inr 1) \<and> numbered Sendto request4 (packets (kern s)) s' \<and>
    ((\<forall>k. os_send (env (kern s)) k = None) \<and> (\<forall>k. \<not> os_sigint (env (kern s)) k) \<and> \<not> g_stop (kern s) \<and>
        r_timeout s = - 1 \<longrightarrow>
      r = Inr 1 \<and> ping_num_xmit (r_ping s') = max (ping_count (r_ping s)) (r_preload s + 1))"
proof -
  have r: "s4.ready (packets (kern s)) s"
    using assms(1-3) numbered_start [OF assms(3), of Sendto request4] by (simp add: s4.ready_def)
  obtain r s' where e: "ref_run ping4 (ping_count (r_ping s) + 2) echo_finish s = Some (r, s')"
    "r = Inl 1 \<or> r = Inr 1" "s4.calm s \<longrightarrow> r = Inr 1 \<and> (\<exists>t. echo_finish t = Some (1, s') \<and>
      ping_num_xmit (r_ping t) = max (ping_count (r_ping s)) (ping_num_xmit (r_ping s) + r_preload s + 1))"
    using s4.silent_run_exact [where finish = echo_finish, OF r assms(6,5) _ assms(4) echo_finish_lost,
        of "ping_count (r_ping s) + 2"] by auto
  have "numbered Sendto request4 (packets (kern s)) s'"
    using s4.run_numbered [OF e(1) r echo_finish_kept] by simp
  moreover have "ping_num_xmit (r_ping s') = ping_num_xmit (r_ping t)" if "echo_finish t = Some (1, s')" for t
    using echo_finish_kept [OF that] by (simp add: kept_def)
  ultimately show ?thesis using e assms(3) by (intro exI [of _ r] exI [of _ s']) (auto simp: s4.calm_def)
qed

text \<open>\<open>ping -c 3\<close> on a network without answers.\<close>

definition sample_count :: ref where
  "sample_count = sample_ref\<lparr>r_ping := (r_ping sample_ref)\<lparr>ping_count := 3\<rparr>\<rparr>"

lemma sample_count_ok:
  "can_send False sample_count" "filler_ok sample_count" "ping_num_xmit (r_ping sample_count) = 0"
  "ping_num_recv (r_ping sample_count) = 0" "ping_count (r_ping sample_count) = 3"
  "\<forall>k. os_poll (env (kern sample_count)) k = PollTimeout"
  by (simp_all add: sample_count_def can_send_def filler_ok_def sample_ref_def fresh_ping_def ref_boot_def sample_os_def
      sample_net_def ping_buflen_def PING_DATALEN_def icmp_sizes PING_HEADER_LEN_def)

lemma sample_count_calm:
  "\<forall>k. os_send (env (kern sample_count)) k = None" "\<forall>k. \<not> os_sigint (env (kern sample_count)) k"
  "\<not> g_stop (kern sample_count)" "r_timeout sample_count = - 1" "r_preload sample_count = 0"
  by (simp_all add: sample_count_def sample_ref_def ref_boot_def sample_os_def)

theorem ref_unanswered_witness:
  "\<exists>s'. ref_run ping4 5 echo_finish sample_count = Some (Inr 1, s') \<and> ping_num_xmit (r_ping s') = 3 \<and>
     numbered Sendto request4 (packets (kern sample_count)) s'"
  using ref_unanswered [OF sample_count_ok(1-4)] sample_count_ok(5,6) sample_count_calm by (auto simp: eval_nat_numeral)

text \<open>The same run, from the fact of the interface.\<close>

lemma sample_count_run: "\<exists>r s'. ref_run ping4 5 echo_finish sample_count = Some (r, s')"
  using s4.silent_run [of "packets (kern sample_count)" sample_count 5 echo_finish] sample_count_ok echo_finish_lost
    numbered_start [OF sample_count_ok(3), of Sendto request4] by (auto simp: s4.ready_def)

theorem ref_session_wire_witness:
  "\<exists>r s'. ref_run ping4 5 echo_finish sample_count = Some (r, s') \<and> numbered Sendto request4 [] s'"
proof -
  obtain r s' where "ref_run ping4 5 echo_finish sample_count = Some (r, s')" using sample_count_run by blast
  moreover have "packets (kern sample_count) = []"
    by (simp add: packets_def sample_count_def sample_ref_def ref_boot_def)
  ultimately show ?thesis using ref_session_wire [OF _ sample_count_ok(1-3)] by metis
qed

end
