(* ===== verification/Ref_Command.thy ===== *)
theory Ref_Command
  imports Ref_Session Ref_Main
begin

text \<open>
  The whole command \<open>ping\<close>: options, socket, hosts one after the other. The first part is shared with
  \<open>ping6\<close>, as the loop over the hosts is: the locale \<open>visitor\<close> says what that loop needs of the call for one
  host, and what is then on the wire. The theorem says what \<open>ping\<close> has sent when it ends.
\<close>

section \<open>What the hosts are visited with\<close>

text \<open>\<open>malloc\<close> never refuses, as on systems that overcommit memory.\<close>

definition memory :: "'n ref_os \<Rightarrow> bool" where
  "memory n \<longleftrightarrow> (\<forall>k. \<exists>b. n_malloc_buffer n k = Some b \<and> length b = k) \<and> (\<forall>k. n_malloc_cktab n k \<noteq> None)"

definition same_setup :: "'n ref_state \<Rightarrow> 'n ref_state \<Rightarrow> bool" where
  "same_setup s s' \<longleftrightarrow> env (kern s') = env (kern s) \<and> net_os s' = net_os s \<and> r_data_length s' = r_data_length s \<and>
     r_data_buffer s' = r_data_buffer s \<and> ping_ident (r_ping s') = ping_ident (r_ping s) \<and>
     ping_cktab_size (r_ping s') = ping_cktab_size (r_ping s) \<and> r_ping_type s' = r_ping_type s"

lemma same_setup_refl [simp]: "same_setup s s"
  by (simp add: same_setup_def)

lemma same_setup_trans [trans]: "same_setup s t \<Longrightarrow> same_setup t u \<Longrightarrow> same_setup s u"
  by (simp add: same_setup_def)

text \<open>Between two hosts there are no buffers, and the next ones will fit.\<close>

definition idle :: "'n ref_state \<Rightarrow> bool" where
  "idle s \<longleftrightarrow> ping_buffer (r_ping s) = None \<and> ping_cktab (r_ping s) = None \<and> ping_num_xmit (r_ping s) = 0 \<and>
     0 < ping_cktab_size (r_ping s) \<and> r_data_length s \<le> 65527 \<and> length (filler_of s) = r_data_length s \<and>
     memory (net_os s) \<and> r_ping_type s = Echo"

text \<open>Requests numbered from 0 on, all to the address \<open>a\<close>.\<close>

definition sent_to ::
  "(byte list \<Rightarrow> 'n \<Rightarrow> event) \<Rightarrow> encoder \<Rightarrow> 'n ref_state \<Rightarrow> 'n \<Rightarrow> event list \<Rightarrow> bool" where
  "sent_to packet enc s a w \<longleftrightarrow>
     (\<exists>n tv. (\<forall>i. is_reading (env (kern s)) (tv i)) \<and>
       w = map (\<lambda>i. packet (enc (ref_endian s) (ping_ident (r_ping s)) i
            (ref_payload (ref_endian s) (tv i) (r_data_length s) (filler_of s))) a) [0..<n])"

lemma sent_to_setup: "same_setup s s' \<Longrightarrow> sent_to packet enc s' a w = sent_to packet enc s a w"
  by (simp add: sent_to_def same_setup_def ref_endian_def filler_of_def)

lemma numbered_sent_to:
  assumes "numbered packet enc base s'" "same_setup s s'" "ping_dest (r_ping s') = a"
  shows "\<exists>w. packets (kern s') = base @ w \<and> sent_to packet enc s a w \<and> (0 < ping_num_xmit (r_ping s') \<longrightarrow> w \<noteq> [])"
proof -
  let ?w = "\<lambda>tv. map (\<lambda>i. packet (enc (ref_endian s) (ping_ident (r_ping s)) i
      (ref_payload (ref_endian s) (tv i) (r_data_length s) (filler_of s))) a) [0..<ping_num_xmit (r_ping s')]"
  have e: "env (kern s') = env (kern s)" "ref_endian s' = ref_endian s" "ping_ident (r_ping s') = ping_ident (r_ping s)"
    "r_data_length s' = r_data_length s" "filler_of s' = filler_of s"
    using assms(2) by (simp_all add: same_setup_def ref_endian_def filler_of_def)
  obtain tv where tv: "\<forall>i. is_reading (env (kern s)) (tv i)" "packets (kern s') = base @ ?w tv"
    using assms(1) unfolding numbered_def e assms(3) by blast
  have "sent_to packet enc s a (?w tv)"
    unfolding sent_to_def by (rule exI [of _ "ping_num_xmit (r_ping s')"], rule exI [of _ tv]) (simp add: tv(1))
  moreover have "0 < ping_num_xmit (r_ping s') \<longrightarrow> ?w tv \<noteq> []" by simp
  ultimately show ?thesis using tv(2) by (intro exI [of _ "?w tv"]) simp
qed

text \<open>What one host on the command line has been sent: nothing, or requests to its address.\<close>

definition visited :: "(byte list \<Rightarrow> 'n \<Rightarrow> event) \<Rightarrow> encoder \<Rightarrow> 'n ref_state \<Rightarrow> string \<Rightarrow> event list \<Rightarrow> bool" where
  "visited packet enc s h w \<longleftrightarrow> w = [] \<or> (\<exists>a c. n_getaddrinfo (net_os s) h = Some (a, c) \<and> sent_to packet enc s a w)"

lemma visited_setup: "same_setup s s' \<Longrightarrow> visited packet enc s' h w = visited packet enc s h w"
  using sent_to_setup [of s s' packet enc _ w] by (simp add: visited_def) (simp add: same_setup_def)

text \<open>What has been sent, host by host.\<close>

definition rounds ::
  "(byte list \<Rightarrow> 'n \<Rightarrow> event) \<Rightarrow> encoder \<Rightarrow> string list \<Rightarrow> 'n ref_state \<Rightarrow> event list list \<Rightarrow> bool" where
  "rounds packet enc hosts s ws \<longleftrightarrow> packets (kern s) = concat ws \<and> length ws \<le> length hosts \<and>
     list_all2 (visited packet enc s) (take (length ws) hosts) ws"

section \<open>The loop over the hosts\<close>

text \<open>What the loop needs of the call for one host.\<close>

locale visitor =
  fixes ping_one :: "string \<Rightarrow> 'n ref_state \<Rightarrow> ((int + int) \<times> 'n ref_state) option"
    and packet :: "byte list \<Rightarrow> 'n \<Rightarrow> event"
    and enc :: encoder
  assumes one_visit: "ping_one h s = Some (r, s') \<Longrightarrow> idle s \<Longrightarrow>
      \<exists>w. packets (kern s') = packets (kern s) @ w \<and> visited packet enc s h w \<and> same_setup s s' \<and>
        (\<forall>rc. r = Inr rc \<longrightarrow> w \<noteq> [] \<and> idle (ping_reset s')) \<and> (\<forall>st. r = Inl st \<longrightarrow> st \<noteq> 0)"
begin

lemma hosts_visited:
  assumes "ping_hosts ping_one hosts status s = Some (r, s')" "idle s"
  shows "\<exists>ws. packets (kern s') = packets (kern s) @ concat ws \<and> same_setup s s' \<and> length ws \<le> length hosts \<and>
    list_all2 (visited packet enc s) (take (length ws) hosts) ws \<and>
    (\<forall>rc. r = Inr rc \<longrightarrow> length ws = length hosts \<and> [] \<notin> set ws) \<and> (\<forall>st. r = Inl st \<longrightarrow> st \<noteq> 0)"
  using assms
proof (induction hosts arbitrary: status s)
  case Nil
  then show ?case by (intro exI [of _ "[]"]) auto
next
  case (Cons h hs)
  obtain r1 s1 where one: "ping_one h s = Some (r1, s1)" using Cons.prems(1) by (auto simp: bind_eq_Some_conv)
  obtain w where w: "packets (kern s1) = packets (kern s) @ w" "visited packet enc s h w" "same_setup s s1"
    "\<forall>rc. r1 = Inr rc \<longrightarrow> w \<noteq> [] \<and> idle (ping_reset s1)" "\<forall>st. r1 = Inl st \<longrightarrow> st \<noteq> 0" using one_visit [OF one Cons.prems(2)] by blast
  show ?case
  proof (cases r1)
    case (Inl st)
    then have "r = Inl st" "s' = s1" using Cons.prems(1) one by (auto simp: unless_ended_def)
    then show ?thesis using w Inl by (intro exI [of _ "[w]"]) simp
  next
    case (Inr rc)
    let ?t = "ping_reset s1"
    have t: "same_setup s ?t" "kern ?t = kern s1" using w(3) by (simp_all add: ping_reset_def upd_ping_def same_setup_def)
    have "ping_hosts ping_one hs (status OR rc) ?t = Some (r, s')"
      using Cons.prems(1) one Inr by (simp add: unless_ended_def)
    then obtain ws where ws: "packets (kern s') = packets (kern ?t) @ concat ws" "same_setup ?t s'" "length ws \<le> length hs"
      "list_all2 (visited packet enc ?t) (take (length ws) hs) ws"
      "\<forall>rc. r = Inr rc \<longrightarrow> length ws = length hs \<and> [] \<notin> set ws" "\<forall>st. r = Inl st \<longrightarrow> st \<noteq> 0" using Cons.IH w(4) Inr by blast
    have "visited packet enc ?t = visited packet enc s" using visited_setup [OF t(1)] by (intro ext)
    then show ?thesis using w Inr ws t same_setup_trans [OF t(1) ws(2)] by (intro exI [of _ "w # ws"]) auto
  qed
qed

lemma hosts_rounds:
  assumes run: "ping_hosts ping_one hosts status s = Some (r, s')" and s: "idle s" "packets (kern s) = []"
  shows "\<exists>ws. rounds packet enc hosts s' ws \<and> (\<forall>rc. r = Inr rc \<longrightarrow> length ws = length hosts \<and> [] \<notin> set ws) \<and>
    (\<forall>st. r = Inl st \<longrightarrow> st \<noteq> 0)"
proof -
  obtain ws where ws: "packets (kern s') = packets (kern s) @ concat ws" "same_setup s s'" "length ws \<le> length hosts"
    "list_all2 (visited packet enc s) (take (length ws) hosts) ws"
    "\<forall>rc. r = Inr rc \<longrightarrow> length ws = length hosts \<and> [] \<notin> set ws" "\<forall>st. r = Inl st \<longrightarrow> st \<noteq> 0"
    using hosts_visited [OF run s(1)] by (elim exE conjE) (rule that)
  have "visited packet enc s' = visited packet enc s" using visited_setup [OF ws(2)] by (intro ext)
  then show ?thesis using ws s(2) by (intro exI [of _ ws]) (simp add: rounds_def)
qed

end

section \<open>Idle states\<close>

lemma idle_can_send:
  assumes "idle s" "ping_datalen (r_ping s) = r_data_length s"
  shows "u \<or> ping_type (r_ping s) = ICMP_ECHO \<Longrightarrow> can_send u s" "filler_ok s" "ping_num_xmit (r_ping s) = 0"
proof -
  have m: "\<forall>k. \<exists>b. n_malloc_buffer (net_os s) k = Some b \<and> length b = k" "\<forall>k. n_malloc_cktab (net_os s) k \<noteq> None"
    using assms(1) by (simp_all add: idle_def memory_def)
  obtain b where "n_malloc_buffer (net_os s) (ping_buflen u (r_data_length s)) = Some b"
    "length b = ping_buflen u (r_data_length s)" using m(1) by blast
  then show "u \<or> ping_type (r_ping s) = ICMP_ECHO \<Longrightarrow> can_send u s" using assms m(2) by (simp add: can_send_def idle_def Let_def)
  show "filler_ok s" "ping_num_xmit (r_ping s) = 0"
    using assms by (simp_all add: filler_ok_def idle_def filler_of_def split: option.splits)
qed

lemma static_same_setup: "static s' = static s \<Longrightarrow> same_setup s s'"
proof -
  assume st: "static s' = static s"
  have "r_ping_type (static s') = r_ping_type (static s)" by (simp add: st)
  then have "r_ping_type s' = r_ping_type s" by (simp add: static_def)
  then show ?thesis using static_fields [OF st] by (simp add: same_setup_def)
qed

lemma setup_steps [simp]:
  "same_setup s (out x t) = same_setup s t" "idle (out x t) = idle t"
  "packets (kern (out x t)) = packets (kern t)" "r_ping (out x t) = r_ping t" "net_os (out x t) = net_os t"
  "r_data_length (out x t) = r_data_length t"
  by (simp_all add: out_def same_setup_def idle_def filler_of_def emit_def packets_def)

lemma die_quiet: "die msg s = (r, s') \<Longrightarrow> packets (kern s') = packets (kern s) \<and> same_setup s s' \<and> r = Inl 1"
  by (auto simp: die_def complain_def same_setup_def emit_def packets_def)

section \<open>Before the first host\<close>

text \<open>Options and set-up send nothing and leave alone what the hosts rely on.\<close>

definition unsent :: "'n ref_state \<Rightarrow> 'n ref_state \<Rightarrow> bool" where
  "unsent s s' \<longleftrightarrow> packets (kern s') = packets (kern s) \<and> env (kern s') = env (kern s) \<and> net_os s' = net_os s \<and>
     r_data_buffer s' = r_data_buffer s \<and> (r_data_length s \<le> 65527 \<longrightarrow> r_data_length s' \<le> 65527) \<and>
     (r_ping_type s = Echo \<longrightarrow> r_ping_type s' = Echo)"

lemma unsent_refl [simp]: "unsent s s"
  by (simp add: unsent_def)

lemma unsent_trans [trans]: "unsent s t \<Longrightarrow> unsent t u \<Longrightarrow> unsent s u"
  by (simp add: unsent_def)

lemma unsent_steps [simp]:
  "unsent s (complain x t) = unsent s t" "unsent s (t\<lparr>kern := emit (Perror m err) (kern t)\<rparr>) = unsent s t"
  "unsent s (t\<lparr>kern := emit Close (kern t)\<rparr>) = unsent s t" "unsent s (t\<lparr>r_ping := p\<rparr>) = unsent s t"
  "unsent s (snd (gettimeofday t)) = unsent s t" "unsent s (ping_set_count c t) = unsent s t"
  "unsent s (ping_set_interval i t) = unsent s t" "unsent s (warn_setsockopt b name v msg t) = unsent s t"
  by (simp_all add: unsent_def complain_def gettimeofday_def clock_gettime_def ping_set_count_def
      ping_set_interval_def warn_setsockopt_def Let_def split: option.split)

lemma cvt_number_unsent:
  assumes "ping_cvt_number arg m zero s = (r, s')"
  shows "unsent s s' \<and> (\<forall>st. r = Inl st \<longrightarrow> st \<noteq> 0) \<and> (\<forall>k. r = Inr k \<longrightarrow> s' = s \<and> (m \<noteq> 0 \<longrightarrow> k \<le> m))"
  using assms by (auto simp: ping_cvt_number_def die_def Let_def split: prod.splits if_splits)

text \<open>A number is stored by an update that keeps the bound.\<close>

lemma set_number_unsent:
  assumes "set_number (ping_cvt_number arg m zero t) f = Some (r, s')" "unsent s t"
    and "\<And>k u. m \<noteq> 0 \<longrightarrow> k \<le> m \<Longrightarrow> unsent s u \<Longrightarrow> unsent s (f k u)"
  shows "unsent s s' \<and> (\<forall>st. r = Inl st \<longrightarrow> st \<noteq> 0)"
proof -
  obtain q u where c: "ping_cvt_number arg m zero t = (q, u)" by fastforce
  show ?thesis
  proof (cases q)
    case (Inl st)
    then show ?thesis using assms(1,2) c cvt_number_unsent [OF c] unsent_trans [of s t u]
      by (auto simp: set_number_def unless_ended_def)
  next
    case (Inr k)
    then show ?thesis using assms c cvt_number_unsent [OF c] by (auto simp: set_number_def unless_ended_def)
  qed
qed

lemma decode_loop_unsent: "ref_decode_loop cs len i data s = Some (r, s') \<Longrightarrow> unsent s s' \<and> (\<forall>st. r = Inl st \<longrightarrow> st \<noteq> 0)"
proof (induction cs len i data s rule: ref_decode_loop.induct)
  case (1 cs len i data s)
  show ?case
  proof (cases "cs \<noteq> [] \<and> i < len")
    case True
    then show ?thesis using 1
      by (cases "scan_2x cs") (auto simp: ref_decode_loop.simps [of cs] die_def bind_eq_Some_conv, blast)
  next
    case False
    then show ?thesis using 1(2) by (auto simp: ref_decode_loop.simps [of cs])
  qed
qed

lemma unsent_fields:
  "unsent u (v\<lparr>r_socket_type := x\<rparr>) = unsent u v" "unsent u (v\<lparr>r_options := x\<rparr>) = unsent u v"
  "unsent u (v\<lparr>r_suboptions := x\<rparr>) = unsent u v" "unsent u (v\<lparr>r_count := n\<rparr>) = unsent u v"
  "unsent u (v\<lparr>r_tos := i\<rparr>) = unsent u v" "unsent u (v\<lparr>r_ttl := i\<rparr>) = unsent u v" "unsent u (v\<lparr>r_timeout := i\<rparr>) = unsent u v"
  "unsent u (v\<lparr>r_linger := i\<rparr>) = unsent u v" "unsent u (v\<lparr>r_interval := n\<rparr>) = unsent u v" "unsent u (v\<lparr>r_preload := n\<rparr>) = unsent u v"
  "unsent u (v\<lparr>r_pattern_len := i, r_patptr := bs\<rparr>) = unsent u v"
  by (simp_all add: unsent_def)

lemma pattern_unsent:
  assumes run: "(do { r \<leftarrow> ref_decode_pattern arg l d s; unless_ended r (\<lambda>(i, bs) s1.
      Some (Inr True, s1\<lparr>r_pattern_len := int i, r_patptr := Some bs\<rparr>)) }) = Some (r, s')"
  shows "unsent s s' \<and> (\<forall>st. r = Inl st \<longrightarrow> st \<noteq> 0)"
proof -
  obtain qu where "ref_decode_pattern arg l d s = Some qu" using run by (cases "ref_decode_pattern arg l d s") simp_all
  then obtain q u where q: "ref_decode_pattern arg l d s = Some (q, u)" by (cases qu) simp
  have "unsent s u \<and> (\<forall>st. q = Inl st \<longrightarrow> st \<noteq> 0)"
    using decode_loop_unsent q unfolding ref_decode_pattern_def by blast
  then show ?thesis using run q by (cases q) (auto simp: unless_ended_def unsent_fields)
qed

text \<open>The calls of \<open>argp\<close>, one after the other.\<close>

lemma parse_opts_unsent:
  assumes "\<And>key arg s r s'. (key, arg) \<in> set keys \<Longrightarrow> parser key arg s = Some (r, s') \<Longrightarrow>
      unsent s s' \<and> (\<forall>st. r = Inl st \<longrightarrow> st \<noteq> 0)"
  shows "parse_opts parser keys s = Some (r, s') \<Longrightarrow> unsent s s' \<and> (\<forall>st. r = Inl st \<longrightarrow> st \<noteq> 0)"
  using assms
proof (induction keys arbitrary: s)
  case (Cons ka keys)
  obtain key arg where ka: "ka = (key, arg)" by fastforce
  obtain qu where "parser key arg s = Some qu" using Cons.prems(1) ka by (cases "parser key arg s") simp_all
  then obtain q u where q: "parser key arg s = Some (q, u)" by (cases qu) simp
  have u: "unsent s u \<and> (\<forall>st. q = Inl st \<longrightarrow> st \<noteq> 0)" by (rule Cons.prems(2) [OF _ q]) (simp add: ka)
  show ?case
  proof (cases q)
    case (Inl st)
    then show ?thesis using Cons.prems(1) ka q u by (auto simp: unless_ended_def)
  next
    case (Inr known)
    have all: "unsent t t' \<and> (\<forall>st. q' = Inl st \<longrightarrow> st \<noteq> 0)"
      if "(k, a) \<in> set keys" "parser k a t = Some (q', t')" for k a t q' t'
      by (rule Cons.prems(2) [OF _ that(2)]) (simp add: that(1))
    have "unsent u s' \<and> (\<forall>st. r = Inl st \<longrightarrow> st \<noteq> 0)" if "parse_opts parser keys u = Some (r, s')"
      by (rule Cons.IH [OF that]) (rule all)
    then show ?thesis using Cons.prems(1) Inr ka q u unsent_trans [of s u s']
      by (auto simp: unless_ended_def split: if_split_asm)
  qed
qed auto

lemma length_repeat_pattern: "repeat_pattern pat len i n = Some bs \<Longrightarrow> length bs = n"
  by (induction n arbitrary: i bs) (auto simp: bind_eq_Some_conv)

lemma data_buffer_filled:
  assumes "init_data_buffer pat len s = Some s'" "r_data_buffer s = None"
  shows "kern s' = kern s" "net_os s' = net_os s" "r_ping s' = r_ping s" "r_data_length s' = r_data_length s"
    "length (filler_of s') = r_data_length s" "r_ping_type s' = r_ping_type s"
  using assms by (auto simp: init_data_buffer_def filler_of_def bind_eq_Some_conv length_repeat_pattern split: if_split_asm option.splits)

lemma setup_ping [simp]:
  "ping_buffer (r_ping (ping_set_count c s)) = ping_buffer (r_ping s)" "ping_buffer (r_ping (ping_set_interval i s)) = ping_buffer (r_ping s)"
  "ping_cktab (r_ping (ping_set_count c s)) = ping_cktab (r_ping s)" "ping_cktab (r_ping (ping_set_interval i s)) = ping_cktab (r_ping s)"
  "ping_num_xmit (r_ping (ping_set_count c s)) = ping_num_xmit (r_ping s)" "ping_num_xmit (r_ping (ping_set_interval i s)) = ping_num_xmit (r_ping s)"
  "ping_cktab_size (r_ping (ping_set_count c s)) = ping_cktab_size (r_ping s)" "ping_cktab_size (r_ping (ping_set_interval i s)) = ping_cktab_size (r_ping s)"
  "r_ping (warn_setsockopt b name v msg s) = r_ping s"
  by (simp_all add: ping_set_count_def ping_set_interval_def warn_setsockopt_def split: option.split)

section \<open>One session\<close>

text \<open>A session of either program, from an idle state with a destination.\<close>

context session
begin

lemma run_visit:
  assumes run: "ref_run ops fuel finish s = Some (r, s')"
    and s: "idle s" "ping_datalen (r_ping s) = r_data_length s" "op_ipv6 ops \<or> ping_type (r_ping s) = ICMP_ECHO"
    and finish: "\<And>t rc t'. finish t = Some (rc, t') \<Longrightarrow> kept t t'"
    and dest: "n_getaddrinfo (net_os s) h = Some (ping_dest (r_ping s), c)"
  shows "\<exists>w. packets (kern s') = packets (kern s) @ w \<and> visited packet enc s h w \<and> same_setup s s' \<and>
    (\<forall>rc. r = Inr rc \<longrightarrow> w \<noteq> [] \<and> idle (ping_reset s')) \<and> (\<forall>st. r = Inl st \<longrightarrow> st \<noteq> 0)"
proof -
  note ok = idle_can_send [OF s(1,2)]
  have ready: "ready (packets (kern s)) s"
    using ok(1) [OF s(3)] ok(2,3) numbered_start [OF ok(3), of packet enc] by (simp add: ready_def)
  have n: "numbered packet enc (packets (kern s)) s' \<and> static s' = static s \<and>
      within_count (ping_num_xmit (r_ping s) + r_preload s + 1) s' \<and> (\<forall>st. r = Inl st \<longrightarrow> st = 1) \<and>
      (\<forall>rc. r = Inr rc \<longrightarrow> ping_num_xmit (r_ping s) + r_preload s + 1 \<le> ping_num_xmit (r_ping s') \<and>
        ping_buffer (r_ping s') = None \<and> ping_cktab (r_ping s') = None)"
    by (rule run_numbered [OF run ready]) (erule finish)
  have st: "static s' = static s" and num: "numbered packet enc (packets (kern s)) s'"
    and last: "\<forall>rc. r = Inr rc \<longrightarrow> 0 < ping_num_xmit (r_ping s') \<and> ping_buffer (r_ping s') = None \<and> ping_cktab (r_ping s') = None"
    using n by auto
  have same: "same_setup s s'" by (rule static_same_setup [OF st])
  obtain w where w: "packets (kern s') = packets (kern s) @ w" "sent_to packet enc s (ping_dest (r_ping s)) w"
    "0 < ping_num_xmit (r_ping s') \<longrightarrow> w \<noteq> []"
    using numbered_sent_to [OF num same static_fields(12) [OF st]] by (elim exE conjE) (rule that)
  have "idle (ping_reset s')" if "r = Inr rc" for rc
    using last that s(1) same by (simp add: idle_def ping_reset_def upd_ping_def same_setup_def filler_of_def)
  moreover have "visited packet enc s h w" using w(2) dest unfolding visited_def by blast
  moreover have "w \<noteq> []" if "r = Inr rc" for rc using last w(3) that by simp
  moreover have "st \<noteq> 0" if "r = Inl st" for st using n that by simp
  ultimately show ?thesis using w(1) same by (intro exI [of _ w] conjI) simp_all
qed

text \<open>With \<open>-c\<close> and without an answer it ends.\<close>

lemma silent_visit:
  assumes "idle t" "ping_datalen (r_ping t) = r_data_length t" "op_ipv6 ops \<or> ping_type (r_ping t) = ICMP_ECHO"
    and "ping_num_recv (r_ping t) = 0" "ping_count (r_ping t) \<noteq> 0" "ping_count (r_ping t) + 1 < fuel"
    and "\<forall>k. os_poll (env (kern t)) k = PollTimeout"
    and "\<And>t. ping_num_recv (r_ping t) = 0 \<Longrightarrow> \<exists>t'. finish t = Some (1, t')"
  shows "\<exists>r s'. ref_run ops fuel finish t = Some (r, s') \<and> (r = Inl 1 \<or> r = Inr 1)"
proof -
  note ok = idle_can_send [OF assms(1,2)]
  have "ready (packets (kern t)) t"
    using ok(1) [OF assms(3)] ok(2,3) numbered_start [OF ok(3), of packet enc] by (simp add: ready_def)
  then show ?thesis by (rule silent_run) (use assms in simp_all)
qed

end

section \<open>One host of ping\<close>

lemma ping_set_dest_fields:
  assumes "ping_set_dest h s = (rc, s')"
  shows "kern s' = kern s" "same_setup s s'" "idle s' = idle s" "ping_datalen (r_ping s') = ping_datalen (r_ping s)"
    "ping_type (r_ping s') = ping_type (r_ping s)" "rc = 0 \<Longrightarrow> \<exists>c. n_getaddrinfo (net_os s) h = Some (ping_dest (r_ping s'), c)"
  using assms by (auto simp: ping_set_dest_def upd_ping_def same_setup_def idle_def filler_of_def split: option.splits prod.splits)

lemma run4_visit:
  assumes "ref_run ping4 fuel echo_finish s = Some (r, s')"
    and "idle s" "ping_datalen (r_ping s) = r_data_length s" "ping_type (r_ping s) = ICMP_ECHO"
    and "n_getaddrinfo (net_os s) h = Some (ping_dest (r_ping s), c)"
  shows "\<exists>w. packets (kern s') = packets (kern s) @ w \<and> visited Sendto request4 s h w \<and> same_setup s s' \<and>
    (\<forall>rc. r = Inr rc \<longrightarrow> w \<noteq> [] \<and> idle (ping_reset s')) \<and> (\<forall>st. r = Inl st \<longrightarrow> st \<noteq> 0)"
  by (rule s4.run_visit [OF assms(1-3) _ _ assms(5)]) (use assms(4) echo_finish_kept in simp_all)

lemma ping_echo_visit:
  assumes run: "ping_echo fuel h s = Some (r, s')" and s: "idle s"
  shows "\<exists>w. packets (kern s') = packets (kern s) @ w \<and> visited Sendto request4 s h w \<and> same_setup s s' \<and>
    (\<forall>rc. r = Inr rc \<longrightarrow> w \<noteq> [] \<and> idle (ping_reset s')) \<and> (\<forall>st. r = Inl st \<longrightarrow> st \<noteq> 0)"
proof -
  have quiet: ?thesis if "packets (kern s') = packets (kern s)" "same_setup s s'" "r = Inl 1"
    using that by (intro exI [of _ "[]"]) (simp add: visited_def)
  define st where "st = \<lparr>tmin = Fin 999999999, tmax = Fin 0, tsum = Fin 0, tsumsq = Fin 0\<rparr>"
  define s1 where "s1 = ping_set_event_handler EchoHandler (Some st) (ping_set_packetsize (r_data_length s) (ping_set_type ICMP_ECHO s))"
  have s1: "kern s1 = kern s" "same_setup s s1" "idle s1" "ping_datalen (r_ping s1) = r_data_length s1" "ping_type (r_ping s1) = ICMP_ECHO"
    using s by (simp_all add: s1_def ping_set_event_handler_def ping_set_packetsize_def ping_set_type_def upd_ping_def
        same_setup_def idle_def filler_of_def)
  obtain rc s2 where d: "ping_set_dest h s1 = (rc, s2)" by fastforce
  note f = ping_set_dest_fields [OF d]
  have same: "same_setup s s2" using same_setup_trans [OF s1(2) f(2)] .
  note run1 = run [unfolded ping_echo_def Let_def, folded st_def, folded s1_def, unfolded d prod.case]
  show ?thesis
  proof (cases "has_opt s OPT_FLOOD \<and> has_opt s OPT_INTERVAL")
    case True
    then show ?thesis using quiet die_quiet [of _ s r s'] run1 by auto
  next
    case go: False
    show ?thesis
    proof (cases "rc = 0")
      case False
      then show ?thesis using quiet die_quiet [of _ s2 r s'] same_setup_trans [OF same] run1 go f(1) s1(1) by auto
    next
      case True
      obtain q s3 where q: "set_ip_options s2 = (q, s3)" by fastforce
      show ?thesis
      proof (cases q)
        case (Inl st)
        then have "packets (kern s3) = packets (kern s2)" "same_setup s2 s3" "st = 1"
          using q by (auto simp: set_ip_options_def die_errno_def Let_def same_setup_def split: option.splits if_splits)
        moreover have "r = Inl st" "s' = s3" using run1 go True q Inl by (simp_all add: unless_ended_def)
        ultimately show ?thesis using quiet same_setup_trans [OF same] f(1) s1(1) by simp
      next
        case (Inr x)
        then have s3: "s3 = s2" using q by (auto simp: set_ip_options_def die_errno_def Let_def split: option.splits if_splits)
        obtain t where t: "ref_run ping4 fuel echo_finish t = Some (r, s')" "same_setup s2 t" "idle t = idle s2"
          "packets (kern t) = packets (kern s2)" "r_ping t = r_ping s2" "r_data_length t = r_data_length s2" "net_os t = net_os s2"
          using run1 go True q Inr s3 by (simp add: unless_ended_def split: if_split_asm)
        obtain c where c: "n_getaddrinfo (net_os s1) h = Some (ping_dest (r_ping s2), c)" using f(6) True by blast
        have "idle t" "ping_datalen (r_ping t) = r_data_length t" "ping_type (r_ping t) = ICMP_ECHO"
          using t f s1 by (simp_all add: same_setup_def)
        moreover have "n_getaddrinfo (net_os t) h = Some (ping_dest (r_ping t), c)"
          using c t f(2) by (simp add: same_setup_def)
        ultimately obtain w where w: "packets (kern s') = packets (kern t) @ w" "visited Sendto request4 t h w"
          "same_setup t s'" "\<forall>rc. r = Inr rc \<longrightarrow> w \<noteq> [] \<and> idle (ping_reset s')" "\<forall>st. r = Inl st \<longrightarrow> st \<noteq> 0"
          using run4_visit [OF t(1)] by blast
        have st: "same_setup s t" by (rule same_setup_trans [OF same t(2)])
        then show ?thesis
          using w t(4) f(1) s1(1) visited_setup [OF st, of Sendto request4 h w] same_setup_trans [OF st w(3)]
          by (intro exI [of _ w]) simp
      qed
    qed
  qed
qed

interpretation h4: visitor "\<lambda>h s. run_request fuel (r_ping_type s) h s" Sendto request4 for fuel
proof unfold_locales
  fix h r s' and s :: ref
  assume "run_request fuel (r_ping_type s) h s = Some (r, s')" "idle s"
  then show "\<exists>w. packets (kern s') = packets (kern s) @ w \<and> visited Sendto request4 s h w \<and> same_setup s s' \<and>
      (\<forall>rc. r = Inr rc \<longrightarrow> w \<noteq> [] \<and> idle (ping_reset s')) \<and> (\<forall>st. r = Inl st \<longrightarrow> st \<noteq> 0)"
    by (intro ping_echo_visit) (simp_all add: run_request_def idle_def)
qed

section \<open>The whole command\<close>

text \<open>Options that do not select another type of request.\<close>

definition echo_only :: "(int \<times> string) list \<Rightarrow> bool" where
  "echo_only keys \<longleftrightarrow> fst ` set keys \<inter> {of_char (CHR ''t''), ARG_ADDRESS, ARG_TIMESTAMP, ARG_ROUTERDISCOVERY} = {}"

lemma parse_opt_unsent:
  assumes "parse_opt key arg s = Some (r, s')"
    and "key \<notin> {of_char (CHR ''t''), ARG_ADDRESS, ARG_TIMESTAMP, ARG_ROUTERDISCOVERY}"
  shows "unsent s s' \<and> (\<forall>st. r = Inl st \<longrightarrow> st \<noteq> 0)"
proof -
  let ?ok = "\<lambda>x. x = Some (r, s') \<longrightarrow> unsent s s' \<and> (\<forall>st. r = Inl st \<longrightarrow> st \<noteq> 0)"
  have size: "unsent s (u\<lparr>r_data_length := nat k\<rparr>)" if "k \<le> PING_MAX_DATALEN" "unsent s u" for k u
    using that by (simp add: unsent_def PING_MAX_DATALEN_def MAXIPLEN_def MAXICMPLEN_def nat_le_iff)
  have choose: "?ok (if c then x else y)" if "c \<Longrightarrow> ?ok x" "\<not> c \<Longrightarrow> ?ok y" for c x y using that by simp
  have number: "?ok (set_number (ping_cvt_number arg m zero t) f)"
    if "unsent s t" "\<And>k u. m \<noteq> 0 \<longrightarrow> k \<le> m \<Longrightarrow> unsent s u \<Longrightarrow> unsent s (f k u)" for m zero t f
    using set_number_unsent [of arg m zero t f r s' s] that by blast
  have echo: "?ok (set_request (decode_type ''echo'' s))"
    by (auto simp: decode_type_def set_request_def unless_ended_def unsent_def strcasecmp_eq_def)
  have stamp: "?ok (unless_ended (decode_ip_timestamp arg (s\<lparr>r_options := o'\<rparr>))
      (\<lambda>b s2. Some (Inr True, s2\<lparr>r_suboptions := r_suboptions s2 OR b\<rparr>)))" for o'
    by (auto simp: decode_ip_timestamp_def unless_ended_def die_def unsent_fields)
  have interval: "?ok (if b then Some (argp_error msg s) else do { n \<leftarrow> size_of_double v;
      Some (if c n then die msg' (s\<lparr>r_options := o', r_interval := n\<rparr>) else (Inr True, s\<lparr>r_options := o', r_interval := n\<rparr>)) })"
    for b msg v c msg' o'
    by (auto simp: argp_error_def die_def unsent_fields bind_eq_Some_conv split: if_split_asm)
  have "?ok (parse_opt key arg s)"
    unfolding parse_opt_def Let_def
    by (intro choose) ((rule number; simp add: unsent_fields size PING_MAX_DATALEN_def MAXIPLEN_def MAXICMPLEN_def) | (rule impI, rule pattern_unsent, assumption) |
      (rule echo) | (rule stamp) | (simp only: split_def, rule interval) | (use assms(2) in \<open>simp; fail\<close>) |
      (auto simp: die_def argp_error_def unsent_fields split: prod.splits; fail))+
  then show ?thesis using assms(1) by simp
qed

lemma ping_init_unsent:
  assumes "ping_init ty ident s = (ok, s')"
  shows "unsent s s'"
    "ok \<Longrightarrow> ping_buffer (r_ping s') = None \<and> ping_cktab (r_ping s') = None \<and> ping_num_xmit (r_ping s') = 0 \<and>
       0 < ping_cktab_size (r_ping s')"
  using assms
  by (auto simp: ping_init_def icmp_socket_def Let_def zero_ping_def PING_CKTABSIZE_def split_def unsent_def complain_def
      gettimeofday_def clock_gettime_def split: option.splits if_splits)

lemma serve_hosts_rounds:
  assumes run: "serve_hosts fuel hosts s = Some (r, s')"
    and s: "packets (kern s) = []" "r_data_buffer s = None" "r_data_length s \<le> 65527" "memory (net_os s)" "r_ping_type s = Echo"
    and p: "ping_buffer (r_ping s) = None" "ping_cktab (r_ping s) = None" "ping_num_xmit (r_ping s) = 0" "0 < ping_cktab_size (r_ping s)"
  shows "\<exists>ws. rounds Sendto request4 hosts s' ws \<and> (\<forall>rc. r = Inr rc \<longrightarrow> length ws = length hosts \<and> [] \<notin> set ws) \<and>
    (\<forall>st. r = Inl st \<longrightarrow> st \<noteq> 0)"
proof (cases "n_setuid (net_os s)")
  case (Some err)
  then have "r = Inl 1" "packets (kern s') = []" using run s(1) by (auto simp: serve_hosts_def die_errno_def)
  then show ?thesis by (intro exI [of _ "[]"]) (simp add: rounds_def)
next
  case None
  define s3 where "s3 = (if r_count s \<noteq> 0 then ping_set_count (r_count s) s else s)"
  define s4 where "s4 = (if has_opt s3 OPT_INTERVAL then ping_set_interval (r_interval s3) s3 else s3)"
  define s5 where "s5 = warn_setsockopt (0 < r_ttl s4) ''IP_TTL'' (r_ttl s4) ''setsockopt(IP_TTL)'' s4"
  define s6 where "s6 = warn_setsockopt (0 \<le> r_tos s5) ''IP_TOS'' (r_tos s5) ''setsockopt(IP_TOS)'' s5"
  have u6: "unsent s s6" by (simp add: s6_def s5_def s4_def s3_def)
  have p6: "ping_buffer (r_ping s6) = None" "ping_cktab (r_ping s6) = None" "ping_num_xmit (r_ping s6) = 0" "0 < ping_cktab_size (r_ping s6)"
    using p by (simp_all add: s6_def s5_def s4_def s3_def)
  note rest = run [unfolded serve_hosts_def None option.case Let_def, folded s3_def, folded s4_def, folded s5_def, folded s6_def]
  obtain s7 where d: "init_data_buffer (r_patptr s6) (nat (r_pattern_len s6)) s6 = Some s7"
    and h: "ping_hosts (\<lambda>h s. run_request fuel (r_ping_type s) h s) hosts 0 s7 = Some (r, s')"
    using rest by (auto simp: bind_eq_Some_conv)
  have "r_data_buffer s6 = None" using u6 s(2) by (simp add: unsent_def)
  note f = data_buffer_filled [OF d this]
  have "idle s7" "packets (kern s7) = []" using f p6 u6 s by (simp_all add: idle_def unsent_def)
  then show ?thesis by (rule h4.hosts_rounds [OF h])
qed

text \<open>C28. The whole reference command. For every command line that does not ask for another type of request,
  every list of hosts and everything the system and the network do, as long as memory lasts: when \<open>ping\<close> ends
  the packets on the wire are, host by host in the order of the command line, echo requests to the
  address the host resolves to, numbered from 0 again for each, with a reading of the clock and the
  user's data. Exit status 0 means that every host has been sent at least one.\<close>

theorem command_wire:
  assumes "ref_main fuel keys hosts (ref_boot e n) = Some (status, s')" "echo_only keys" "memory n"
  shows "\<exists>ws. rounds Sendto request4 hosts s' ws \<and> (status = 0 \<longrightarrow> length ws = length hosts \<and> [] \<notin> set ws)"
proof -
  define s where "s = (if n_getuid (net_os (ref_boot e n)) = 0 then (ref_boot e n)\<lparr>r_is_root := True\<rparr> else ref_boot e n)"
  define keys' where "keys' = (if hosts = [] then keys @ [(ARGP_KEY_NO_ARGS, [])] else keys)"
  have s: "packets (kern s) = []" "r_data_buffer s = None" "r_data_length s \<le> 65527" "memory (net_os s)" "r_ping_type s = Echo"
    using assms(3) by (simp_all add: s_def ref_boot_def packets_def PING_DATALEN_def)
  obtain q1 s1 where q1: "parse_opts parse_opt keys' s = Some (q1, s1)"
    using assms(1) by (auto simp: ref_main_def bind_eq_Some_conv s_def keys'_def Let_def)
  have "echo_only keys'"
    using assms(2) by (simp add: echo_only_def keys'_def ARGP_KEY_NO_ARGS_def ARG_ADDRESS_def ARG_TIMESTAMP_def ARG_ROUTERDISCOVERY_def)
  then have "key \<notin> {of_char (CHR ''t''), ARG_ADDRESS, ARG_TIMESTAMP, ARG_ROUTERDISCOVERY}" if "(key, arg) \<in> set keys'" for key arg
    using image_eqI [OF _ that, of key fst] unfolding echo_only_def by (simp only: fst_conv simp_thms) blast
  then have u1: "unsent s s1 \<and> (\<forall>st. q1 = Inl st \<longrightarrow> st \<noteq> 0)"
    by (intro parse_opts_unsent [OF _ q1]) (rule parse_opt_unsent)
  have quiet: ?thesis if "status \<noteq> 0" "unsent s s'"
    using that s(1) by (intro exI [of _ "[]"]) (simp add: rounds_def unsent_def)
  obtain ok s2 where q2: "ping_init ICMP_ECHO (os_getpid (env (kern s1))) s1 = (ok, s2)" by fastforce
  note u2 = ping_init_unsent [OF q2]
  have u: "unsent s s2" using u1 u2(1) unsent_trans by blast
  note run = assms(1) [unfolded ref_main_def Let_def, folded s_def keys'_def, unfolded q1 Option.bind.simps]
  consider (parse) st where "q1 = Inl st" | (null) "q1 = Inr ()" "\<not> ok" | (go) "q1 = Inr ()" "ok"
    by (metis (full_types) old.sum.exhaust old.unit.exhaust)
  then show ?thesis
  proof cases
    case parse
    then show ?thesis using run u1 by (intro quiet) (auto simp: unless_ended_def)
  next
    case null
    then show ?thesis using run u q2 by (intro quiet) (auto simp: unless_ended_def)
  next
    case go
    then have result: "(do { r2 \<leftarrow> serve_hosts fuel hosts s2;
        case r2 of (Inl status, s9) \<Rightarrow> Some (status, s9) | (Inr status, s9) \<Rightarrow> Some (status, s9) }) = Some (status, s')"
      using run q2 by (simp add: unless_ended_def)
    then obtain r s9 where r9: "serve_hosts fuel hosts s2 = Some (r, s9)" by (cases "serve_hosts fuel hosts s2") auto
    then have r: "serve_hosts fuel hosts s2 = Some (r, s')" "r = Inl status \<or> r = Inr status"
      using result by (auto split: sum.splits)
    have "packets (kern s2) = []" "r_data_buffer s2 = None" "r_data_length s2 \<le> 65527" "memory (net_os s2)" "r_ping_type s2 = Echo"
      using s u by (simp_all add: unsent_def)
    with u2(2) [OF go(2)] have "\<exists>ws. rounds Sendto request4 hosts s' ws \<and>
        (\<forall>rc. r = Inr rc \<longrightarrow> length ws = length hosts \<and> [] \<notin> set ws) \<and> (\<forall>st. r = Inl st \<longrightarrow> st \<noteq> 0)"
      by (intro serve_hosts_rounds [OF r(1)]) simp_all
    then show ?thesis using r(2) by (elim exE) (rule exI, auto)
  qed
qed

section \<open>A run\<close>

text \<open>\<open>ping -c 1 localhost\<close> run by root, without an answer.\<close>

lemma out_env [simp]: "env (kern (out x s)) = env (kern s)"
  by (simp add: out_def emit_def)

lemma default_size: "PING_DATALEN = 56"
  by (simp add: PING_DATALEN_def PING_HEADER_LEN_def icmp_sizes)

lemma one_probe: "ping_cvt_number ''1'' 0 zero t = (Inr 1, t)"
proof -
  have "strtoul0 ''1'' = (1, [])" by code_simp
  then show ?thesis by (simp add: ping_cvt_number_def)
qed

definition sample_start :: ref where
  "sample_start = (ref_boot sample_os sample_net)\<lparr>r_is_root := True, r_count := 1, kern := (boot sample_os)\<lparr>k_clock := 1\<rparr>,
     r_ping := zero_ping\<lparr>ping_type := ICMP_ECHO, ping_count := 1, ping_interval := PING_DEFAULT_INTERVAL, ping_datalen := sizeof_icmphdr,
       ping_ident := 4660, ping_cktab_size := PING_CKTABSIZE, ping_start_time := (100, 0)\<rparr>,
     r_data_buffer := Some (map of_nat [0..<56])\<rparr>"

lemma sample_echo_ends: "\<exists>r s'. ping_echo 3 ''localhost'' sample_start = Some (r, s') \<and> (r = Inl 1 \<or> r = Inr 1)"
proof -
  have m: "memory sample_net" by (simp add: memory_def sample_net_def)
  define st where "st = \<lparr>tmin = Fin 999999999, tmax = Fin 0, tsum = Fin 0, tsumsq = Fin 0\<rparr>"
  define s1 where "s1 = ping_set_event_handler EchoHandler (Some st) (ping_set_packetsize (r_data_length sample_start) (ping_set_type ICMP_ECHO sample_start))"
  define s2 where "s2 = snd (ping_set_dest ''localhost'' s1)"
  note defs = s2_def s1_def sample_start_def ref_boot_def sample_net_def sample_os_def zero_ping_def ping_set_dest_def upd_ping_def
    ping_set_event_handler_def ping_set_packetsize_def ping_set_type_def
  have d: "ping_set_dest ''localhost'' s1 = (0, s2)" by (simp add: defs)
  have f: "idle s2" "ping_datalen (r_ping s2) = r_data_length s2" "ping_type (r_ping s2) = ICMP_ECHO"
    "\<forall>k. os_poll (env (kern s2)) k = PollTimeout" "ping_num_recv (r_ping s2) = 0" "ping_count (r_ping s2) = 1"
    using m by (simp_all add: defs idle_def filler_of_def default_size PING_CKTABSIZE_def)
  have o: "\<not> has_opt sample_start OPT_FLOOD" "set_ip_options s2 = (Inr (), s2)"
    by (simp_all add: defs has_opt_def set_ip_options_def)
  obtain t where "ping_echo 3 ''localhost'' sample_start = ref_run ping4 3 echo_finish t" "idle t = idle s2" "r_ping t = r_ping s2"
    "r_data_length t = r_data_length s2" "env (kern t) = env (kern s2)"
    unfolding ping_echo_def Let_def st_def [symmetric] s1_def [symmetric] d prod.case using o
    by (simp add: unless_ended_def split: if_split_asm)
  then show ?thesis using s4.silent_visit [of t 3 echo_finish] f echo_finish_lost by simp
qed

lemma sample_main:
  "ref_main 3 [(of_char (CHR ''c''), ''1'')] [''localhost''] (ref_boot sample_os sample_net) =
     (case ping_echo 3 ''localhost'' sample_start of
        Some (Inl st, t) \<Rightarrow> Some (st, t) | Some (Inr rc, t) \<Rightarrow> Some (rc, ping_reset t) | None \<Rightarrow> None)"
proof -
  let ?b = "(ref_boot sample_os sample_net)\<lparr>r_is_root := True, r_count := 1\<rparr>"
  let ?i = "sample_start\<lparr>r_data_buffer := None, r_ping := (r_ping sample_start)\<lparr>ping_count := 0\<rparr>\<rparr>"
  have parsed: "parse_opts parse_opt [(of_char (CHR ''c''), ''1'')] s = Some (Inr (), s\<lparr>r_count := 1\<rparr>)" for s
    by (simp add: parse_opt_def set_number_def unless_ended_def one_probe)
  have "ping_init ICMP_ECHO 4660 ?b = (True, ?i)"
    by (simp add: ping_init_def icmp_socket_def zero_ping_def sample_start_def ref_boot_def sample_net_def sample_os_def gettimeofday_def
        clock_gettime_def boot_def Let_def)
  moreover have "serve_hosts 3 [''localhost''] ?i = ping_hosts (\<lambda>h s. run_request 3 (r_ping_type s) h s) [''localhost''] 0 sample_start"
    by (simp add: serve_hosts_def zero_ping_def sample_start_def ref_boot_def sample_net_def ping_set_count_def has_opt_def OPT_INTERVAL_def
        warn_setsockopt_def init_data_buffer_def unless_ended_def default_size Let_def)
  moreover have "n_getuid (net_os (ref_boot sample_os sample_net)) = 0" "os_getpid (env (kern ?b)) = 4660"
    by (simp_all add: ref_boot_def sample_net_def sample_os_def)
  ultimately have main: "ref_main 3 [(of_char (CHR ''c''), ''1'')] [''localhost''] (ref_boot sample_os sample_net) =
      (do { r2 \<leftarrow> ping_hosts (\<lambda>h s. run_request 3 (r_ping_type s) h s) [''localhost''] 0 sample_start;
        case r2 of (Inl status, s9) \<Rightarrow> Some (status, s9) | (Inr status, s9) \<Rightarrow> Some (status, s9) })"
    by (simp only: ref_main_def Let_def parsed Option.bind.simps unless_ended_def prod.case sum.case if_True if_False
        list.distinct refl)
  have "run_request 3 (r_ping_type sample_start) = ping_echo 3" by (simp add: run_request_def sample_start_def ref_boot_def)
  then show ?thesis unfolding main
    by (cases "ping_echo 3 ''localhost'' sample_start") (auto simp: unless_ended_def split: sum.splits)
qed

theorem command_wire_witness:
  "\<exists>s' ws. ref_main 3 [(of_char (CHR ''c''), ''1'')] [''localhost''] (ref_boot sample_os sample_net) = Some (1, s') \<and>
     rounds Sendto request4 [''localhost''] s' ws"
proof -
  have m: "memory sample_net" by (simp add: memory_def sample_net_def)
  have k: "echo_only [(of_char (CHR ''c''), ''1'')]"
    by (simp add: echo_only_def ARG_ADDRESS_def ARG_TIMESTAMP_def ARG_ROUTERDISCOVERY_def)
  obtain s' where s': "ref_main 3 [(of_char (CHR ''c''), ''1'')] [''localhost''] (ref_boot sample_os sample_net) = Some (1, s')"
    using sample_echo_ends unfolding sample_main by auto
  then show ?thesis using command_wire [OF s' k m] by auto
qed

end
