(* ===== verification/Ref6_Session.thy ===== *)
theory Ref6_Session
  imports Ref6_Send Ref_Command
begin

text \<open>
  The runs of \<open>ping6\<close>: the interface of a session, interpreted on the functions of \<open>ping6.c\<close>, gives the
  theorems of \<open>Ref_Session\<close> for it. Then the messages \<open>ping6\<close> accepts: the filter it gives to the kernel,
  and the size of the buffer an error report needs.
\<close>

section \<open>What is printed\<close>

lemma frame_describe_code [frames]: "describe_code descr s = Some s' \<Longrightarrow> frame u s' = frame u s"
  by (auto simp: describe_code_def frame_intro split: option.splits)

lemma frame_diag6 [frames]:
  "print_dst_unreach s = Some s' \<Longrightarrow> frame u s' = frame u s"
  "print_packet_too_big s = Some s' \<Longrightarrow> frame u s' = frame u s"
  "print_time_exceeded s = Some s' \<Longrightarrow> frame u s' = frame u s"
  "print_param_prob s = Some s' \<Longrightarrow> frame u s' = frame u s"
  by (auto simp: print_dst_unreach_def print_packet_too_big_def print_time_exceeded_def print_param_prob_def frame_intro
      dest!: frame_describe_code)

lemma frame_quoted_icmp6 [frames]: "quoted_icmp6 ip s = Some s' \<Longrightarrow> frame u s' = frame u s"
  by (auto simp: quoted_icmp6_def frame_intro split: if_splits)

lemma frame_print_ip_data6 [frames]: "print_ip_data6 s = Some s' \<Longrightarrow> frame u s' = frame u s"
  by (auto simp: print_ip_data6_def frame_intro split: if_splits dest!: frame_quoted_icmp6)

lemma find_diag6: "find (\<lambda>(t, _). t = ty) icmp6_diag = Some (t, func) \<Longrightarrow>
    func \<in> {print_dst_unreach, print_packet_too_big, print_time_exceeded, print_param_prob}"
  by (auto simp: icmp6_diag_def split: if_splits)

lemma frame_print_icmp_error6 [frames]:
  assumes "print_icmp_error6 from len s = Some s'"
  shows "frame u s' = frame u s"
proof -
  obtain name s1 where n: "ipaddr2str from s = (name, s1)" by fastforce
  have s1: "frame u s1 = frame u s" using frame_ipaddr2str [of u "from" s] n by simp
  define s2 where "s2 = out (dec len @ '' bytes from '' @ name @ '': '') s1"
  note step = assms [unfolded print_icmp_error6_def n Let_def prod.case, folded s2_def]
  obtain ty where ty: "byte_at s2 icmp6_type_off = Some ty" using step by (auto simp: bind_eq_Some_conv)
  have "frame u s' = frame u s2"
  proof (cases "find (\<lambda>(t, _). t = uint ty) icmp6_diag")
    case None
    then show ?thesis using step ty by auto
  next
    case (Some tf)
    obtain t func where tf: "tf = (t, func)" by fastforce
    then obtain s3 where s3: "func s2 = Some s3" "s' = s3 \<or> print_ip_data6 s3 = Some s'"
      using step ty Some by (auto simp: bind_eq_Some_conv split: if_splits)
    have "frame u s3 = frame u s2" using find_diag6 [of "uint ty" t func] Some tf s3(1) frame_diag6 by auto
    then show ?thesis using s3(2) frame_print_ip_data6 by auto
  qed
  then show ?thesis using s1 by (simp add: s2_def)
qed

lemma frame_getnameinfo6: "frame u (case getnameinfo6 a s of Inr name \<Rightarrow> s | Inl msg \<Rightarrow> complain (t msg) s) = frame u s"
  by (simp split: sum.split)

lemma frame_print_echo6 [frames]:
  assumes "print_echo6 dupflag hops from datalen s = Some s'"
  shows "frame u s' = frame u s"
proof -
  obtain tv s1 where g: "gettimeofday s = (tv, s1)" by fastforce
  note g1 = frame_gettimeofday [OF g]
  define timed where "timed =
       (if PING_TIMING (nat ((datalen - int sizeof_icmp6_hdr) mod 18446744073709551616))
        then do {
          tv1 \<leftarrow> timeval_at s1 sizeof_icmp6_hdr;
          let t = triptime_ms (tvsub tv tv1);
          Some (True, t, upd_ping (\<lambda>p. p\<lparr>ping_closure := add_triptime t (ping_closure p)\<rparr>) s1)
        }
        else Some (False, Fin 0, s1))"
  obtain timing triptime s2 where t: "timed = Some (timing, triptime, s2)"
    using assms unfolding print_echo6_def g Let_def prod.case timed_def [unfolded Let_def, symmetric] by (auto simp: bind_eq_Some_conv)
  have "frame u s2 = frame u s1" using t by (auto simp: timed_def frame_intro split: if_splits)
  moreover have "frame u s' = frame u s2"
    using assms t unfolding print_echo6_def g Let_def prod.case timed_def [unfolded Let_def, symmetric] t
    by (auto simp: bind_eq_Some_conv split_def split: if_split_asm sum.splits)
  ultimately show ?thesis by (simp only: g1)
qed

section \<open>Receiving\<close>

lemma count_reply6_eq: "count_reply6 sq p = count_reply sq p"
proof -
  have tst: "ping_tst (p\<lparr>ping_num_recv := n\<rparr>) sq = ping_tst p sq" for n by (simp add: ping_tst_def c_ind_def)
  have set: "ping_set (p\<lparr>ping_num_recv := n\<rparr>) sq = map_option (\<lambda>q. q\<lparr>ping_num_recv := n\<rparr>) (ping_set p sq)" for n
  proof -
    have comm: "p\<lparr>ping_num_recv := n, ping_cktab := t\<rparr> = p\<lparr>ping_cktab := t, ping_num_recv := n\<rparr>" for t by (cases p) simp
    have upd: "(p\<lparr>ping_num_recv := n\<rparr>)\<lparr>ping_cktab := t\<rparr> = (p\<lparr>ping_cktab := t\<rparr>)\<lparr>ping_num_recv := n\<rparr>" for t by (rule comm)
    have ind: "c_ind (p\<lparr>ping_num_recv := n\<rparr>) sq = c_ind p sq" "ping_cktab (p\<lparr>ping_num_recv := n\<rparr>) = ping_cktab p"
      by (simp_all add: c_ind_def)
    show ?thesis unfolding ping_set_def ind Let_def upd by (simp add: map_option_bind comp_def)
  qed
  have num: "ping_set p sq = Some q \<Longrightarrow> ping_num_recv q = ping_num_recv p" for q
    by (auto simp: ping_set_def bind_eq_Some_conv Let_def)
  have same: "p\<lparr>ping_num_recv := ping_num_recv p + 1, ping_num_rept := k, ping_num_recv := ping_num_recv p\<rparr> = p\<lparr>ping_num_rept := k\<rparr>" for k
    by (cases p) simp
  show ?thesis
  proof (cases "ping_tst p sq")
    case None
    then show ?thesis unfolding count_reply6_def count_reply_def Let_def tst by simp
  next
    case (Some again)
    show ?thesis
    proof (cases again)
      case True
      then show ?thesis unfolding count_reply6_def count_reply_def Let_def tst Some by (simp add: same)
    next
      case False
      then show ?thesis unfolding count_reply6_def count_reply_def Let_def tst Some set
        by (cases "ping_set p sq") (simp_all add: num)
    qed
  qed
qed

lemma ping_recv6_kept:
  assumes "ping_recv6 s = Some (rc, s')"
  shows "kept s s'"
proof -
  obtain r s1 where t: "take_datagram True s = Some (r, s1)" using assms by (auto simp: ping_recv6_def bind_eq_Some_conv)
  have k1: "kept s s1" by (rule kept_take_datagram [OF t])
  have replied: "kept s s3" if "count_reply6 sq (r_ping s1) = Some (dup, p)"
      "print_echo6 d hops a n (s1\<lparr>r_ping := p\<rparr>) = Some s3" for sq dup p d hops a n s3
    using frames_kept [OF frame_print_echo6 [OF that(2)], of s]
      kept_trans [OF k1 count_reply_kept [OF that(1) [unfolded count_reply6_eq]]] by simp
  have reported: "kept s s2" if "print_icmp_error6 a n s1 = Some s2" for a n s2
    using frames_kept [OF frame_print_icmp_error6 [OF that], of s] k1 by simp
  show ?thesis
  proof (cases r)
    case (Inl err)
    then show ?thesis using assms t k1 by (simp add: ping_recv6_def)
  next
    case (Inr n)
    obtain ty where ty: "byte_at s1 icmp6_type_off = Some ty" using assms t Inr by (auto simp: ping_recv6_def bind_eq_Some_conv Let_def)
    note step = assms [unfolded ping_recv6_def t Option.bind.simps prod.case Inr sum.case Let_def ty]
    show ?thesis
    proof (cases "uint ty = ICMP6_ECHO_REPLY")
      case True
      then show ?thesis using step k1 replied
        by (auto simp: bind_eq_Some_conv split: if_splits)
    next
      case False
      then show ?thesis using step k1 reported
        by (auto simp: bind_eq_Some_conv split: if_splits)
    qed
  qed
qed

section \<open>The session of ping6\<close>

definition request6_enc :: encoder where
  "request6_enc e ident n = request6 (word_of_int ident) (word_of_int (int n))"

interpretation s6: session ping6_ops Sendto6 request6_bytes request6_enc
proof unfold_locales
  fix s :: ref6
  show "request6_bytes s = request6_enc (ref_endian s) (ping_ident (r_ping s)) (ping_num_xmit (r_ping s))"
    by (simp add: request6_bytes_def request6_enc_def)
qed (simp_all add: ping6_ops_def ping_recv6_kept)

lemma ping_finish6_kept: "kept s (snd (ping_finish6 s))" "r_ping (snd (ping_finish6 s)) = r_ping s"
  by (simp_all add: ping_finish6_def Let_def)

lemma echo_finish6_kept: "echo_finish6 s = Some (rc, s') \<Longrightarrow> kept s s'"
  using ping_finish6_kept(1) [of s] by (auto simp: echo_finish6_def split_def Let_def bind_eq_Some_conv split: if_splits)

lemma echo_finish6_lost: "ping_num_recv (r_ping s) = 0 \<Longrightarrow> \<exists>s'. echo_finish6 s = Some (1, s')"
  using ping_finish6_kept(2) [of s] by (simp add: echo_finish6_def split_def Let_def)

text \<open>C31. \<open>ping6\<close> keeps the same promise: when a run is over the packets on the wire are exactly the ICMPv6
  echo requests numbered from 0, in order, with a reading of the clock and the user's data as
  payload and the checksum left to the kernel. And with \<open>-c\<close> it ends with status 1 if nobody answers.\<close>

theorem ref6_session_wire:
  assumes "can_send True s" "filler_ok s" "ping_num_xmit (r_ping s) = 0"
  shows "(ping_run6 fuel echo_finish6 s = Some (r, s') \<longrightarrow>
      numbered Sendto6 request6_enc (packets (kern s)) s' \<and> static s' = static s \<and> within_count (r_preload s + 1) s') \<and>
    (ping_num_recv (r_ping s) = 0 \<and> ping_count (r_ping s) \<noteq> 0 \<and> (\<forall>k. os_poll (env (kern s)) k = PollTimeout) \<longrightarrow>
      (\<exists>r s'. ping_run6 (ping_count (r_ping s) + 2) echo_finish6 s = Some (r, s') \<and> (r = Inl 1 \<or> r = Inr 1)))"
proof -
  have r: "s6.ready (packets (kern s)) s"
    using assms numbered_start [OF assms(3), of Sendto6 request6_enc] by (simp add: s6.ready_def)
  show ?thesis
    unfolding ping_run6_def using s6.run_numbered [OF _ r echo_finish6_kept, where fuel = fuel and r = r and s' = s'] assms(3)
      s6.silent_run [OF r, of "ping_count (r_ping s) + 2" echo_finish6] echo_finish6_lost
    by simp
qed

definition sample_net6 :: "ipv6 ref_os" where
  "sample_net6 = \<lparr>n_from = (\<lambda>_. replicate 15 0 @ [1]), n_cmsg = (\<lambda>_. [(41, 52, 64)]), n_wrote = (\<lambda>_. 64),
     n_numeric = (\<lambda>a. Inr ''::1''), n_named = (\<lambda>_. None), n_byaddr = (\<lambda>_. None),
     n_getaddrinfo = (\<lambda>_. Some (replicate 15 0 @ [1], None)), n_malloc_ping = True,
     n_malloc_buffer = (\<lambda>n. Some (replicate n 0)), n_malloc_cktab = (\<lambda>n. Some (replicate n 0)),
     n_protocol = True, n_socket_raw = None, n_socket_dgram = None, n_setsockopt = (\<lambda>_ _. None),
     n_getuid = 0, n_setuid = None\<rparr>"

definition sample_ref6 :: ref6 where
  "sample_ref6 = (ref_boot6 sample_os sample_net6)\<lparr>r_ping := zero_ping6\<lparr>ping_count := 3, ping_datalen := 56, ping_ident := 4660,
     ping_cktab_size := 128\<rparr>, r_data_buffer := Some (map of_nat [0..<56])\<rparr>"

lemma sample_ref6_ok:
  "can_send True sample_ref6" "filler_ok sample_ref6" "ping_num_xmit (r_ping sample_ref6) = 0"
  "ping_num_recv (r_ping sample_ref6) = 0" "ping_count (r_ping sample_ref6) = 3"
  "\<forall>k. os_poll (env (kern sample_ref6)) k = PollTimeout"
  by (simp_all add: can_send_def filler_ok_def sample_ref6_def ref_boot6_def sample_net6_def sample_os_def zero_ping6_def
      ping_buflen_def PING_DATALEN_def icmp_sizes PING_HEADER_LEN_def sizeof_icmp6_hdr_def)

theorem ref6_session_wire_witness:
  "\<exists>r s'. ping_run6 5 echo_finish6 sample_ref6 = Some (r, s') \<and> numbered Sendto6 request6_enc [] s' \<and>
     (r = Inl 1 \<or> r = Inr 1)"
proof -
  have "packets (kern sample_ref6) = []" by (simp add: packets_def sample_ref6_def ref_boot6_def)
  moreover have "\<exists>r s'. ping_run6 5 echo_finish6 sample_ref6 = Some (r, s') \<and> (r = Inl 1 \<or> r = Inr 1)"
    using ref6_session_wire [OF sample_ref6_ok(1-3), of 5] sample_ref6_ok(4-6) by simp
  then obtain r s' where "ping_run6 5 echo_finish6 sample_ref6 = Some (r, s')" "r = Inl 1 \<or> r = Inr 1" by blast
  ultimately show ?thesis using ref6_session_wire [OF sample_ref6_ok(1-3), of 5 r s'] by auto
qed

section \<open>The filter\<close>

lemma filter_passes:
  "list_all (\<lambda>ty. filter_will_pass ty ping6_filter \<longleftrightarrow> ty \<in> {1, 2, 3, 4, 129}) [0..<256]"
  by (simp add: upt_rec filter_will_pass_def ping6_filter_def filter_set_pass_def filter_block_all_def icmp6_types)

text \<open>The filter \<open>ping6\<close> gives to the kernel lets through exactly the message types the program has a
  case for: echo replies and the four error types its table describes. So the line for an unknown type
  is never printed as long as the kernel honours the filter, as the comment in \<open>print_icmp_error\<close> says.\<close>

theorem filter_matches_cases:
  "filter (\<lambda>ty. filter_will_pass ty ping6_filter) [0..<256] =
     map (\<lambda>(ty, func). nat ty) icmp6_diag @ [nat ICMP6_ECHO_REPLY]"
proof -
  have "filter (\<lambda>ty. filter_will_pass ty ping6_filter) [0..<256] = filter (\<lambda>ty. ty \<in> {1, 2, 3, 4, 129}) [0..<256]"
    using filter_passes by (intro filter_cong) (simp_all add: list_all_iff)
  also have "\<dots> = [1, 2, 3, 4, 129]" by code_simp
  finally show ?thesis by (simp add: icmp6_diag_def icmp6_types)
qed

end
