(* ===== verification/Ref6_Command.thy ===== *)
theory Ref6_Command
  imports Ref6_Session Ref6_Main
begin

text \<open>
  The whole command \<open>ping6\<close>: options, socket, hosts one after the other. The theorem says what it has
  put on the wire when it ends, whatever the options, the hosts and the answers are.
\<close>

section \<open>One host\<close>

lemma ping_set_dest6_fields:
  assumes "ping_set_dest6 h s = (rc, s')"
  shows "kern s' = kern s" "same_setup s s'" "idle s' = idle s" "ping_datalen (r_ping s') = ping_datalen (r_ping s)"
    "rc = 0 \<Longrightarrow> \<exists>c. n_getaddrinfo (net_os s) h = Some (ping_dest (r_ping s'), c)"
  using assms by (auto simp: ping_set_dest6_def upd_ping_def same_setup_def idle_def filler_of_def split: option.splits prod.splits)

text \<open>A run from an idle state with a destination.\<close>

lemma run6_visit:
  assumes run: "ping_run6 fuel echo_finish6 s = Some (r, s')"
    and s: "idle s" "ping_datalen (r_ping s) = r_data_length s"
    and dest: "n_getaddrinfo (net_os s) h = Some (ping_dest (r_ping s), c)"
  shows "\<exists>w. packets (kern s') = packets (kern s) @ w \<and> visited Sendto6 request6_enc s h w \<and> same_setup s s' \<and>
    (\<forall>rc. r = Inr rc \<longrightarrow> w \<noteq> [] \<and> idle (ping_reset s')) \<and> (\<forall>st. r = Inl st \<longrightarrow> st \<noteq> 0)"
  by (rule s6.run_visit [OF run [unfolded ping_run6_def] s _ _ dest]) (use echo_finish6_kept in \<open>simp_all add: ping6_ops_def\<close>)

lemma ping_echo6_visit:
  assumes run: "ping_echo6 fuel h s = Some (r, s')" and s: "idle s"
  shows "\<exists>w. packets (kern s') = packets (kern s) @ w \<and> visited Sendto6 request6_enc s h w \<and> same_setup s s' \<and>
    (\<forall>rc. r = Inr rc \<longrightarrow> w \<noteq> [] \<and> idle (ping_reset s')) \<and> (\<forall>st. r = Inl st \<longrightarrow> st \<noteq> 0)"
proof -
  have quiet: ?thesis if "Some (die msg t) = Some (r, s')" "packets (kern t) = packets (kern s)" "same_setup s t" for msg t
    using die_quiet [of msg t r s'] that same_setup_trans [of s t s'] by (auto simp: visited_def)
  define st where "st = \<lparr>tmin = Fin 999999999, tmax = Fin 0, tsum = Fin 0, tsumsq = Fin 0\<rparr>"
  define s1 where "s1 = upd_ping (\<lambda>p. p\<lparr>ping_datalen := r_data_length s, ping_closure := st\<rparr>) s"
  have s1: "kern s1 = kern s" "same_setup s s1" "idle s1" "ping_datalen (r_ping s1) = r_data_length s1"
    using s by (simp_all add: s1_def upd_ping_def same_setup_def idle_def filler_of_def)
  obtain rc s2 where d: "ping_set_dest6 h s1 = (rc, s2)" by fastforce
  note f = ping_set_dest6_fields [OF d]
  have same: "same_setup s s2" using same_setup_trans [OF s1(2) f(2)] .
  note run1 = run [unfolded ping_echo6_def Let_def, folded st_def, folded s1_def, unfolded d prod.case]
  show ?thesis
  proof (cases "has_opt s OPT_FLOOD \<and> has_opt s OPT_INTERVAL")
    case True
    then show ?thesis using quiet [of "''-f and -i incompatible options''" s] run1 by simp
  next
    case go: False
    show ?thesis
    proof (cases "rc = 0")
      case False
      then show ?thesis using quiet [of "''unknown host '' @ h" s2] run1 go same f(1) s1(1) by simp
    next
      case True
      show ?thesis
      proof (cases "n_numeric (net_os s2) (ping_dest (r_ping s2))")
        case (Inl errmsg)
        then show ?thesis using quiet [of "''getnameinfo: '' @ errmsg" s2] run1 go True same f(1) s1(1) by simp
      next
        case (Inr buffer)
        then obtain t where t: "ping_run6 fuel echo_finish6 t = Some (r, s')" "same_setup s2 t" "idle t = idle s2"
          "packets (kern t) = packets (kern s2)" "r_ping t = r_ping s2" "r_data_length t = r_data_length s2" "net_os t = net_os s2"
          using run1 go True by (simp split: if_split_asm)
        obtain c where c: "n_getaddrinfo (net_os s1) h = Some (ping_dest (r_ping s2), c)" using f(5) True by blast
        have "idle t" "ping_datalen (r_ping t) = r_data_length t" using t f s1 by (simp_all add: same_setup_def)
        moreover have "n_getaddrinfo (net_os t) h = Some (ping_dest (r_ping t), c)"
          using c t f(2) by (simp add: same_setup_def)
        ultimately obtain w where w: "packets (kern s') = packets (kern t) @ w" "visited Sendto6 request6_enc t h w"
          "same_setup t s'" "\<forall>rc. r = Inr rc \<longrightarrow> w \<noteq> [] \<and> idle (ping_reset s')" "\<forall>st. r = Inl st \<longrightarrow> st \<noteq> 0" using run6_visit [OF t(1)] by blast
        have st: "same_setup s t" by (rule same_setup_trans [OF same t(2)])
        then show ?thesis
          using w t(4) f(1) s1(1) visited_setup [OF st, of Sendto6 request6_enc h w] same_setup_trans [OF st w(3)]
          by (intro exI [of _ w]) simp
      qed
    qed
  qed
qed

interpretation h6: visitor "ping_echo6 fuel" Sendto6 request6_enc for fuel
  by unfold_locales (rule ping_echo6_visit)

section \<open>Before the first host\<close>

lemma parse_opt6_unsent:
  assumes "parse_opt6 key arg s = Some (r, s')"
  shows "unsent s s' \<and> (\<forall>st. r = Inl st \<longrightarrow> st \<noteq> 0)"
proof -
  have size: "unsent s (u\<lparr>r_data_length := nat k\<rparr>)" if "k \<le> PING6_MAX_DATALEN" "unsent s u" for k u
    using that by (simp add: unsent_def PING6_MAX_DATALEN_def sizeof_icmp6_hdr_def nat_le_iff)
  have interval: ?thesis if "unless_ended (ping_cvt_number arg 0 False (s\<lparr>r_options := x\<rparr>)) (\<lambda>n u. Some
      (if b n u then die msg (u\<lparr>r_interval := g n\<rparr>) else (Inr True, u\<lparr>r_interval := g n\<rparr>))) = Some (r, s')" for x b msg g
  proof -
    obtain q u where q: "ping_cvt_number arg 0 False (s\<lparr>r_options := x\<rparr>) = (q, u)" by fastforce
    have "unsent s u" using cvt_number_unsent [OF q] unsent_trans [of s "s\<lparr>r_options := x\<rparr>" u] by (simp add: unsent_fields)
    then show ?thesis using that q cvt_number_unsent [OF q]
      by (cases q) (auto simp: unless_ended_def die_def unsent_fields split: if_split_asm)
  qed
  let ?ok = "\<lambda>x. x = Some (r, s') \<longrightarrow> unsent s s' \<and> (\<forall>st. r = Inl st \<longrightarrow> st \<noteq> 0)"
  have choose: "?ok (if c then x else y)" if "c \<Longrightarrow> ?ok x" "\<not> c \<Longrightarrow> ?ok y" for c x y using that by simp
  have number: "?ok (set_number (ping_cvt_number arg m zero t) f)"
    if "unsent s t" "\<And>k u. m \<noteq> 0 \<longrightarrow> k \<le> m \<Longrightarrow> unsent s u \<Longrightarrow> unsent s (f k u)" for m zero t f
    using set_number_unsent [of arg m zero t f r s' s] that by blast
  have "?ok (parse_opt6 key arg s)"
    unfolding parse_opt6_def Let_def
    by (intro choose) ((rule number; simp add: unsent_fields size PING6_MAX_DATALEN_def sizeof_icmp6_hdr_def) | (rule impI, rule pattern_unsent, assumption) |
      (rule impI, rule interval, assumption) | (auto simp: die_def argp_error_def unsent_fields split: prod.splits; fail))+
  then show ?thesis using assms by simp
qed

lemma ping_init6_unsent:
  assumes "ping_init6 ty ident s = (r, s')"
  shows "unsent s s'" "r = Inl st \<Longrightarrow> st = 1"
    "r = Inr True \<Longrightarrow> ping_buffer (r_ping s') = None \<and> ping_cktab (r_ping s') = None \<and> ping_num_xmit (r_ping s') = 0 \<and>
       0 < ping_cktab_size (r_ping s')"
  using assms
  by (auto simp: ping_init6_def Let_def die_errno_def zero_ping6_def PING_CKTABSIZE_def split_def split: option.splits if_splits)

lemma traffic_class_unsent: "set_traffic_class s = (r, s') \<Longrightarrow> unsent s s' \<and> r_ping s' = r_ping s \<and> (\<forall>st. r = Inl st \<longrightarrow> st = 1)"
  by (auto simp: set_traffic_class_def die_errno_def split: if_split_asm option.splits)

section \<open>The whole command\<close>

lemma serve_hosts6_rounds:
  assumes run: "serve_hosts6 fuel hosts s = Some (r, s')"
    and s: "packets (kern s) = []" "r_data_buffer s = None" "r_data_length s \<le> 65527" "memory (net_os s)" "r_ping_type s = Echo"
    and p: "ping_buffer (r_ping s) = None" "ping_cktab (r_ping s) = None" "ping_num_xmit (r_ping s) = 0" "0 < ping_cktab_size (r_ping s)"
  shows "\<exists>ws. rounds Sendto6 request6_enc hosts s' ws \<and> (\<forall>rc. r = Inr rc \<longrightarrow> length ws = length hosts \<and> [] \<notin> set ws) \<and> (\<forall>st. r = Inl st \<longrightarrow> st \<noteq> 0)"
proof -
  have quiet: ?thesis if "r = Inl 1" "packets (kern s') = []"
    using that by (intro exI [of _ "[]"]) (simp add: rounds_def)
  show ?thesis
  proof (cases "n_setuid (net_os s)")
    case (Some err)
    then show ?thesis using run s(1) by (intro quiet) (auto simp: serve_hosts6_def die_errno_def)
  next
    case None
    define s3 where "s3 = (if r_count s \<noteq> 0 then ping_set_count (r_count s) s else s)"
    define s4 where "s4 = (if has_opt s3 OPT_INTERVAL then ping_set_interval (r_interval s3) s3 else s3)"
    define s5 where "s5 = warn_setsockopt (0 < r_ttl s4) ''IPV6_UNICAST_HOPS'' (r_ttl s4) ''setsockopt(IPV6_HOPLIMIT)'' s4"
    obtain q s6 where q: "set_traffic_class s5 = (q, s6)" by fastforce
    note tc = traffic_class_unsent [OF q]
    have "unsent s s5" by (simp add: s5_def s4_def s3_def)
    then have u6: "unsent s s6" using tc unsent_trans by blast
    have p6: "ping_buffer (r_ping s6) = None" "ping_cktab (r_ping s6) = None" "ping_num_xmit (r_ping s6) = 0" "0 < ping_cktab_size (r_ping s6)"
      using tc p by (simp_all add: s5_def s4_def s3_def)
    have rest: "unless_ended (q, s6) (\<lambda>_ s6. do { s7 \<leftarrow> init_data_buffer (r_patptr s6) (nat (r_pattern_len s6)) s6;
        ping_hosts (ping_echo6 fuel) hosts 0 s7 }) = Some (r, s')"
      by (rule run [unfolded serve_hosts6_def None option.case Let_def, folded s3_def, folded s4_def, folded s5_def, unfolded q])
    show ?thesis
    proof (cases q)
      case (Inl st)
      then show ?thesis using rest tc u6 s(1) by (intro quiet) (auto simp: unless_ended_def unsent_def)
    next
      case (Inr x)
      then obtain s7 where d: "init_data_buffer (r_patptr s6) (nat (r_pattern_len s6)) s6 = Some s7"
        and h: "ping_hosts (ping_echo6 fuel) hosts 0 s7 = Some (r, s')"
        using rest by (auto simp: unless_ended_def bind_eq_Some_conv)
      note f = data_buffer_filled [OF d]
      have "r_data_buffer s6 = None" using u6 s(2) by (simp add: unsent_def)
      note f = f [OF this]
      have "idle s7" "packets (kern s7) = []" using f p6 u6 s by (simp_all add: idle_def unsent_def)
      then show ?thesis by (rule h6.hosts_rounds [OF h])
    qed
  qed
qed

text \<open>C29. The whole command. For every command line, every list of hosts and everything the system and the
  network do, as long as memory lasts: when \<open>ping6\<close> ends the packets on the wire are, host by host in the order
  of the command line, echo requests to the address the host resolves to, numbered from 0 again for
  each, with a reading of the clock and the user's data. Exit status 0 means that every host has
  been sent at least one.\<close>

theorem command6_wire:
  assumes "ref_main6 fuel keys hosts (ref_boot6 e n) = Some (status, s')" "memory n"
  shows "\<exists>ws. rounds Sendto6 request6_enc hosts s' ws \<and> (status = 0 \<longrightarrow> length ws = length hosts \<and> [] \<notin> set ws)"
proof -
  define s where "s = (if n_getuid (net_os (ref_boot6 e n)) = 0 then (ref_boot6 e n)\<lparr>r_is_root := True\<rparr> else ref_boot6 e n)"
  have s: "packets (kern s) = []" "r_data_buffer s = None" "r_data_length s \<le> 65527" "memory (net_os s)" "r_ping_type s = Echo"
    using assms(2) by (simp_all add: s_def ref_boot6_def packets_def PING_DATALEN_def)
  obtain q1 s1 where q1: "parse_opts parse_opt6 (if hosts = [] then keys @ [(ARGP_KEY_NO_ARGS, [])] else keys) s = Some (q1, s1)"
    using assms(1) by (auto simp: ref_main6_def bind_eq_Some_conv s_def Let_def)
  have u1: "unsent s s1 \<and> (\<forall>st. q1 = Inl st \<longrightarrow> st \<noteq> 0)"
    by (rule parse_opts_unsent [OF _ q1]) (rule parse_opt6_unsent)
  have quiet: ?thesis if "status \<noteq> 0" "unsent s s'"
    using that s(1) by (intro exI [of _ "[]"]) (simp add: rounds_def unsent_def)
  obtain q2 s2 where q2: "ping_init6 0 (os_getpid (env (kern s1))) s1 = (q2, s2)" by fastforce
  note u2 = ping_init6_unsent [OF q2]
  have u: "unsent s s2" using u1 u2(1) unsent_trans by blast
  note run = assms(1) [unfolded ref_main6_def Let_def, folded s_def, unfolded q1 Option.bind.simps]
  consider (parse) st where "q1 = Inl st" | (init) st where "q1 = Inr ()" "q2 = Inl st" | (null) "q1 = Inr ()" "q2 = Inr False"
    | (go) "q1 = Inr ()" "q2 = Inr True" by (metis (full_types) old.sum.exhaust old.unit.exhaust)
  then show ?thesis
  proof cases
    case parse
    then show ?thesis using run u1 by (intro quiet) (auto simp: unless_ended_def)
  next
    case init
    then show ?thesis using run u u2(2) q2 by (intro quiet) (auto simp: unless_ended_def)
  next
    case null
    then show ?thesis using run u q2 by (intro quiet) (auto simp: unless_ended_def)
  next
    case go
    then have result: "(do { r2 \<leftarrow> serve_hosts6 fuel hosts s2;
        case r2 of (Inl status, s9) \<Rightarrow> Some (status, s9) | (Inr status, s9) \<Rightarrow> Some (status, s9) }) = Some (status, s')"
      using run q2 by (simp add: unless_ended_def)
    then obtain r s9 where r9: "serve_hosts6 fuel hosts s2 = Some (r, s9)" by (cases "serve_hosts6 fuel hosts s2") auto
    then have r: "serve_hosts6 fuel hosts s2 = Some (r, s')" "r = Inl status \<or> r = Inr status"
      using result by (auto split: sum.splits)
    have "packets (kern s2) = []" "r_data_buffer s2 = None" "r_data_length s2 \<le> 65527" "memory (net_os s2)" "r_ping_type s2 = Echo"
      using s u by (simp_all add: unsent_def)
    with u2(3) [OF go(2)] have "\<exists>ws. rounds Sendto6 request6_enc hosts s' ws \<and> (\<forall>rc. r = Inr rc \<longrightarrow> length ws = length hosts \<and> [] \<notin> set ws) \<and>
        (\<forall>st. r = Inl st \<longrightarrow> st \<noteq> 0)"
      by (intro serve_hosts6_rounds [OF r(1)]) simp_all
    then show ?thesis using r(2) by (elim exE) (rule exI, auto)
  qed
qed

text \<open>A host that nothing is heard from, with \<open>-c\<close>: the call for it ends with status 1.\<close>

lemma ping_echo6_ends:
  assumes s: "idle s" "ping_num_recv (r_ping s) = 0" "ping_count (r_ping s) \<noteq> 0" "ping_count (r_ping s) + 1 < fuel"
    and silent: "\<forall>k. os_poll (env (kern s)) k = PollTimeout"
    and opts: "\<not> (has_opt s OPT_FLOOD \<and> has_opt s OPT_INTERVAL)"
    and addr: "n_getaddrinfo (net_os s) h = Some (a, c)" "n_numeric (net_os s) a = Inr name"
  shows "\<exists>r s'. ping_echo6 fuel h s = Some (r, s') \<and> (r = Inl 1 \<or> r = Inr 1)"
proof -
  define st where "st = \<lparr>tmin = Fin 999999999, tmax = Fin 0, tsum = Fin 0, tsumsq = Fin 0\<rparr>"
  define s1 where "s1 = upd_ping (\<lambda>p. p\<lparr>ping_datalen := r_data_length s, ping_closure := st\<rparr>) s"
  define s2 where "s2 = upd_ping (\<lambda>p. p\<lparr>ping_dest := a, ping_hostname := (case c of Some c \<Rightarrow> c | None \<Rightarrow> h)\<rparr>) s1"
  have d: "ping_set_dest6 h s1 = (0, s2)" using addr by (simp add: ping_set_dest6_def s2_def s1_def upd_ping_def)
  have f: "idle s2" "ping_datalen (r_ping s2) = r_data_length s2" "env (kern s2) = env (kern s)" "net_os s2 = net_os s"
    "ping_num_recv (r_ping s2) = 0" "ping_count (r_ping s2) = ping_count (r_ping s)" "ping_dest (r_ping s2) = a"
    using s by (simp_all add: s2_def s1_def upd_ping_def idle_def filler_of_def)
  obtain t where "ping_echo6 fuel h s = ping_run6 fuel echo_finish6 t" "idle t = idle s2" "r_ping t = r_ping s2"
    "r_data_length t = r_data_length s2" "env (kern t) = env (kern s2)"
    unfolding ping_echo6_def Let_def st_def [symmetric] s1_def [symmetric] d prod.case using opts addr f(4,7)
    by (simp split: if_split_asm)
  then show ?thesis using s6.silent_visit [of t fuel echo_finish6] f echo_finish6_lost s silent by (simp add: ping_run6_def ping6_ops_def)
qed

text \<open>\<open>ping6 -c 1 localhost\<close> run by root, without an answer.\<close>

definition sample_start6 :: ref6 where
  "sample_start6 = (ref_boot6 sample_os sample_net6)\<lparr>r_is_root := True, r_count := 1, kern := (boot sample_os)\<lparr>k_clock := 1\<rparr>,
     r_ping := zero_ping6\<lparr>ping_count := 1, ping_interval := PING_DEFAULT_INTERVAL, ping_datalen := sizeof_timeval,
       ping_ident := 4660, ping_cktab_size := PING_CKTABSIZE, ping_start_time := (100, 0)\<rparr>,
     r_data_buffer := Some (map of_nat [0..<56])\<rparr>"

lemma sample_parsed:
  "parse_opts parse_opt6 [(of_char (CHR ''c''), ''1'')] s = Some (Inr (), s\<lparr>r_count := 1\<rparr>)"
  by (simp add: parse_opt6_def set_number_def unless_ended_def one_probe)

lemma sample_served:
  "ref_main6 3 [(of_char (CHR ''c''), ''1'')] [''localhost''] (ref_boot6 sample_os sample_net6) =
     (case ping_echo6 3 ''localhost'' sample_start6 of
        Some (Inl st, t) \<Rightarrow> Some (st, t) | Some (Inr rc, t) \<Rightarrow> Some (rc, ping_reset t) | None \<Rightarrow> None)"
proof -
  have "ping_init6 0 4660 ((ref_boot6 sample_os sample_net6)\<lparr>r_is_root := True, r_count := 1\<rparr>) =
      (Inr True, sample_start6\<lparr>r_data_buffer := None, r_ping := (r_ping sample_start6)\<lparr>ping_count := DEFAULT_PING_COUNT\<rparr>\<rparr>)"
    by (simp add: ping_init6_def zero_ping6_def sample_start6_def ref_boot6_def sample_net6_def sample_os_def gettimeofday_def clock_gettime_def boot_def Let_def)
  moreover have "serve_hosts6 3 [''localhost''] (sample_start6\<lparr>r_data_buffer := None, r_ping := (r_ping sample_start6)\<lparr>ping_count := DEFAULT_PING_COUNT\<rparr>\<rparr>) =
      ping_hosts (ping_echo6 3) [''localhost''] 0 sample_start6"
    by (simp add: serve_hosts6_def zero_ping6_def sample_start6_def ref_boot6_def sample_net6_def ping_set_count_def has_opt_def OPT_INTERVAL_def
        OPT_TCLASS_def warn_setsockopt_def set_traffic_class_def init_data_buffer_def unless_ended_def default_size Let_def)
  moreover have "n_getuid (net_os (ref_boot6 sample_os sample_net6)) = 0"
    "os_getpid (env (kern ((ref_boot6 sample_os sample_net6)\<lparr>r_is_root := True, r_count := 1\<rparr>))) = 4660"
    by (simp_all add: ref_boot6_def sample_net6_def sample_os_def)
  ultimately have main: "ref_main6 3 [(of_char (CHR ''c''), ''1'')] [''localhost''] (ref_boot6 sample_os sample_net6) =
      (do { r2 \<leftarrow> ping_hosts (ping_echo6 3) [''localhost''] 0 sample_start6;
        case r2 of (Inl status, s9) \<Rightarrow> Some (status, s9) | (Inr status, s9) \<Rightarrow> Some (status, s9) })"
    by (simp only: ref_main6_def Let_def sample_parsed Option.bind.simps unless_ended_def prod.case sum.case if_True if_False
        list.distinct refl)
  show ?thesis unfolding main
    by (cases "ping_echo6 3 ''localhost'' sample_start6") (auto simp: unless_ended_def split: sum.splits)
qed

theorem command6_wire_witness:
  "\<exists>s' ws. ref_main6 3 [(of_char (CHR ''c''), ''1'')] [''localhost''] (ref_boot6 sample_os sample_net6) = Some (1, s') \<and>
     rounds Sendto6 request6_enc [''localhost''] s' ws"
proof -
  have m: "memory sample_net6" by (simp add: memory_def sample_net6_def)
  have "\<exists>r t. ping_echo6 3 ''localhost'' sample_start6 = Some (r, t) \<and> (r = Inl 1 \<or> r = Inr 1)"
    by (rule ping_echo6_ends) (use m in \<open>simp_all add: sample_start6_def idle_def filler_of_def zero_ping6_def ref_boot6_def
      sample_os_def has_opt_def PING_CKTABSIZE_def default_size sample_net6_def OPT_FLOOD_def\<close>)
  then obtain s' where s': "ref_main6 3 [(of_char (CHR ''c''), ''1'')] [''localhost''] (ref_boot6 sample_os sample_net6) = Some (1, s')"
    unfolding sample_served by auto
  then show ?thesis using command6_wire [OF s' m] by auto
qed

end
