(* ===== verification/Ref6_Errors.thy ===== *)
theory Ref6_Errors
  imports Ref6_Session
begin

text \<open>
  What \<open>ping6\<close> does with an ICMPv6 error that quotes one of its own requests. The receive buffer has the
  size of a request, so it holds the first bytes of the report only, and the code looks for the
  quoted request at fixed places without comparing them with the length received. The theorem says
  for which sizes of the payload those places exist.
\<close>

section \<open>Reading through a frame\<close>

lemma reads_same:
  assumes "ping_buffer (r_ping s') = ping_buffer (r_ping s)" "env (kern s') = env (kern s)"
  shows "byte_at s' i = byte_at s i" "u16_at s' i = u16_at s i" "u32_at s' i = u32_at s i" "bytes_at s' i n = bytes_at s i n"
  using assms by (simp_all add: byte_at_def u16_at_def u32_at_def bytes_at_def ref_endian_def)

lemma reads_frame:
  assumes "frame s s'"
  shows "byte_at s' i = byte_at s i" "u16_at s' i = u16_at s i" "u32_at s' i = u32_at s i" "bytes_at s' i n = bytes_at s i n"
    "has_opt s' o' = has_opt s o'" "ref_endian s' = ref_endian s"
proof -
  obtain c where "r_ping s' = (r_ping s)\<lparr>ping_closure := c\<rparr>" by (rule frame_ping [OF assms])
  then have b: "ping_buffer (r_ping s') = ping_buffer (r_ping s)" by simp
  note r = reads_same [OF b frame_kernel(1) [OF assms]]
  show "byte_at s' i = byte_at s i" "u16_at s' i = u16_at s i" "u32_at s' i = u32_at s i" "bytes_at s' i n = bytes_at s i n"
    by (rule r)+
  show "has_opt s' o' = has_opt s o'" "ref_endian s' = ref_endian s"
    by (simp_all add: has_opt_def ref_endian_def frame_fields [OF assms] frame_kernel [OF assms])
qed

lemma reads_out [simp]:
  "byte_at (out t s) i = byte_at s i" "u16_at (out t s) i = u16_at s i" "u32_at (out t s) i = u32_at s i"
  "bytes_at (out t s) i n = bytes_at s i n" "has_opt (out t s) o' = has_opt s o'" "ref_endian (out t s) = ref_endian s"
  by (simp_all add: byte_at_def u16_at_def u32_at_def bytes_at_def has_opt_def ref_endian_def out_def)

section \<open>A report in the buffer\<close>

text \<open>The buffer holds the first \<open>8 + n\<close> bytes of a report.\<close>

definition holds :: "nat \<Rightarrow> byte list \<Rightarrow> ref6 \<Rightarrow> bool" where
  "holds n report s \<longleftrightarrow> ping_buffer (r_ping s) = Some (take (8 + n) report) \<and> 8 + n \<le> length report"

lemma holds_reads:
  assumes "holds n report s"
  shows "byte_at s i = (if i < 8 + n then Some (report ! i) else None)"
    "bytes_at s i k = (if i + k \<le> 8 + n then Some (take k (drop i report)) else None)"
    "u16_at s i = (if i + 2 \<le> 8 + n then Some (load16 (ref_endian s) (report ! i) (report ! (i + 1))) else None)"
    "i + 4 \<le> 8 + n \<Longrightarrow> \<exists>x. u32_at s i = Some x"
proof -
  have b: "ping_buffer (r_ping s) = Some (take (8 + n) report)" and l: "length (take (8 + n) report) = 8 + n"
    using assms by (simp_all add: holds_def)
  show "byte_at s i = (if i < 8 + n then Some (report ! i) else None)"
    by (simp add: byte_at_def b peek_def l del: length_take)
  show "bytes_at s i k = (if i + k \<le> 8 + n then Some (take k (drop i report)) else None)"
    by (simp add: bytes_at_def b read_range_def l drop_take min_absorb1 del: length_take)
  show "u16_at s i = (if i + 2 \<le> 8 + n then Some (load16 (ref_endian s) (report ! i) (report ! (i + 1))) else None)"
    by (simp add: u16_at_def b peek16_def l del: length_take)
  show "i + 4 \<le> 8 + n \<Longrightarrow> \<exists>x. u32_at s i = Some x"
    by (simp add: u32_at_def b peek32_def read_range_def l del: length_take)
qed

lemma holds_frame: "frame s s' \<Longrightarrow> holds n report s' = holds n report s"
  by (erule frame_ping) (simp add: holds_def)

text \<open>The report: an ICMPv6 header, the header of the quoted packet, the quoted request. What matters of it.\<close>

definition error_report :: "byte list \<Rightarrow> byte list \<Rightarrow> u16 \<Rightarrow> u16 \<Rightarrow> byte list \<Rightarrow> byte list" where
  "error_report hdr ip ident sq payload = hdr @ ip @ request6 ident sq payload"

definition quotes :: "ipv6 \<Rightarrow> u16 \<Rightarrow> byte list \<Rightarrow> bool" where
  "quotes dest ident report \<longleftrightarrow> uint (report ! 0) \<in> {1, 2, 3, 4} \<and> take 16 (drop 32 report) = dest \<and> length dest = 16 \<and>
     report ! 14 = 58 \<and> report ! 48 = 128 \<and> report ! 52 = hi8 ident \<and> report ! 53 = lo8 ident"

lemma error_report_quotes:
  assumes "length hdr = 8" "uint (hdr ! 0) \<in> {1, 2, 3, 4}" "length ip = 40" "ip ! 6 = 58"
  shows "quotes (drop 24 ip) ident (error_report hdr ip ident sq payload)"
  using assms by (simp add: quotes_def error_report_def request6_def nth_append)

lemma quoted_dest:
  assumes "quotes dest ident report" "j + 4 \<le> 16"
  shows "take 4 (drop (32 + j) report) = take 4 (drop j dest)"
proof -
  have "take 4 (drop j (take 16 (drop 32 report))) = take 4 (drop (32 + j) report)"
    using assms(2) by (simp add: drop_take min_absorb1 add.commute)
  then show ?thesis using assms(1) by (simp add: quotes_def)
qed

lemma same_words_report:
  assumes "holds n report s" "quotes dest ident report"
  shows "same_words 4 32 dest s = (if 40 \<le> n then Some True else None)"
proof -
  note b = holds_reads(2) [OF assms(1)]
  have q: "take 4 (drop 32 report) = take 4 dest" "take 4 (drop 36 report) = take 4 (drop 4 dest)"
    "take 4 (drop 40 report) = take 4 (drop 8 dest)" "take 4 (drop 44 report) = take 4 (drop 12 dest)"
    using quoted_dest [OF assms(2), of 0] quoted_dest [OF assms(2), of 4] quoted_dest [OF assms(2), of 8]
      quoted_dest [OF assms(2), of 12] by simp_all
  have four: "same_words 4 32 dest s = same_words (Suc (Suc (Suc (Suc 0)))) 32 dest s" by (simp add: eval_nat_numeral)
  show ?thesis unfolding four same_words.simps b by (simp add: q)
qed

lemma my_echo_reply_report:
  assumes "holds n report s" "quotes (ping_dest (r_ping s)) (word_of_int (ping_ident (r_ping s))) report"
  shows "my_echo_reply6 s = (if 46 \<le> n then Some True else None)"
proof -
  let ?ident = "word_of_int (ping_ident (r_ping s)) :: u16"
  have id: "load16 e (hi8 ?ident) (lo8 ?ident) = htons e ?ident" for e
    using load_store16 [of e "htons e ?ident"] by (simp add: store_htons)
  have bytes: "report ! 14 = 58" "report ! 48 = 128" "report ! 52 = hi8 ?ident" "report ! 53 = lo8 ?ident"
    using assms(2) by (simp_all add: quotes_def)
  show ?thesis
    using same_words_report [OF assms] holds_reads(1,3) [OF assms(1)]
    by (simp add: my_echo_reply6_def Let_def ip6_layout icmp6_layout icmp6_types bytes id)
qed

section \<open>The diagnostics\<close>

lemma ip6_fields_report:
  assumes "holds n report s" "40 \<le> n"
  shows "\<exists>t. ip6_fields 8 s = Some t"
proof -
  have ntop: "length (take 16 (drop i report)) = 16 \<Longrightarrow> \<exists>t. inet_ntop AF_INET6 (take 16 (drop i report)) INET6_ADDRSTRLEN = Some t" for i
    using inet_ntop6_text [of "take 16 (drop i report)"] by blast
  have l: "48 \<le> length report" using assms by (simp add: holds_def)
  obtain a b where "inet_ntop AF_INET6 (take 16 (drop 32 report)) INET6_ADDRSTRLEN = Some a"
    "inet_ntop AF_INET6 (take 16 (drop 16 report)) INET6_ADDRSTRLEN = Some b"
    using ntop [of 32] ntop [of 16] l by auto
  moreover obtain x where "u32_at s 8 = Some x" using holds_reads(4) [OF assms(1), of 8] assms(2) by auto
  ultimately show ?thesis using assms(2)
    by (simp add: ip6_fields_def ip6_layout holds_reads(1-3) [OF assms(1)] Let_def)
qed

lemma print_ip_data6_report:
  assumes "holds n report s" "quotes dest ident report" "46 \<le> n"
  shows "(\<exists>s'. print_ip_data6 s = Some s') \<longleftrightarrow> 48 \<le> n"
proof -
  have bytes: "report ! 14 = 58" "report ! 48 = 128" using assms(2) by (simp_all add: quotes_def)
  have h: "holds n report (out t s)" for t using assms(1) by (simp add: holds_def out_def)
  obtain t where "ip6_fields 8 s = Some t" using ip6_fields_report [OF assms(1)] assms(3) by auto
  then show ?thesis using assms(3)
    by (auto simp: print_ip_data6_def quoted_icmp6_def ip6_layout icmp6_layout icmp6_types bytes Let_def
        holds_reads(1-3) [OF assms(1)])
qed

lemma print_icmp_error6_report:
  assumes "holds n report s" "quotes dest ident report" "46 \<le> n"
  shows "(\<exists>s'. print_icmp_error6 from len s = Some s') \<longleftrightarrow> (has_opt s OPT_VERBOSE \<longrightarrow> 48 \<le> n)"
proof -
  obtain name s1 where nm: "ipaddr2str from s = (name, s1)" by fastforce
  define s2 where "s2 = out (dec len @ '' bytes from '' @ name @ '': '') s1"
  have f2: "frame s s2" using frame_ipaddr2str [of s "from" s] nm by (simp add: s2_def)
  have h2: "holds n report s2" using holds_frame [OF f2] assms(1) by simp
  have ty: "byte_at s2 0 = Some (report ! 0)" "byte_at s2 1 = Some (report ! 1)" using holds_reads(1) [OF h2] by simp_all
  obtain mtu where mtu: "u32_at s2 4 = Some mtu" using holds_reads(4) [OF h2, of 4] by auto
  have "uint (report ! 0) \<in> {1, 2, 3, 4}" using assms(2) by (simp add: quotes_def)
  then obtain t func s3 where d: "find (\<lambda>(t, _). t = uint (report ! 0)) icmp6_diag = Some (t, func)" "func s2 = Some s3"
    using ty mtu
    by (auto simp: icmp6_diag_def icmp6_types print_dst_unreach_def print_packet_too_big_def print_time_exceeded_def
        print_param_prob_def describe_code_def icmp6_layout)
  have f3: "frame s s3" using find_diag6 [OF d(1)] d(2) frame_diag6 [of s2 s3 s] f2 by auto
  have h3: "holds n report s3" using holds_frame [OF f3] assms(1) by simp
  have "print_icmp_error6 from len s = (if has_opt s3 OPT_VERBOSE then print_ip_data6 s3 else Some s3)"
    unfolding print_icmp_error6_def nm Let_def prod.case s2_def [symmetric] icmp6_layout ty(1) Option.bind.simps d(1) option.case d(2) ..
  then show ?thesis
    using print_ip_data6_report [OF h3 assms(2,3)] reads_frame(5) [OF f3, of OPT_VERBOSE] by simp
qed

section \<open>Receiving the report\<close>

text \<open>C33. \<open>ping6\<close> has undefined behaviour on the ICMPv6 errors its own short requests provoke. When a report
  that quotes such a request in full arrives, \<open>ping_recv\<close> stays inside the receive buffer exactly when the
  payload has at least 46 bytes, 48 with \<open>-v\<close>; for smaller ones, which \<open>-s\<close> allows, it reads past the end
  of the buffer, since the buffer is as long as a request and the length received is never looked at.\<close>

theorem error_report_safe_iff:
  fixes s :: ref6 and hdr ip payload :: "byte list" and sq :: u16
  defines "n \<equiv> ping_datalen (r_ping s)"
  defines "ident \<equiv> word_of_int (ping_ident (r_ping s))"
  assumes report: "os_recv (env (kern s)) (k_recv (kern s)) = RecvData (error_report hdr ip ident sq payload)"
    and hdr: "length hdr = 8" "uint (hdr ! 0) \<in> {1, 2, 3, 4}"
    and ip: "length ip = 40" "ip ! 6 = 58" "drop 24 ip = ping_dest (r_ping s)"
    and payload: "length payload = n"
    and buffer: "ping_buffer (r_ping s) = Some buf" "length buf = 8 + n" "n \<le> 65527"
  shows "(\<exists>s'. ping_recv6 s = Some (0, s')) = (if has_opt s OPT_VERBOSE then 48 \<le> n else 46 \<le> n) \<and>
    (ping_recv6 s = None) = (if has_opt s OPT_VERBOSE then n < 48 else n < 46)"
proof -
  let ?d = "error_report hdr ip ident sq payload" and ?k = "k_recv (kern s)"
  define s1 where "s1 = upd_ping (\<lambda>p. p\<lparr>ping_buffer := Some (take (8 + n) ?d), ping_from := n_from (net_os s) ?k\<rparr>)
    (s\<lparr>kern := (kern s)\<lparr>k_recv := ?k + 1\<rparr>\<rparr>)"
  have l: "length ?d = 56 + n" by (simp add: error_report_def hdr(1) ip(1) payload)
  have len: "ping_buflen True n = 8 + n" using buflen_small [of n True] buffer(3) by simp
  have take: "take_datagram True s = Some (Inr (8 + n), s1)"
    unfolding take_datagram_def Let_def report
    using buffer l by (simp add: len n_def [symmetric] write_range_def upd_ping_def s1_def min_absorb2)
  have h: "holds n ?d s1" using l by (simp add: holds_def s1_def upd_ping_def)
  have same: "ping_dest (r_ping s1) = ping_dest (r_ping s)" "ping_ident (r_ping s1) = ping_ident (r_ping s)"
    "has_opt s1 OPT_VERBOSE = has_opt s OPT_VERBOSE" by (simp_all add: s1_def upd_ping_def has_opt_def)
  have q: "quotes (ping_dest (r_ping s1)) (word_of_int (ping_ident (r_ping s1))) ?d"
    using error_report_quotes [OF hdr ip(1,2), of ident sq payload] ip(3) by (simp add: same ident_def)
  have ty: "byte_at s1 icmp6_type_off = Some (hdr ! 0)"
    using holds_reads(1) [OF h, of 0] hdr(1) by (simp add: icmp6_layout error_report_def nth_append)
  have ne: "uint (hdr ! 0) \<noteq> ICMP6_ECHO_REPLY" using hdr(2) by (auto simp: icmp6_types)
  have "ping_recv6 s = do {
      ours \<leftarrow> my_echo_reply6 s1;
      (if \<not> ours then Some (- 1, s1)
       else do { s2 \<leftarrow> print_icmp_error6 (ping_from (r_ping s1)) (int (8 + n)) s1; Some (0, s2) }) }"
    unfolding ping_recv6_def take Option.bind.simps prod.case sum.case Let_def ty using ne by simp
  then have eq: "ping_recv6 s = (if 46 \<le> n then do { s2 \<leftarrow> print_icmp_error6 (ping_from (r_ping s1)) (int (8 + n)) s1; Some (0, s2) } else None)"
    using my_echo_reply_report [OF h q] by simp
  show ?thesis
  proof (cases "46 \<le> n")
    case True
    note e = print_icmp_error6_report [OF h q True, of "ping_from (r_ping s1)" "int (8 + n)", unfolded same(3)]
    show ?thesis
    proof (cases "print_icmp_error6 (ping_from (r_ping s1)) (int (8 + n)) s1")
      case None
      then show ?thesis using eq True e by auto
    next
      case (Some s2)
      then show ?thesis using eq True e by auto
    qed
  qed (use eq in auto)
qed

text \<open>\<open>ping6 -s 8\<close>, and a port-unreachable report for its first request.\<close>

definition sample_report :: "byte list" where
  "sample_report = error_report [1, 4, 0, 0, 0, 0, 0, 0]
     ([0x60, 0, 0, 0, 0, 16, 58, 64] @ replicate 15 0 @ [1] @ replicate 15 0 @ [1]) 4660 0 (replicate 8 7)"

definition sample_small :: ref6 where
  "sample_small = (ref_boot6 (sample_os\<lparr>os_recv := \<lambda>_. RecvData sample_report\<rparr>) sample_net6)\<lparr>r_ping := zero_ping6\<lparr>
     ping_dest := replicate 15 0 @ [1], ping_datalen := 8, ping_ident := 4660, ping_buffer := Some (replicate 16 0)\<rparr>\<rparr>"

theorem error_report_safe_iff_witness: "ping_recv6 sample_small = None"
  using error_report_safe_iff [of sample_small "[1, 4, 0, 0, 0, 0, 0, 0]"
      "[0x60, 0, 0, 0, 0, 16, 58, 64] @ replicate 15 0 @ [1] @ replicate 15 0 @ [1]" 0 "replicate 8 7" "replicate 16 0"]
  by (simp add: sample_small_def ref_boot6_def sample_report_def zero_ping6_def has_opt_def)

end
