(* ===== verification/Spec2Isabelle.thy ===== *)
theory Spec2Isabelle
  imports Ping_Main Ping_Counters Ping_Tests Getopt_Long Ref6_Command Ref6_Errors
begin

text \<open>
  A verification of \<open>ft_ping\<close>, a reimplementation in C of the \<open>ping\<close> of GNU inetutils 2.0, and of
  the parts of inetutils it is measured against. Paths are relative to \<open>src/\<close> of the repository:
  the program is \<open>src/src\<close> and \<open>src/include\<close>, the reference is \<open>src/inetutils-2.0\<close>.

  \<^bold>\<open>The program.\<close> \<open>main\<close> builds a context from the command line, prints a banner, opens a raw
  socket, installs the SIGINT handler, runs the event loop and prints the statistics. The loop
  sends when the clock says so and drains the socket when \<open>poll\<close> says so; both work on one
  context (buffers, ring of send times), one schedule and one set of counters.

  \<^item> \<open>Prelude\<close>: machine integers with their wrap-around, byte order, byte buffers whose accesses
    fail outside the object, the collections of simplification rules. \<open>Double\<close>: the C type
    \<open>double\<close> as exact IEEE 754 binary64 with rounding to nearest, infinities and NaN. \<open>Text\<close>, \<open>Libc_Num\<close>:
    the conversions of \<open>printf\<close>, \<open>strtol\<close> and \<open>strtod\<close> the program relies on. \<open>Samples\<close>: inputs of the
    witnesses.
  \<^item> \<open>Ping_Types\<close> (\<open>include/ping_types.h\<close>, \<open>include/ping_core.h\<close>): the structs as records, the tunables, and the
    operating system. An \<open>os\<close> answers the k-th call of each kind by a function of k, so that
    every interleaving of clock readings, datagrams, errors and signals is some \<open>os\<close>; a \<open>world\<close>
    is the state of the process and the list of its observable events.
  \<^item> \<open>Ping_Time\<close> (\<open>utils\<close>), \<open>Ping_Checksum\<close> (\<open>net/ping_checksum.c\<close>), \<open>Ping_Output\<close> (\<open>output\<close>), \<open>Ping_Signal\<close>
    (\<open>core/ping_signal.c\<close>).
  \<^item> \<open>Ping_Send\<close> (\<open>net/ping_send.c\<close>), \<open>Ping_Icmp_Error\<close> (\<open>net/ping_icmp_error.c\<close>), \<open>Ping_Receive\<close>
    (\<open>net/ping_receive.c\<close>), \<open>Ping_Socket\<close> (\<open>net/ping_resolve.c\<close>, \<open>net/ping_socket.c\<close>).
  \<^item> \<open>Getopt\<close> (\<open>inetutils-2.0/lib/getopt.c\<close>, the same code as in the C library), \<open>Ping_Cli\<close> (\<open>cli\<close>) with its
    theorems in \<open>Ping_Cli_Spec\<close>, \<open>Ping_Context\<close> (\<open>core/ping_context.c\<close>).
  \<^item> \<open>Ping_Loop\<close> (\<open>core/ping_loop.c\<close>); \<open>Ping_Session\<close> presents its runs as paths of a transition system
    and proves the invariants by rule induction; \<open>Ping_Termination\<close> says when a run ends and
    \<open>Ping_Counters\<close> that its counters do not overflow; \<open>Ping_Main\<close> (\<open>main.c\<close>) composes everything.
  \<^item> \<open>Ping_Tests\<close> (\<open>tests\<close>): the unit tests of the repository, run on the models.

  \<^bold>\<open>The reference.\<close>

  \<^item> \<open>Getopt_Long\<close> (\<open>lib/getopt.c\<close>, \<open>lib/getopt1.c\<close>): long options and the whole scanner.
  \<^item> \<open>Ref_Icmp\<close> (\<open>libicmp\<close>): layout, checksum, encoders, decoder.
  \<^item> \<open>Ref_Common\<close> (\<open>ping/ping_common.h\<close> and the globals of \<open>ping/ping.c\<close>) and \<open>Ref_Helpers\<close>
    (\<open>ping/ping_common.c\<close>): the state and the helpers, with the table of sequence numbers.
  \<^item> \<open>Ref_Print\<close>, \<open>Ref_Options\<close>, \<open>Ref_Handlers\<close> (\<open>ping/ping_echo.c\<close>, \<open>ping/ping_timestamp.c\<close>, \<open>ping/ping_address.c\<close>): what
    is printed for a message, and the summaries.
  \<^item> \<open>Ref_Lib\<close> (\<open>ping/libping.c\<close>), \<open>Ref_Run\<close> and \<open>Ref_Main\<close> (\<open>ping/ping.c\<close> and the entry points of the other files):
    sending and receiving one message, the loop, the command. The loop is written once, for the
    operations of either ping (\<open>ping_ops\<close>). \<open>Ref_Send\<close> proves what one call sends, \<open>Ref_Frame\<close> what the
    printing functions leave alone, \<open>Ref_Session\<close> what a whole session sends and that it ends, \<open>Ref_Command\<close>
    what the command has sent to all hosts of its command line.
  \<^item> \<open>Inet_Ntop\<close> (\<open>lib/inet_ntop.c\<close>): the text of an address.
  \<^item> \<open>Ref6_Print\<close>, \<open>Ref6_Lib\<close>, \<open>Ref6_Main\<close> (\<open>ping/ping6.c\<close>): the IPv6 ping, printing, sending and receiving,
    the command; \<open>Ref6_Send\<close>, \<open>Ref6_Session\<close> and \<open>Ref6_Command\<close> transfer the theorems on packets, sessions and the command,
    \<open>Ref6_Errors\<close> says on which error reports the program reads past its buffer.

  \<^bold>\<open>Conventions.\<close> An access outside an object, a null pointer used, and a loop that does not end
  within its bound are \<open>None\<close>; a theorem whose conclusion is \<open>Some\<close> therefore includes memory safety.
  Exits are values: \<open>Exit\<close>, \<open>Inl status\<close> and the status of \<open>main\<close>. Everything is executable, and the
  witnesses evaluate it. Where C leaves the overflow of a signed \<open>int\<close> undefined (the counters
  \<open>n_sent\<close> and \<open>n_recv\<close>, the percentage), the model wraps around, one of the outcomes C allows; \<open>counters_exact\<close>
  bounds where that matters for the counters, \<open>loss_percent_overflow\<close> says where for the percentage. The
  nanoseconds of \<open>elapsed_ms\<close> are an unbounded integer; for a valid clock they fit the 64 bits of the code.

  \<^bold>\<open>Hypotheses on the environment.\<close> They stand in the theorems that need them: \<open>malloc_ok\<close> (an allocated block has
  the size asked for), \<open>os_posixly_correct\<close> (whether \<open>POSIXLY_CORRECT\<close> is set, which makes \<open>getopt\<close> stop at
  the first operand; the theorems on the command line are about the usual case that it is not), \<open>clock_valid\<close> and
  \<open>drains\<close> for termination, and \<open>memory\<close> for the two commands of the reference (\<open>malloc\<close> does not fail there).

  \<^bold>\<open>Interfaces.\<close> \<open>rounding\<close> (what the statistics need of the arithmetic, interpreted by \<open>Double\<close>),
  \<open>error_detecting\<close> (what a one's complement checksum detects, interpreted by the code's), \<open>slot_store\<close>
  (the ring of send times), \<open>seq_set\<close> (the reference's table of sequence numbers), \<open>transmitter\<close> (one call of
  \<open>send_echo\<close> hands one request to the kernel) and its extension \<open>session\<close> (receiving keeps what sending
  relies on), and \<open>visitor\<close> (the call for one host sends to that host only and leaves the state as it
  found it), each interpreted by \<open>ping\<close> (\<open>v4\<close>, \<open>s4\<close>, \<open>h4\<close>) and by \<open>ping6\<close> (\<open>v6\<close>, \<open>s6\<close>, \<open>h6\<close>): the proofs about
  the loops are made once for the two programs.

  \<^bold>\<open>What the theorems show.\<close> For \<open>main\<close>: every outcome with its cause, for every command line and every
  operating system, and that it returns when SIGINT is delivered (\<open>main_outcome\<close>, \<open>main_returns\<close>). For the session:
  the packets on the wire are the numbered echo requests of the accepted attempts, stamped with
  readings of the clock (\<open>session_wire\<close>), and explicit bounds after which the run has ended
  (\<open>ping_run_terminates\<close>); no counter overflows before 2^31 calls (\<open>counters_exact\<close>), and a reply is
  timed against its own probe across the wrap of the sequence numbers (\<open>timestamp_survives\<close>). For each component: its functional behaviour on every branch against an
  abstract description (\<open>send_one_spec\<close>, \<open>receive_step_spec\<close>, \<open>ping_receive_spec\<close>, \<open>handle_icmp_error_spec\<close>,
  \<open>socket_open_spec\<close>, \<open>ctx_init_complete_or_nothing\<close>, \<open>parse_info_outcome\<close>); round trips (\<open>parse_rendered\<close>,
  \<open>decode_pattern_roundtrip\<close>, \<open>probe_reply_roundtrip\<close>, \<open>decode_encoded\<close>); refinements (\<open>getopt_refines_scanner\<close>,
  \<open>extract_long_opts_spec\<close>, \<open>table_is_set\<close>); the arithmetic (\<open>ft_checksum_spec\<close>, \<open>corrupted_byte_detected\<close>,
  \<open>ms_until_bounds\<close>, \<open>rtt_statistics\<close>, \<open>stddev_defined\<close>, \<open>loss_percent_truncates\<close>, \<open>resp_time_exact\<close>). Across the two
  programs: the same checksum, the same packet for the same payload, the same verdict on every
  datagram whose IP header claims at least 20 bytes, the same loss percentage (\<open>checksum_is_reference\<close>, \<open>reference_encodes_probe\<close>,
  \<open>decode_agrees_with_program\<close>, \<open>loss_percent_is_reference\<close>), and exactly when their default packets agree
  (\<open>packets_agree_iff\<close>). For the two pings of the reference: the requests of a session are numbered
  without gap (\<open>ref_session_wire\<close>, \<open>ref6_session_wire\<close>) and a session with a count ends when nothing
  answers, with all its requests sent unless a send is refused, SIGINT arrives or \<open>-w\<close> cuts it short (\<open>ref_unanswered\<close>); the whole commands send to the hosts of the command line in order
  (\<open>command_wire\<close>, \<open>command6_wire\<close>). Four theorems state defects as facts about the code: \<open>loss_percent_overflow\<close>,
  \<open>parse_accepts_nan_and_truncates\<close>, \<open>ping_receive_endless\<close>, \<open>error_report_safe_iff\<close>.

  \<^bold>\<open>Bounds.\<close> \<open>run_loop\<close> and \<open>ping_receive\<close> wait for events the program does not control, so they take
  a number of passes and yield \<open>None\<close> beyond it; \<open>ping_run_terminates\<close> gives sufficient numbers from the
  delivery of SIGINT or the deadline of \<open>-t\<close> and the longest burst of datagrams. \<open>parse_loop\<close> takes
  one more than the number of characters and elements of \<open>argv\<close>, each of which is consumed at most once;
  \<open>parse_info_outcome\<close> shows that it never runs out. \<open>ref_loop\<close> has a number of passes of the same
  kind; \<open>ref_unanswered\<close> shows that the count and two more suffice when nothing answers. All
  other recursions are proved to terminate, except \<open>nsqrt_loop\<close>, whose iteration in floating point is
  a partial function.

  \<^bold>\<open>Not modelled.\<close> Of the program, nothing: all files of \<open>src/src\<close> that are compiled into it are
  covered. The container files and the superseded snapshots under \<open>legacy\<close> are left out. Of the tests,
  the two checks of the family and the port of a resolved address, for which the answer of the
  resolver has no room in the model. Of inetutils, the other network tools and the portability
  library are left out; the program neither links nor calls them. \<open>argp\<close>, the resolver and the kernel
  are parameters of the models of the two reference pings. \<open>ping_set_sockopt\<close> and the \<open>SO_BROADCAST\<close>
  option, whose result is ignored, are left out, and so are the branches of \<open>ping6.c\<close> for
  \<open>IPV6_FLOWINFO\<close>, which the headers of the GNU C library it includes do not define.
\<close>

end
